(* ===== verification/Prelude.thy ===== *)
theory Prelude
  imports Main "HOL-Library.Word" "HOL-Library.Char_ord" "HOL-Library.List_Lexorder"
begin

text \<open>
  The shared vocabulary of the development: machine integers of the Rust sources, the
  standard-library string operations they use on UTF-8 text, relational tables with the
  SQL statements of the persistence crate, and the interfaces (locales) that several
  components provide: text codecs for enums stored as text, and state machines with
  terminal states and with a rank.
\<close>

named_theorems store_simps \<open>unfolding rules of the store operations\<close>
named_theorems table_simps \<open>rewrite rules of the SQL statements on tables\<close>

section \<open>Machine integers\<close>

type_synonym u8 = "8 word"
type_synonym u32 = "32 word"
type_synonym u64 = "64 word"

text \<open>\<open>saturating_sub\<close> of the unsigned integer types.\<close>

definition saturating_sub :: "'a::len word \<Rightarrow> 'a word \<Rightarrow> 'a word" where
  "saturating_sub a b = (if b \<le> a then a - b else 0)"

lemma unat_saturating_sub [simp]: "unat (saturating_sub a b) = unat a - unat b"
  by (auto simp: saturating_sub_def unat_sub word_le_nat_alt)

text \<open>\<open>try_from\<close> of a database integer into an unsigned type and back.\<close>

definition u32_try_from :: "int \<Rightarrow> u32 option" where
  "u32_try_from i = (if 0 \<le> i \<and> i < 2 ^ 32 then Some (word_of_int i) else None)"

definition u64_try_from :: "int \<Rightarrow> u64 option" where
  "u64_try_from i = (if 0 \<le> i \<and> i < 2 ^ 64 then Some (word_of_int i) else None)"

definition i32_try_from :: "u32 \<Rightarrow> int option" where
  "i32_try_from w = (if uint w < 2 ^ 31 then Some (uint w) else None)"

definition i64_try_from :: "u64 \<Rightarrow> int option" where
  "i64_try_from w = (if uint w < 2 ^ 63 then Some (uint w) else None)"

lemma u32_try_from_SomeD: "u32_try_from i = Some w \<Longrightarrow> uint w = i"
  by (auto simp: u32_try_from_def uint_word_of_int take_bit_int_eq_self split: if_splits)

lemma u64_try_from_SomeD: "u64_try_from i = Some w \<Longrightarrow> uint w = i"
  by (auto simp: u64_try_from_def uint_word_of_int take_bit_int_eq_self split: if_splits)

lemma i32_try_from_SomeD: "i32_try_from w = Some i \<Longrightarrow> i = uint w"
  by (auto simp: i32_try_from_def split: if_splits)

lemma i64_try_from_SomeD: "i64_try_from w = Some i \<Longrightarrow> i = uint w"
  by (auto simp: i64_try_from_def split: if_splits)

lemma uint_add_le_of_saturating:
  assumes "\<not> saturating_sub cap used < need" and "0 < need"
  shows "uint used + uint need \<le> uint cap"
proof -
  have "unat need \<le> unat cap - unat used"
    using assms(1) by (simp add: word_less_nat_alt)
  moreover have "0 < unat need" using assms(2) by (simp add: word_less_nat_alt)
  ultimately have "unat used + unat need \<le> unat cap" by arith
  then have "int (unat used + unat need) \<le> int (unat cap)" by (simp only: of_nat_le_iff)
  then show ?thesis by simp
qed

section \<open>Results\<close>

text \<open>
  A \<open>Result<T, E>\<close> is a sum, \<open>Inl\<close> the error. \<open>and_then\<close> is the \<open>?\<close> operator, \<open>try_each\<close> a loop
  whose body uses it, \<open>try_map\<close> a \<open>map(...).collect()\<close> into a \<open>Result\<close>.
\<close>

definition and_then :: "'e + 'a \<Rightarrow> ('a \<Rightarrow> 'e + 'b) \<Rightarrow> 'e + 'b" where
  "and_then r k = (case r of Inl e \<Rightarrow> Inl e | Inr a \<Rightarrow> k a)"

fun try_each :: "('a \<Rightarrow> 'e + unit) \<Rightarrow> 'a list \<Rightarrow> 'e + unit" where
  "try_each f [] = Inr ()"
| "try_each f (x # xs) = and_then (f x) (\<lambda>_. try_each f xs)"

fun try_map :: "('a \<Rightarrow> 'e + 'b) \<Rightarrow> 'a list \<Rightarrow> 'e + 'b list" where
  "try_map f [] = Inr []"
| "try_map f (x # xs) = and_then (f x) (\<lambda>y. and_then (try_map f xs) (\<lambda>ys. Inr (y # ys)))"

definition ok_or :: "'a option \<Rightarrow> 'e \<Rightarrow> 'e + 'a" where
  "ok_or r e = (case r of None \<Rightarrow> Inl e | Some a \<Rightarrow> Inr a)"

lemma and_then_simps [simp]:
  "and_then (Inl e) k = Inl e" "and_then (Inr a) k = k a"
  by (simp_all add: and_then_def)

lemma and_then_Inr_iff: "and_then r k = Inr b \<longleftrightarrow> (\<exists>a. r = Inr a \<and> k a = Inr b)"
  by (cases r) auto

lemma try_each_Inr_iff: "try_each f xs = Inr u \<longleftrightarrow> (\<forall>x \<in> set xs. f x = Inr ())"
  by (induction xs) (auto simp: and_then_Inr_iff)

lemma try_map_Inr_iff:
  "try_map f xs = Inr ys \<longleftrightarrow> list_all2 (\<lambda>x y. f x = Inr y) xs ys"
  by (induction xs arbitrary: ys) (auto simp: and_then_Inr_iff list_all2_Cons1)

lemma ok_or_Inr_iff: "ok_or r e = Inr a \<longleftrightarrow> r = Some a"
  by (simp add: ok_or_def split: option.split)

section \<open>Strings\<close>

text \<open>
  A Rust \<open>str\<close> is a list of UTF-8 bytes; \<open>len\<close> counts bytes, and the ASCII operations
  leave bytes above 127 alone.
\<close>

definition byte :: "char \<Rightarrow> nat" where
  "byte c = of_char c"

definition ascii_lower :: "char \<Rightarrow> char" where
  "ascii_lower c = (if 65 \<le> byte c \<and> byte c \<le> 90 then char_of (byte c + 32) else c)"

definition to_ascii_lowercase :: "string \<Rightarrow> string" where
  "to_ascii_lowercase s = map ascii_lower s"

definition eq_ignore_ascii_case :: "string \<Rightarrow> string \<Rightarrow> bool" where
  "eq_ignore_ascii_case a b \<longleftrightarrow> to_ascii_lowercase a = to_ascii_lowercase b"

lemma byte_char_of: "n < 256 \<Longrightarrow> byte (char_of n) = n"
  by (simp add: byte_def)

lemma ascii_lower_idem [simp]: "ascii_lower (ascii_lower c) = ascii_lower c"
  by (auto simp: ascii_lower_def byte_char_of)

lemma to_ascii_lowercase_idem [simp]:
  "to_ascii_lowercase (to_ascii_lowercase s) = to_ascii_lowercase s"
  by (simp add: to_ascii_lowercase_def)

text \<open>
  \<open>str::trim\<close> removes leading and trailing code points with the Unicode property
  \<open>White_Space\<close>; these are their UTF-8 encodings.
\<close>

definition white_space :: "string list" where
  "white_space =
     map (\<lambda>n. [char_of n]) [9::nat, 10, 11, 12, 13, 32]
     @ map (map char_of)
        ([[0xC2::nat, 0x85], [0xC2, 0xA0], [0xE1, 0x9A, 0x80]]
         @ map (\<lambda>n. [0xE2, 0x80, n]) [0x80..<0x8B]
         @ [[0xE2, 0x80, 0xA8], [0xE2, 0x80, 0xA9], [0xE2, 0x80, 0xAF],
            [0xE2, 0x81, 0x9F], [0xE3, 0x80, 0x80]])"

fun starts_with :: "string \<Rightarrow> string \<Rightarrow> bool" where
  "starts_with [] s = True"
| "starts_with (p # ps) [] = False"
| "starts_with (p # ps) (c # cs) = (p = c \<and> starts_with ps cs)"

function strip_seqs :: "string list \<Rightarrow> string \<Rightarrow> string" where
  "strip_seqs ws s =
     (case find (\<lambda>w. w \<noteq> [] \<and> starts_with w s) ws of
        None \<Rightarrow> s
      | Some w \<Rightarrow> (if s = [] then s else strip_seqs ws (drop (length w) s)))"
  by pat_completeness auto
termination
  by (relation "measure (\<lambda>(ws, s). length s)") (auto simp: find_Some_iff)

declare strip_seqs.simps [simp del]

definition trim_start :: "string \<Rightarrow> string" where
  "trim_start s = strip_seqs white_space s"

definition trim_end :: "string \<Rightarrow> string" where
  "trim_end s = rev (strip_seqs (map rev white_space) (rev s))"

definition trim :: "string \<Rightarrow> string" where
  "trim s = trim_end (trim_start s)"

lemma length_strip_seqs: "length (strip_seqs ws s) \<le> length s"
proof (induction ws s rule: strip_seqs.induct)
  case (1 ws s)
  show ?case
    by (subst strip_seqs.simps) (use 1 in \<open>fastforce split: option.split\<close>)
qed

lemma trim_Nil [simp]: "trim [] = []"
  using length_strip_seqs [of white_space "[]"]
    length_strip_seqs [of "map rev white_space" "[]"]
  by (simp add: trim_def trim_start_def trim_end_def)

text \<open>Text that begins and ends with printable ASCII is left alone.\<close>

lemma white_space_ends:
  "w \<in> set white_space \<Longrightarrow>
     w \<noteq> [] \<and> (byte (hd w) \<le> 32 \<or> 127 \<le> byte (hd w)) \<and> (byte (last w) \<le> 32 \<or> 127 \<le> byte (last w))"
  by (auto simp: white_space_def byte_def)

lemma strip_seqs_id:
  assumes "\<And>w. w \<in> set ws \<Longrightarrow> w = [] \<or> hd w \<noteq> hd s" and "s \<noteq> []"
  shows "strip_seqs ws s = s"
proof -
  obtain c cs where s: "s = c # cs" using assms(2) by (cases s) auto
  have "\<not> (w \<noteq> [] \<and> starts_with w s)" if "w \<in> set ws" for w
    using assms(1) [OF that] s by (cases w) auto
  then have "find (\<lambda>w. w \<noteq> [] \<and> starts_with w s) ws = None" by (simp add: find_None_iff)
  then show ?thesis by (subst strip_seqs.simps) simp
qed

lemma trim_printable:
  assumes "s \<noteq> []" and "32 < byte (hd s)" "byte (hd s) < 127"
    and "32 < byte (last s)" "byte (last s) < 127"
  shows "trim s = s"
proof -
  have "trim_start s = s"
    unfolding trim_start_def by (rule strip_seqs_id) (use assms white_space_ends in fastforce)+
  moreover have "strip_seqs (map rev white_space) (rev s) = rev s"
    by (rule strip_seqs_id) (use assms white_space_ends in \<open>fastforce simp: hd_rev\<close>)+
  ultimately show ?thesis by (simp add: trim_def trim_end_def)
qed

text \<open>\<open>str::split\<close>, \<open>split_once\<close> and \<open>rsplit_once\<close> on one ASCII character.\<close>

fun split_on :: "char \<Rightarrow> string \<Rightarrow> string list" where
  "split_on d [] = [[]]"
| "split_on d (c # cs) =
     (if c = d then [] # split_on d cs
      else (case split_on d cs of [] \<Rightarrow> [[c]] | w # ws \<Rightarrow> (c # w) # ws))"

fun split_once :: "char \<Rightarrow> string \<Rightarrow> (string \<times> string) option" where
  "split_once d [] = None"
| "split_once d (c # cs) =
     (if c = d then Some ([], cs)
      else map_option (\<lambda>(a, b). (c # a, b)) (split_once d cs))"

definition rsplit_once :: "char \<Rightarrow> string \<Rightarrow> (string \<times> string) option" where
  "rsplit_once d s = map_option (\<lambda>(a, b). (rev b, rev a)) (split_once d (rev s))"

lemma split_once_Some_iff:
  "split_once d s = Some (a, b) \<longleftrightarrow> s = a @ d # b \<and> d \<notin> set a"
proof (induction s arbitrary: a)
  case (Cons c cs)
  show ?case
  proof (cases "c = d")
    case True
    then show ?thesis by (cases a) auto
  next
    case False
    then show ?thesis by (cases a) (auto simp: Cons.IH)
  qed
qed simp

lemma rsplit_once_Some_iff:
  "rsplit_once d s = Some (a, b) \<longleftrightarrow> s = a @ d # b \<and> d \<notin> set b"
proof -
  have "rsplit_once d s = Some (a, b) \<longleftrightarrow> split_once d (rev s) = Some (rev b, rev a)"
    by (auto simp: rsplit_once_def)
  also have "\<dots> \<longleftrightarrow> rev s = rev b @ d # rev a \<and> d \<notin> set b"
    by (simp add: split_once_Some_iff)
  also have "rev s = rev b @ d # rev a \<longleftrightarrow> s = a @ d # b"
    by (metis append_assoc append_Cons append_Nil rev.simps(2) rev_append rev_rev_ident)
  finally show ?thesis .
qed

lemma split_once_None_iff: "split_once d s = None \<longleftrightarrow> d \<notin> set s"
  by (induction s) auto

lemma split_on_not_Nil [simp]: "split_on d s \<noteq> []"
  by (induction s) (auto split: list.splits)

lemma length_split_on: "length (split_on d s) = Suc (count_list s d)"
proof (induction s)
  case (Cons c cs)
  then show ?case by (cases "split_on d cs") auto
qed simp

text \<open>\<open>char::is_control\<close>: the general category Cc, U+0000 to U+001F and U+007F to U+009F.\<close>

fun has_control :: "string \<Rightarrow> bool" where
  "has_control [] \<longleftrightarrow> False"
| "has_control (c # cs) \<longleftrightarrow>
     byte c < 32 \<or> byte c = 127
     \<or> (byte c = 0xC2 \<and> (case cs of x # _ \<Rightarrow> 0x80 \<le> byte x \<and> byte x \<le> 0x9F | [] \<Rightarrow> False))
     \<or> has_control cs"

text \<open>Decimal rendering of a natural number, as \<open>format!\<close> writes an integer.\<close>

fun show_nat :: "nat \<Rightarrow> string" where
  "show_nat n = (if n < 10 then [char_of (48 + n)] else show_nat (n div 10) @ [char_of (48 + n mod 10)])"

declare show_nat.simps [simp del]

section \<open>Relational tables\<close>

text \<open>
  A table is the list of its rows. Each SQL statement of the persistence crate is one of
  these operations: a keyed \<open>SELECT\<close> (\<open>fetch_optional\<close>), an \<open>EXISTS\<close>, an \<open>UPDATE ... WHERE\<close>
  with its number of affected rows, a \<open>DELETE ... WHERE\<close>, and an \<open>INSERT\<close> (append).
\<close>

definition sql_lookup :: "('r \<Rightarrow> 'k) \<Rightarrow> 'k \<Rightarrow> 'r list \<Rightarrow> 'r option" where
  "sql_lookup key k t = find (\<lambda>r. key r = k) t"

definition sql_exists :: "('r \<Rightarrow> bool) \<Rightarrow> 'r list \<Rightarrow> bool" where
  "sql_exists p t = list_ex p t"

definition sql_update :: "('r \<Rightarrow> bool) \<Rightarrow> ('r \<Rightarrow> 'r) \<Rightarrow> 'r list \<Rightarrow> 'r list" where
  "sql_update p f t = map (\<lambda>r. if p r then f r else r) t"

definition rows_affected :: "('r \<Rightarrow> bool) \<Rightarrow> 'r list \<Rightarrow> nat" where
  "rows_affected p t = length (filter p t)"

definition sql_delete :: "('r \<Rightarrow> bool) \<Rightarrow> 'r list \<Rightarrow> 'r list" where
  "sql_delete p t = filter (\<lambda>r. \<not> p r) t"

lemma sql_exists_iff: "sql_exists p t \<longleftrightarrow> (\<exists>r \<in> set t. p r)"
  by (simp add: sql_exists_def list_ex_iff)

lemma find_SomeD: "find p xs = Some x \<Longrightarrow> x \<in> set xs \<and> p x"
  by (auto simp: find_Some_iff)

lemma find_narrow:
  "find p xs = Some x \<Longrightarrow> q x \<Longrightarrow> (\<And>y. q y \<Longrightarrow> p y) \<Longrightarrow> find q xs = Some x"
  by (induction xs) (auto split: if_splits)

text \<open>The first hit in a sorted list has the least key of all hits.\<close>

lemma find_sorted_le:
  assumes "sorted (map f xs)" and "find p xs = Some x" and "y \<in> set xs" and "p y"
  shows "f x \<le> f y"
  using assms by (induction xs) (auto split: if_splits)

lemma find_sort_key_le:
  assumes "find p (sort_key f xs) = Some x" and "y \<in> set xs" and "p y"
  shows "f x \<le> f y"
  by (rule find_sorted_le [OF sorted_sort_key assms(1)]) (use assms in simp_all)

lemma sql_lookup_SomeD: "sql_lookup key k t = Some r \<Longrightarrow> r \<in> set t \<and> key r = k"
  by (auto simp: sql_lookup_def find_Some_iff)

lemma sql_lookup_None_iff: "sql_lookup key k t = None \<longleftrightarrow> k \<notin> key ` set t"
  by (auto simp: sql_lookup_def find_None_iff)

lemma sql_exists_key: "sql_exists (\<lambda>r. key r = k) t \<longleftrightarrow> sql_lookup key k t \<noteq> None"
  by (induction t) (auto simp: sql_exists_def sql_lookup_def)

lemma sql_lookup_in_set:
  assumes "distinct (map key t)" and "r \<in> set t"
  shows "sql_lookup key (key r) t = Some r"
  using assms by (induction t) (auto simp: sql_lookup_def rev_image_eqI)

lemma set_sql_update: "set (sql_update p f t) = (\<lambda>r. if p r then f r else r) ` set t"
  by (simp add: sql_update_def)

lemma sql_lookup_update [table_simps]:
  assumes "\<And>r. key (f r) = key r"
  shows "sql_lookup key k (sql_update p f t)
           = map_option (\<lambda>r. if p r then f r else r) (sql_lookup key k t)"
  by (induction t) (auto simp: sql_lookup_def sql_update_def assms)

lemma map_key_update [table_simps]:
  assumes "\<And>r. key (f r) = key r"
  shows "map key (sql_update p f t) = map key t"
  by (simp add: sql_update_def assms comp_def if_distrib [of key] cong: map_cong)

lemma sql_lookup_prefix:
  "sql_lookup key k t = None \<Longrightarrow> key r = k \<Longrightarrow> sql_lookup key k (t @ r # more) = Some r"
  by (induction t) (auto simp: sql_lookup_def split: if_splits)

lemma sql_lookup_append [table_simps]:
  "sql_lookup key k (t @ [r]) =
     (case sql_lookup key k t of Some r' \<Rightarrow> Some r' | None \<Rightarrow> if key r = k then Some r else None)"
  by (induction t) (auto simp: sql_lookup_def)

lemma distinct_delete: "distinct (map key t) \<Longrightarrow> distinct (map key (sql_delete p t))"
  by (simp add: sql_delete_def distinct_map_filter)

lemma set_sql_delete [simp]: "set (sql_delete p t) = {r \<in> set t. \<not> p r}"
  by (simp add: sql_delete_def)

lemma rows_affected_key:
  "distinct (map key t) \<Longrightarrow> rows_affected (\<lambda>r. key r = k \<and> p r) t \<le> 1"
proof (induction t)
  case (Cons r t)
  have "key r = k \<Longrightarrow> filter (\<lambda>r. key r = k \<and> p r) t = []"
    using Cons.prems by (auto simp: filter_empty_conv rev_image_eqI)
  with Cons show ?case by (auto simp: rows_affected_def)
qed (simp add: rows_affected_def)

lemma rows_affected_pos_iff: "0 < rows_affected p t \<longleftrightarrow> (\<exists>r \<in> set t. p r)"
  by (auto simp: rows_affected_def filter_empty_conv)

lemma rows_affected_1D: "rows_affected p t = 1 \<Longrightarrow> \<exists>r \<in> set t. p r"
  using rows_affected_pos_iff [of p t] by simp

section \<open>Interfaces\<close>

text \<open>
  A text codec: how an enum is stored in a \<open>TEXT\<close> column. Comparing texts in SQL is then
  comparing values.
\<close>

locale text_codec =
  fixes enc :: "'a \<Rightarrow> string" and dec :: "string \<Rightarrow> 'a option"
  assumes dec_enc: "dec (enc x) = Some x"
begin

lemma enc_eq_iff: "enc x = enc y \<longleftrightarrow> x = y"
  by (metis dec_enc option.inject)

lemma enc_in_iff: "enc x \<in> enc ` A \<longleftrightarrow> x \<in> A"
  by (auto simp: enc_eq_iff)

end

text \<open>A state machine some of whose states are terminal.\<close>

locale terminal_machine =
  fixes can :: "'s \<Rightarrow> 's \<Rightarrow> bool" and terminal :: "'s \<Rightarrow> bool"
  assumes terminal_stuck: "terminal s \<Longrightarrow> \<not> can s t"
begin

lemma terminal_final: "can\<^sup>*\<^sup>* s t \<Longrightarrow> terminal s \<Longrightarrow> t = s"
  by (induction rule: converse_rtranclp_induct) (auto simp: terminal_stuck)

end

text \<open>A state machine whose steps climb a rank: it has no cycle and its runs are bounded.\<close>

locale ranked_machine = terminal_machine +
  fixes rank :: "'s \<Rightarrow> nat"
  assumes can_rank: "can s t \<Longrightarrow> rank s < rank t"
begin

lemma steps_bound: "(can ^^ n) s t \<Longrightarrow> rank s + n \<le> rank t"
proof (induction n arbitrary: t)
  case (Suc n)
  then obtain u where "(can ^^ n) s u" and "can u t" by auto
  with Suc.IH can_rank [of u t] show ?case by fastforce
qed simp

lemma no_cycle: "\<not> can\<^sup>+\<^sup>+ s s"
proof
  assume "can\<^sup>+\<^sup>+ s s"
  then obtain n where "0 < n" and "(can ^^ n) s s" by (auto simp: tranclp_power)
  with steps_bound [of n s s] show False by simp
qed

end

text \<open>A store whose operations keep an invariant keeps it along every run.\<close>

locale store_machine =
  fixes step :: "'s \<Rightarrow> 's \<Rightarrow> bool" and inv :: "'s \<Rightarrow> bool"
  assumes step_inv: "step s t \<Longrightarrow> inv s \<Longrightarrow> inv t"
begin

lemma run_inv: "step\<^sup>*\<^sup>* s t \<Longrightarrow> inv s \<Longrightarrow> inv t"
  by (induction rule: rtranclp_induct) (auto intro: step_inv)

end

end
