(* ===== verification/Lifecycle.thy ===== *)
theory Lifecycle
  imports Prelude
begin

text \<open>
  The vocabulary of an execution's life: roles, failure classes and lifecycle states with
  their transition relation (\<open>orchestrator-core/src/error.rs\<close>, \<open>execution.rs\<close>), the event
  kinds (\<open>event.rs\<close>) and their projection onto the control plane's resilience contract
  (\<open>resilience_contracts.rs\<close>). Identifiers (\<open>ids.rs\<close>) are their strings.
\<close>

type_synonym execution_id = string
type_synonym attempt_id = string
type_synonym session_id = string
type_synonym worker_id = string
type_synonym time = int

datatype failure_class =
    EnvironmentFailed | HarnessFailed | ModelFailed | Timeout | Inactivity
  | ResourceViolation | WorkerLost | CancelledByClient | TaskFailed | Internal

datatype role =
    Implementation | Review | Documentation | UiReview | IntegrationTest | Interactive

datatype execution_state =
    Queued | WorkerAssigned | Provisioning | Running | PausedForHuman
  | ReviewReady | Completed | Failed | Cancelled

definition is_terminal :: "execution_state \<Rightarrow> bool" where
  "is_terminal s = (case s of Completed \<Rightarrow> True | Failed \<Rightarrow> True | Cancelled \<Rightarrow> True | _ \<Rightarrow> False)"

definition can_transition_to :: "execution_state \<Rightarrow> execution_state \<Rightarrow> bool" where
  "can_transition_to a b =
     (if a = b then False
      else case (a, b) of
        (_, Cancelled) \<Rightarrow> \<not> is_terminal a
      | (_, Failed) \<Rightarrow> \<not> is_terminal a
      | (Queued, WorkerAssigned) \<Rightarrow> True
      | (WorkerAssigned, Provisioning) \<Rightarrow> True
      | (Provisioning, Running) \<Rightarrow> True
      | (Running, PausedForHuman) \<Rightarrow> True
      | (PausedForHuman, Running) \<Rightarrow> True
      | (Running, ReviewReady) \<Rightarrow> True
      | (Running, Completed) \<Rightarrow> True
      | (ReviewReady, Completed) \<Rightarrow> True
      | _ \<Rightarrow> False)"

text \<open>
  \<open>CoreError\<close>. \<open>UnknownExecution\<close> is declared by the source and never constructed there.
\<close>

datatype core_error =
    InvalidManifest string
  | UnknownExecution string
  | CoreIllegalTransition execution_state execution_state

section \<open>Stored and printed texts of the enums\<close>

text \<open>serde's \<open>SCREAMING_SNAKE_CASE\<close> names, as \<open>enum_text\<close> writes and \<open>enum_from_text\<close> reads them.\<close>

definition state_text :: "execution_state \<Rightarrow> string" where
  "state_text s = (case s of
     Queued \<Rightarrow> ''QUEUED'' | WorkerAssigned \<Rightarrow> ''WORKER_ASSIGNED''
   | Provisioning \<Rightarrow> ''PROVISIONING'' | Running \<Rightarrow> ''RUNNING''
   | PausedForHuman \<Rightarrow> ''PAUSED_FOR_HUMAN'' | ReviewReady \<Rightarrow> ''REVIEW_READY''
   | Completed \<Rightarrow> ''COMPLETED'' | Failed \<Rightarrow> ''FAILED'' | Cancelled \<Rightarrow> ''CANCELLED'')"

definition state_from_text :: "string \<Rightarrow> execution_state option" where
  "state_from_text t =
     (if t = ''QUEUED'' then Some Queued
      else if t = ''WORKER_ASSIGNED'' then Some WorkerAssigned
      else if t = ''PROVISIONING'' then Some Provisioning
      else if t = ''RUNNING'' then Some Running
      else if t = ''PAUSED_FOR_HUMAN'' then Some PausedForHuman
      else if t = ''REVIEW_READY'' then Some ReviewReady
      else if t = ''COMPLETED'' then Some Completed
      else if t = ''FAILED'' then Some Failed
      else if t = ''CANCELLED'' then Some Cancelled
      else None)"

text \<open>The \<open>{:?}\<close> rendering of a state, used in error messages.\<close>

definition state_debug :: "execution_state \<Rightarrow> string" where
  "state_debug s = (case s of
     Queued \<Rightarrow> ''Queued'' | WorkerAssigned \<Rightarrow> ''WorkerAssigned''
   | Provisioning \<Rightarrow> ''Provisioning'' | Running \<Rightarrow> ''Running''
   | PausedForHuman \<Rightarrow> ''PausedForHuman'' | ReviewReady \<Rightarrow> ''ReviewReady''
   | Completed \<Rightarrow> ''Completed'' | Failed \<Rightarrow> ''Failed'' | Cancelled \<Rightarrow> ''Cancelled'')"

section \<open>Events\<close>

datatype watchdog_verdict = Healthy | QuietHealthy | Stalled

text \<open>
  \<open>ExecutionEventKind\<close>. A watchdog sample carries its measurements; the CPU percentage is
  opaque to every component modelled here and is kept as the text serde writes.
\<close>

datatype event_kind =
    ExecutionCreated
  | WorkerAssignedEvent worker_id
  | EnvironmentReady
  | AgentStarted session_id
  | TestsStarted
  | TestsFailed
  | ReviewReadyEvent
  | ExecutionRequeued failure_class
  | ExecutionFailed failure_class
  | ExecutionCompleted
  | ExecutionCancelled
  | AgentInactive u64
  | ExecutionPaused
  | ExecutionResumed
  | ConversationForked session_id
  | WatchdogSample watchdog_verdict "string option" "time option" "string option"
      "u64 option" "u64 option" "u64 option"

record execution_event =
  ev_execution_id :: execution_id
  ev_attempt_id :: "attempt_id option"
  ev_sequence :: nat
  ev_at :: time
  ev_state :: execution_state
  ev_kind :: event_kind

section \<open>The resilience contract\<close>

datatype resilience_event =
    ContextThresholdReached | CheckpointRequested | CheckpointPersisted | CheckpointAcknowledged
  | ResilienceExecutionResumed | WorkAssigned | WorkDelivered | ClaimAcquired | ClaimRenewed
  | ClaimExpired | AttemptStarted | AttemptCompleted | ValidationCompleted | ReviewCompleted
  | AttentionStarted | AttentionProgressed | AttentionCompleted | MemoryMapGenerated
  | MemoryRetrieved | LessonCandidateCreated | LessonValidated | LessonPromoted | LessonRejected

definition resilience_kind :: "resilience_event \<Rightarrow> string" where
  "resilience_kind e = (case e of
     ContextThresholdReached \<Rightarrow> ''context.threshold_reached''
   | CheckpointRequested \<Rightarrow> ''checkpoint.requested''
   | CheckpointPersisted \<Rightarrow> ''checkpoint.persisted''
   | CheckpointAcknowledged \<Rightarrow> ''checkpoint.acknowledged''
   | ResilienceExecutionResumed \<Rightarrow> ''execution.resumed''
   | WorkAssigned \<Rightarrow> ''work.assigned''
   | WorkDelivered \<Rightarrow> ''work.delivered''
   | ClaimAcquired \<Rightarrow> ''claim.acquired''
   | ClaimRenewed \<Rightarrow> ''claim.renewed''
   | ClaimExpired \<Rightarrow> ''claim.expired''
   | AttemptStarted \<Rightarrow> ''attempt.started''
   | AttemptCompleted \<Rightarrow> ''attempt.completed''
   | ValidationCompleted \<Rightarrow> ''validation.completed''
   | ReviewCompleted \<Rightarrow> ''review.completed''
   | AttentionStarted \<Rightarrow> ''attention.started''
   | AttentionProgressed \<Rightarrow> ''attention.progressed''
   | AttentionCompleted \<Rightarrow> ''attention.completed''
   | MemoryMapGenerated \<Rightarrow> ''memory.map_generated''
   | MemoryRetrieved \<Rightarrow> ''memory.retrieved''
   | LessonCandidateCreated \<Rightarrow> ''lesson.candidate_created''
   | LessonValidated \<Rightarrow> ''lesson.validated''
   | LessonPromoted \<Rightarrow> ''lesson.promoted''
   | LessonRejected \<Rightarrow> ''lesson.rejected'')"

datatype work_receipt_stage = Sent | Delivered | Claimed | Handled

definition resilience_lifecycle :: "event_kind \<Rightarrow> resilience_event option" where
  "resilience_lifecycle k = (case k of
     ExecutionCreated \<Rightarrow> Some WorkAssigned
   | WorkerAssignedEvent _ \<Rightarrow> Some WorkDelivered
   | EnvironmentReady \<Rightarrow> Some ClaimAcquired
   | AgentStarted _ \<Rightarrow> Some AttemptStarted
   | ExecutionCompleted \<Rightarrow> Some AttemptCompleted
   | ExecutionRequeued _ \<Rightarrow> Some AttemptCompleted
   | ExecutionFailed _ \<Rightarrow> Some AttemptCompleted
   | ExecutionCancelled \<Rightarrow> Some AttemptCompleted
   | ReviewReadyEvent \<Rightarrow> Some ReviewCompleted
   | AgentInactive _ \<Rightarrow> Some ClaimExpired
   | ExecutionResumed \<Rightarrow> Some ResilienceExecutionResumed
   | ExecutionPaused \<Rightarrow> None
   | TestsStarted \<Rightarrow> None
   | TestsFailed \<Rightarrow> None
   | ConversationForked _ \<Rightarrow> None
   | WatchdogSample _ _ _ _ _ _ _ \<Rightarrow> None)"

definition receipt_stage :: "event_kind \<Rightarrow> work_receipt_stage option" where
  "receipt_stage k = (case k of
     ExecutionCreated \<Rightarrow> Some Sent
   | WorkerAssignedEvent _ \<Rightarrow> Some Delivered
   | EnvironmentReady \<Rightarrow> Some Claimed
   | AgentStarted _ \<Rightarrow> Some Claimed
   | ExecutionCompleted \<Rightarrow> Some Handled
   | ExecutionRequeued _ \<Rightarrow> Some Handled
   | ExecutionFailed _ \<Rightarrow> Some Handled
   | ExecutionCancelled \<Rightarrow> Some Handled
   | _ \<Rightarrow> None)"

record work_receipt =
  rc_schema :: string
  rc_receipt_id :: string
  rc_idempotency_key :: string
  rc_work_id :: string
  rc_attempt_id :: attempt_id
  rc_consumer :: string
  rc_stage :: work_receipt_stage
  rc_at :: u64

definition work_receipt_new ::
  "string \<Rightarrow> attempt_id \<Rightarrow> string \<Rightarrow> work_receipt_stage \<Rightarrow> u64 \<Rightarrow> work_receipt" where
  "work_receipt_new work attempt consumer stage at =
     \<lparr>rc_schema = ''autospec.work-receipt.v1'',
      rc_receipt_id = ''receipt-'' @ show_nat (unat at) @ ''-'' @ attempt,
      rc_idempotency_key = ''idem-'' @ attempt @ ''-'' @ show_nat (unat at),
      rc_work_id = work, rc_attempt_id = attempt, rc_consumer = consumer,
      rc_stage = stage, rc_at = at\<rparr>"

section \<open>Facts about the lifecycle\<close>

lemmas state_simps = is_terminal_def can_transition_to_def

lemma can_transition_to_irrefl [simp]: "\<not> can_transition_to s s"
  by (simp add: can_transition_to_def)

lemma terminal_no_transition [simp]: "is_terminal s \<Longrightarrow> \<not> can_transition_to s t"
  by (cases s; cases t) (simp_all add: state_simps)

lemma can_fail_iff [simp]: "can_transition_to s Failed \<longleftrightarrow> \<not> is_terminal s"
  by (cases s) (simp_all add: state_simps)

lemma can_cancel_iff [simp]: "can_transition_to s Cancelled \<longleftrightarrow> \<not> is_terminal s"
  by (cases s) (simp_all add: state_simps)

interpretation exec_state: terminal_machine can_transition_to is_terminal
  by unfold_locales simp

interpretation exec_text: text_codec state_text state_from_text
proof
  fix s show "state_from_text (state_text s) = Some s"
    by (cases s) (simp_all add: state_text_def state_from_text_def)
qed

lemma state_from_text_SomeD: "state_from_text t = Some s \<Longrightarrow> t = state_text s"
  by (auto simp: state_from_text_def state_text_def split: if_splits)

text \<open>The working states in the order an attempt visits them.\<close>

definition progress_rank :: "execution_state \<Rightarrow> nat" where
  "progress_rank s = (case s of
     Queued \<Rightarrow> 0 | WorkerAssigned \<Rightarrow> 1 | Provisioning \<Rightarrow> 2 | Running \<Rightarrow> 3 | PausedForHuman \<Rightarrow> 3
   | ReviewReady \<Rightarrow> 4 | Completed \<Rightarrow> 5 | Failed \<Rightarrow> 5 | Cancelled \<Rightarrow> 5)"

lemma can_transition_progress: "can_transition_to s t \<Longrightarrow> progress_rank s \<le> progress_rank t"
  by (cases s; cases t) (simp_all add: state_simps progress_rank_def)

lemma reach_progress: "can_transition_to\<^sup>*\<^sup>* s t \<Longrightarrow> progress_rank s \<le> progress_rank t"
  by (induction rule: rtranclp_induct) (auto dest: can_transition_progress)

text \<open>Running is entered from provisioning or from a pause only.\<close>

lemma into_Running: "can_transition_to s Running \<Longrightarrow> s = Provisioning \<or> s = PausedForHuman"
  by (cases s) (simp_all add: state_simps)

lemma into_PausedForHuman: "can_transition_to s PausedForHuman \<Longrightarrow> s = Running"
  by (cases s) (simp_all add: state_simps)

lemma into_Provisioning: "can_transition_to s Provisioning \<Longrightarrow> s = WorkerAssigned"
  by (cases s) (simp_all add: state_simps)

lemma into_WorkerAssigned: "can_transition_to s WorkerAssigned \<Longrightarrow> s = Queued"
  by (cases s) (simp_all add: state_simps)

lemma into_ReviewReady: "can_transition_to s ReviewReady \<Longrightarrow> s = Running"
  by (cases s) (simp_all add: state_simps)

lemma into_Completed: "can_transition_to s Completed \<Longrightarrow> s = Running \<or> s = ReviewReady"
  by (cases s) (simp_all add: state_simps)

lemmas into_state = into_Running into_PausedForHuman into_Provisioning into_WorkerAssigned
  into_ReviewReady into_Completed

lemma not_into_Queued: "\<not> can_transition_to s Queued"
  by (cases s) (simp_all add: state_simps)

section \<open>Properties\<close>

lemma path_prefix:
  assumes "successively can_transition_to (Queued # path)" and "Completed \<in> set path"
  shows "\<exists>rest. path = [WorkerAssigned, Provisioning, Running] @ rest"
proof -
  have stuck: "\<exists>u. can_transition_to s u" if "successively can_transition_to (s # us)" "us \<noteq> []" for s us
    using that by (cases us) auto
  have final: "us = []" if "successively can_transition_to (s # us)" "is_terminal s" for s us
    using stuck [OF that(1)] terminal_no_transition [OF that(2)] by blast
  have Q: "can_transition_to Queued s \<Longrightarrow> s = WorkerAssigned \<or> s = Failed \<or> s = Cancelled" for s
    by (cases s) (simp_all add: state_simps)
  have W: "can_transition_to WorkerAssigned s \<Longrightarrow> s = Provisioning \<or> s = Failed \<or> s = Cancelled" for s
    by (cases s) (simp_all add: state_simps)
  have P: "can_transition_to Provisioning s \<Longrightarrow> s = Running \<or> s = Failed \<or> s = Cancelled" for s
    by (cases s) (simp_all add: state_simps)
  have dead: "Completed \<notin> set (s # us)"
    if "successively can_transition_to (s # us)" "s = Failed \<or> s = Cancelled" for s us
    using final [OF that(1)] that(2) by (auto simp: is_terminal_def)
  obtain a p1 where p1: "path = a # p1" using assms(2) by (cases path) auto
  with assms Q [of a] dead [of a p1] have a: "a = WorkerAssigned" by auto
  obtain b p2 where p2: "p1 = b # p2" using assms(2) p1 a by (cases p1) auto
  with assms p1 a W [of b] dead [of b p2] have b: "b = Provisioning" by auto
  obtain c p3 where p3: "p2 = c # p3" using assms(2) p1 p2 a b by (cases p2) auto
  with assms p1 p2 a b P [of c] dead [of c p3] have "c = Running" by auto
  with p1 p2 p3 a b show ?thesis by simp
qed

text \<open>
  C32. A state machine path that starts queued and reaches completion is worker-assigned,
  then provisioning, then running, and completion is its last state: no execution
  completes without an assigned worker and a provisioned environment.
\<close>

theorem completed_after_running:
  assumes "successively can_transition_to (Queued # path)" and "Completed \<in> set path"
  shows "\<exists>mid. path = [WorkerAssigned, Provisioning, Running] @ mid @ [Completed]
           \<and> set mid \<subseteq> {Running, PausedForHuman, ReviewReady}"
proof -
  obtain rest where path: "path = [WorkerAssigned, Provisioning, Running] @ rest"
    using path_prefix [OF assms] by blast
  have "\<exists>mid. rest = mid @ [Completed] \<and> set mid \<subseteq> {Running, PausedForHuman, ReviewReady}"
    if "successively can_transition_to (s # rest)" "Completed \<in> set rest" "3 \<le> progress_rank s" for s rest
    using that
  proof (induction rest arbitrary: s)
    case (Cons t rest)
    have step: "can_transition_to s t" and succ: "successively can_transition_to (t # rest)"
      using Cons.prems(1) by auto
    have rank: "3 \<le> progress_rank t"
      using can_transition_progress [OF step] Cons.prems(3) by simp
    show ?case
    proof (cases "Completed \<in> set rest")
      case True
      then obtain u where "can_transition_to t u" using succ by (cases rest) auto
      then have "t \<in> {Running, PausedForHuman, ReviewReady}"
        using rank by (cases t) (auto simp: progress_rank_def is_terminal_def)
      moreover from Cons.IH [OF succ True rank] obtain mid where "rest = mid @ [Completed]"
        "set mid \<subseteq> {Running, PausedForHuman, ReviewReady}" by blast
      ultimately show ?thesis by (intro exI [of _ "t # mid"]) auto
    next
      case False
      with Cons.prems(2) have "t = Completed" by simp
      with succ have "rest = []" by (cases rest) (auto simp: is_terminal_def)
      with \<open>t = Completed\<close> show ?thesis by auto
    qed
  qed simp
  from this [of Running rest] assms path show ?thesis by (auto simp: progress_rank_def)
qed

theorem completed_after_running_witness:
  "\<exists>mid. [WorkerAssigned, Provisioning, Running, PausedForHuman, Running, ReviewReady, Completed]
       = [WorkerAssigned, Provisioning, Running] @ mid @ [Completed]
     \<and> set mid \<subseteq> {Running, PausedForHuman, ReviewReady}"
  by (rule completed_after_running) (simp_all add: state_simps)

text \<open>
  C33. A state is terminal exactly when it has no successor; every state that is not
  terminal can still be cancelled and can still fail; and nothing returns to the queue
  through the state machine.
\<close>

theorem terminal_iff_stuck:
  "is_terminal s = (\<forall>t. \<not> can_transition_to s t)
   \<and> can_transition_to s Cancelled = (\<not> is_terminal s)
   \<and> can_transition_to s Failed = (\<not> is_terminal s)
   \<and> \<not> can_transition_to s Queued"
proof (intro conjI)
  show "is_terminal s = (\<forall>t. \<not> can_transition_to s t)"
    using can_fail_iff [of s] terminal_no_transition [of s] by blast
qed (simp_all add: not_into_Queued)

text \<open>
  The resilience contract agrees with itself on every execution event: an attempt is
  reported completed exactly when its work receipt is handled, a delivered receipt is a
  delivered work item, a sent one an assigned work item, and distinct resilience events
  have distinct names on the wire.
\<close>

theorem resilience_agrees:
  "(resilience_lifecycle k = Some AttemptCompleted) = (receipt_stage k = Some Handled)
   \<and> (resilience_lifecycle k = Some WorkDelivered) = (receipt_stage k = Some Delivered)
   \<and> (resilience_lifecycle k = Some WorkAssigned) = (receipt_stage k = Some Sent)
   \<and> (resilience_kind e = resilience_kind e') = (e = e')"
proof (intro conjI)
  show "(resilience_kind e = resilience_kind e') = (e = e')"
    by (cases e; cases e'; simp add: resilience_kind_def)
qed (cases k; simp add: resilience_lifecycle_def receipt_stage_def)+

end
