(* ===== verification/Manifest.thy ===== *)
theory Manifest
  imports Lifecycle
begin

text \<open>
  The execution manifest and its validation (\<open>orchestrator-core/src/manifest.rs\<close>), the task
  packet it carries (\<open>task_packet.rs\<close>) and the repository's declared environment
  (\<open>environment.rs\<close>). A \<open>BTreeMap\<close> is the list of its entries in key order.
\<close>

type_synonym btree = "(string \<times> string) list"

datatype harness_kind = Pi | OpenCode | Codex

datatype runtime_kind = Docker | Podman | Apptainer

datatype persistence_mode = Ephemeral | Resumable

record task_reference =
  tr_project_id :: string
  tr_issue_id :: string
  tr_task_id :: "string option"

record repository_reference =
  rr_repo :: string
  rr_base_ref :: string
  rr_base_sha :: "string option"
  rr_branch :: "string option"

record model_policy =
  mp_provider :: string
  mp_preferred :: "string list"
  mp_alternatives :: "string list"
  mp_fallback_class :: "string option"

record agent_assignment =
  aa_harness :: harness_kind
  aa_model_policy :: model_policy

record runtime_requirement =
  rq_kind :: runtime_kind
  rq_image :: "string option"
  rq_os :: "string option"
  rq_arch :: "string option"
  rq_cpu :: u32
  rq_memory_mib :: u64
  rq_disk_gib :: u64
  rq_capabilities :: "string list"
  rq_toolchains :: btree

record service_requirement =
  sv_name :: string
  sv_image :: string
  sv_env :: btree

record task_packet =
  tp_goal :: string
  tp_acceptance_criteria :: "string list"
  tp_non_goals :: "string list"
  tp_relevant_context :: "string list"
  tp_required_tests :: "string list"
  tp_role_skill :: "string option"

record execution_manifest =
  mf_api_version :: string
  mf_role :: role
  mf_task :: "task_reference option"
  mf_repository :: repository_reference
  mf_agent :: agent_assignment
  mf_runtime :: runtime_requirement
  mf_services :: "service_requirement list"
  mf_persistence :: persistence_mode
  mf_task_packet :: "task_packet option"

definition default_runtime :: runtime_requirement where
  "default_runtime =
     \<lparr>rq_kind = Docker, rq_image = None, rq_os = None, rq_arch = None, rq_cpu = 2,
      rq_memory_mib = 4096, rq_disk_gib = 20, rq_capabilities = [], rq_toolchains = []\<rparr>"

definition MANIFEST_API_VERSION :: string where
  "MANIFEST_API_VERSION = ''autospec.dev/v1alpha1''"

definition invalid :: "string \<Rightarrow> core_error + 'a" where
  "invalid message = Inl (InvalidManifest message)"

text \<open>The pattern \<open>^[a-z0-9][a-z0-9-]*$\<close>, anchored at both ends of the text.\<close>

definition lower_alnum :: "char \<Rightarrow> bool" where
  "lower_alnum c \<longleftrightarrow> (97 \<le> byte c \<and> byte c \<le> 122) \<or> (48 \<le> byte c \<and> byte c \<le> 57)"

definition capability_pattern :: "string \<Rightarrow> bool" where
  "capability_pattern s = (case s of
     [] \<Rightarrow> False
   | c # cs \<Rightarrow> lower_alnum c \<and> list_all (\<lambda>d. lower_alnum d \<or> d = CHR ''-'') cs)"

definition validate_repository :: "string \<Rightarrow> core_error + unit" where
  "validate_repository repository =
     (case split_on (CHR ''/'') repository of
        [owner, name] \<Rightarrow>
          if owner \<noteq> [] \<and> name \<noteq> [] then Inr ()
          else invalid ''repository.repo must be exactly owner/name''
      | _ \<Rightarrow> invalid ''repository.repo must be exactly owner/name'')"

definition validate_image :: "string \<Rightarrow> string \<Rightarrow> core_error + unit" where
  "validate_image img field =
     (let final = (case rsplit_once (CHR ''/'') img of None \<Rightarrow> img | Some (_, f) \<Rightarrow> f);
          tagged = (case split_once (CHR '':'') final of
             None \<Rightarrow> False | Some (name, tag) \<Rightarrow> name \<noteq> [] \<and> tag \<noteq> []);
          digested = (case split_once (CHR ''@'') img of
             None \<Rightarrow> False | Some (name, digest) \<Rightarrow> name \<noteq> [] \<and> digest \<noteq> [])
      in if tagged \<or> digested then Inr ()
         else invalid (field @ '' must include a tag or digest: '' @ img))"

definition validate_service_name :: "string \<Rightarrow> core_error + unit" where
  "validate_service_name name =
     (if capability_pattern name then Inr () else invalid (''invalid service name: '' @ name))"

definition validate_runtime :: "runtime_requirement \<Rightarrow> core_error + unit" where
  "validate_runtime runtime =
     (if rq_cpu runtime = 0 then invalid ''runtime cpu must be greater than zero''
      else if rq_memory_mib runtime < 256 then invalid ''runtime memoryMib must be at least 256''
      else if rq_disk_gib runtime = 0 then invalid ''runtime diskGib must be greater than zero''
      else and_then
        (case rq_image runtime of None \<Rightarrow> Inr () | Some img \<Rightarrow> validate_image img ''runtime image'')
        (\<lambda>_. try_each
          (\<lambda>capability. if capability_pattern capability then Inr ()
             else invalid (''invalid runtime capability: '' @ capability))
          (rq_capabilities runtime)))"

definition manifest_validate :: "execution_manifest \<Rightarrow> core_error + unit" where
  "manifest_validate m =
     (if mf_api_version m \<noteq> MANIFEST_API_VERSION
      then invalid (''apiVersion must be '' @ MANIFEST_API_VERSION @ '', got '' @ mf_api_version m)
      else and_then (validate_repository (rr_repo (mf_repository m))) (\<lambda>_.
        and_then (validate_runtime (mf_runtime m)) (\<lambda>_.
          try_each
            (\<lambda>service. and_then (validate_service_name (sv_name service)) (\<lambda>_.
               validate_image (sv_image service) ''service image''))
            (mf_services m))))"

section \<open>The repository's environment file\<close>

record environment_service =
  es_image :: string
  es_env :: btree

record environment_file =
  en_runtime :: runtime_requirement
  en_services :: "(string \<times> environment_service) list"

definition environment_validate :: "environment_file \<Rightarrow> core_error + unit" where
  "environment_validate e =
     and_then (validate_runtime (en_runtime e)) (\<lambda>_.
       try_each
         (\<lambda>(name, service). and_then (validate_service_name name) (\<lambda>_.
            validate_image (es_image service) ''environment service image''))
         (en_services e))"

definition environment_resolve ::
  "environment_file \<Rightarrow> string list \<Rightarrow> core_error + service_requirement list" where
  "environment_resolve e requires =
     and_then (environment_validate e) (\<lambda>_.
       try_map
         (\<lambda>name. and_then
            (ok_or (map_of (en_services e) name)
               (InvalidManifest
                  (''requested service is not declared by the repository: '' @ name)))
            (\<lambda>declared. Inr \<lparr>sv_name = name, sv_image = es_image declared,
                             sv_env = es_env declared\<rparr>))
         requires)"

section \<open>What validation accepts\<close>

text \<open>The accepted repository references and images, stated on the text itself.\<close>

definition repository_ok :: "string \<Rightarrow> bool" where
  "repository_ok r \<longleftrightarrow>
     (\<exists>owner name. r = owner @ CHR ''/'' # name \<and> owner \<noteq> [] \<and> name \<noteq> []
        \<and> CHR ''/'' \<notin> set owner \<and> CHR ''/'' \<notin> set name)"

definition image_ok :: "string \<Rightarrow> bool" where
  "image_ok i \<longleftrightarrow>
     (\<exists>path name tag. i = path @ name @ CHR '':'' # tag \<and> (path = [] \<or> last path = CHR ''/'')
        \<and> name \<noteq> [] \<and> tag \<noteq> [] \<and> CHR ''/'' \<notin> set name \<union> set tag \<and> CHR '':'' \<notin> set name)
     \<or> (\<exists>name digest. i = name @ CHR ''@'' # digest \<and> name \<noteq> [] \<and> digest \<noteq> []
        \<and> CHR ''@'' \<notin> set name)"

definition runtime_ok :: "runtime_requirement \<Rightarrow> bool" where
  "runtime_ok r \<longleftrightarrow> 0 < rq_cpu r \<and> 256 \<le> rq_memory_mib r \<and> 0 < rq_disk_gib r
     \<and> (\<forall>i. rq_image r = Some i \<longrightarrow> image_ok i)
     \<and> (\<forall>c \<in> set (rq_capabilities r). capability_pattern c)"

definition service_ok :: "service_requirement \<Rightarrow> bool" where
  "service_ok s \<longleftrightarrow> capability_pattern (sv_name s) \<and> image_ok (sv_image s)"

lemma split_on_Nil_iff: "d \<notin> set s \<Longrightarrow> split_on d s = [s]"
  by (induction s) auto

lemma split_on_sep: "d \<notin> set a \<Longrightarrow> split_on d (a @ d # b) = a # split_on d b"
  by (induction a) auto

lemma split_on_concat: "split_on d s = w # ws \<Longrightarrow>
   d \<notin> set w \<and> (if ws = [] then s = w else \<exists>b. s = w @ d # b \<and> split_on d b = ws)"
proof (induction s arbitrary: w ws)
  case (Cons c cs)
  show ?case
  proof (cases "c = d")
    case True
    with Cons.prems show ?thesis by auto
  next
    case False
    obtain v vs where v: "split_on d cs = v # vs" by (cases "split_on d cs") auto
    with False Cons.prems have "w = c # v" "ws = vs" by auto
    with Cons.IH [OF v] False show ?thesis by (auto split: if_splits)
  qed
qed auto

lemma split_on_two_iff:
  "split_on d s = [a, b] \<longleftrightarrow> s = a @ d # b \<and> d \<notin> set a \<and> d \<notin> set b"
proof
  assume l: "split_on d s = [a, b]"
  from split_on_concat [OF l] obtain c where c: "s = a @ d # c" "split_on d c = [b]" "d \<notin> set a"
    by auto
  from split_on_concat [OF c(2)] c show "s = a @ d # b \<and> d \<notin> set a \<and> d \<notin> set b" by auto
qed (auto simp: split_on_sep split_on_Nil_iff)

lemma validate_repository_iff: "validate_repository r = Inr () \<longleftrightarrow> repository_ok r"
proof -
  have "validate_repository r = Inr () \<longleftrightarrow>
      (\<exists>a b. split_on (CHR ''/'') r = [a, b] \<and> a \<noteq> [] \<and> b \<noteq> [])"
    by (auto simp: validate_repository_def invalid_def split: list.splits)
  then show ?thesis by (auto simp: repository_ok_def split_on_two_iff)
qed

lemma final_component:
  "(case rsplit_once d i of None \<Rightarrow> i | Some (_, f) \<Rightarrow> f) = f \<longleftrightarrow>
   d \<notin> set f \<and> (\<exists>p. i = p @ f \<and> (p = [] \<or> last p = d))"
proof (cases "rsplit_once d i")
  case None
  then have n: "d \<notin> set i" by (simp add: rsplit_once_def split_once_None_iff)
  then show ?thesis using None by auto (metis last_in_set)
next
  case (Some ab)
  then obtain a b where ab: "rsplit_once d i = Some (a, b)" by (cases ab) auto
  then have i: "i = a @ d # b" and b: "d \<notin> set b" by (simp_all add: rsplit_once_Some_iff)
  have "b = f" if "d \<notin> set f" "i = p @ f" "p = [] \<or> last p = d" for p
  proof -
    have "p \<noteq> []" using that i by auto
    with that(3) obtain q where "p = q @ [d]" by (metis append_butlast_last_id)
    with that have "rsplit_once d i = Some (q, f)" by (simp add: rsplit_once_Some_iff)
    with ab show ?thesis by simp
  qed
  moreover have "\<exists>p. i = p @ b \<and> (p = [] \<or> last p = d)"
    by (rule exI [of _ "a @ [d]"]) (simp add: i)
  ultimately show ?thesis using ab b by auto
qed

lemma validate_image_iff: "validate_image i field = Inr () \<longleftrightarrow> image_ok i"
proof -
  let ?f = "case rsplit_once (CHR ''/'') i of None \<Rightarrow> i | Some (_, f) \<Rightarrow> f"
  have "validate_image i field = Inr () \<longleftrightarrow>
      (\<exists>n t. split_once (CHR '':'') ?f = Some (n, t) \<and> n \<noteq> [] \<and> t \<noteq> [])
      \<or> (\<exists>n g. split_once (CHR ''@'') i = Some (n, g) \<and> n \<noteq> [] \<and> g \<noteq> [])"
    by (auto simp: validate_image_def invalid_def Let_def split: option.splits)
  also have "(\<exists>n t. split_once (CHR '':'') ?f = Some (n, t) \<and> n \<noteq> [] \<and> t \<noteq> []) \<longleftrightarrow>
      (\<exists>n t. ?f = n @ CHR '':'' # t \<and> CHR '':'' \<notin> set n \<and> n \<noteq> [] \<and> t \<noteq> [])"
    by (simp add: split_once_Some_iff conj_ac)
  also have "\<dots> \<longleftrightarrow> (\<exists>p n t. i = p @ n @ CHR '':'' # t \<and> (p = [] \<or> last p = CHR ''/'')
        \<and> n \<noteq> [] \<and> t \<noteq> [] \<and> CHR ''/'' \<notin> set n \<union> set t \<and> CHR '':'' \<notin> set n)"
    unfolding final_component by auto
  finally show ?thesis
    by (simp add: image_ok_def split_once_Some_iff conj_ac)
qed

lemma validate_runtime_iff: "validate_runtime r = Inr () \<longleftrightarrow> runtime_ok r"
  by (auto simp: validate_runtime_def runtime_ok_def invalid_def and_then_Inr_iff try_each_Inr_iff
        validate_image_iff word_neq_0_conv not_less split: option.splits if_splits)

lemma validate_service_iff:
  "and_then (validate_service_name (sv_name s)) (\<lambda>_. validate_image (sv_image s) field) = Inr ()
   \<longleftrightarrow> service_ok s"
  by (auto simp: and_then_Inr_iff validate_service_name_def service_ok_def invalid_def
        validate_image_iff split: if_splits)

lemma validate_services_iff:
  "try_each (\<lambda>s. and_then (validate_service_name (sv_name s))
      (\<lambda>_. validate_image (sv_image s) field)) ss = Inr () \<longleftrightarrow> (\<forall>s \<in> set ss. service_ok s)"
  by (simp add: try_each_Inr_iff validate_service_iff)

lemma manifest_validate_iff:
  "manifest_validate m = Inr () \<longleftrightarrow>
     mf_api_version m = MANIFEST_API_VERSION \<and> repository_ok (rr_repo (mf_repository m))
     \<and> runtime_ok (mf_runtime m) \<and> (\<forall>s \<in> set (mf_services m). service_ok s)"
proof -
  have "manifest_validate m = Inr () \<longleftrightarrow> mf_api_version m = MANIFEST_API_VERSION
      \<and> validate_repository (rr_repo (mf_repository m)) = Inr ()
      \<and> validate_runtime (mf_runtime m) = Inr ()
      \<and> try_each (\<lambda>s. and_then (validate_service_name (sv_name s))
          (\<lambda>_. validate_image (sv_image s) ''service image'')) (mf_services m) = Inr ()"
    by (auto simp: manifest_validate_def invalid_def and_then_Inr_iff)
  then show ?thesis
    by (simp add: validate_repository_iff validate_runtime_iff validate_services_iff)
qed

lemma environment_validate_iff:
  "environment_validate e = Inr () \<longleftrightarrow> runtime_ok (en_runtime e)
     \<and> (\<forall>(n, s) \<in> set (en_services e). capability_pattern n \<and> image_ok (es_image s))"
  by (auto simp: environment_validate_def and_then_Inr_iff try_each_Inr_iff validate_runtime_iff
        validate_image_iff validate_service_name_def invalid_def split: if_splits)

section \<open>Properties\<close>

lemma environment_resolve_Inr:
  assumes "environment_resolve e requires = Inr ss"
  shows "environment_validate e = Inr ()"
    and "list_all2 (\<lambda>n s. \<exists>d. map_of (en_services e) n = Some d
           \<and> s = \<lparr>sv_name = n, sv_image = es_image d, sv_env = es_env d\<rparr>) requires ss"
  using assms
  by (auto simp: environment_resolve_def and_then_Inr_iff try_map_Inr_iff ok_or_Inr_iff
      elim: list_all2_mono)

lemma resolved_service_ok:
  assumes "environment_resolve e requires = Inr ss" and "s \<in> set ss"
  shows "service_ok s"
proof -
  note res = environment_resolve_Inr [OF assms(1)]
  from res(2) assms(2) obtain n d where "map_of (en_services e) n = Some d"
    and s: "s = \<lparr>sv_name = n, sv_image = es_image d, sv_env = es_env d\<rparr>"
    by (auto simp: list_all2_conv_all_nth in_set_conv_nth)
  then have "(n, d) \<in> set (en_services e)" by (simp add: map_of_SomeD)
  with res(1) s show ?thesis by (auto simp: environment_validate_iff service_ok_def)
qed

definition demo_manifest :: execution_manifest where
  "demo_manifest =
     \<lparr>mf_api_version = ''autospec.dev/v1alpha1'', mf_role = Implementation, mf_task = None,
      mf_repository = \<lparr>rr_repo = ''acme/app'', rr_base_ref = ''main'', rr_base_sha = None,
        rr_branch = None\<rparr>,
      mf_agent = \<lparr>aa_harness = Pi, aa_model_policy =
        \<lparr>mp_provider = ''p'', mp_preferred = [], mp_alternatives = [], mp_fallback_class = None\<rparr>\<rparr>,
      mf_runtime = default_runtime,
      mf_services = [\<lparr>sv_name = ''db'', sv_image = ''pg:16'', sv_env = []\<rparr>],
      mf_persistence = Resumable, mf_task_packet = None\<rparr>"

text \<open>
  C34. \<open>validate\<close> accepts a manifest exactly when its version is the supported one, its
  repository is owner/name, its runtime asks for a positive, pinned, well-named
  environment and every service is well named and pinned; every rejection is an
  invalid-manifest error.
\<close>

theorem manifest_validation_exact:
  "(manifest_validate m = Inr ()) =
     (mf_api_version m = MANIFEST_API_VERSION \<and> repository_ok (rr_repo (mf_repository m))
      \<and> runtime_ok (mf_runtime m) \<and> (\<forall>s \<in> set (mf_services m). service_ok s))"
  by (rule manifest_validate_iff)

lemma demo_manifest_valid: "manifest_validate demo_manifest = Inr ()"
  by (simp add: manifest_validate_def demo_manifest_def MANIFEST_API_VERSION_def
      validate_repository_def validate_runtime_def validate_service_name_def validate_image_def
      default_runtime_def rsplit_once_def capability_pattern_def lower_alnum_def byte_def)

theorem manifest_validation_exact_witness:
  "repository_ok ''acme/app'' \<and> runtime_ok default_runtime
   \<and> service_ok \<lparr>sv_name = ''db'', sv_image = ''pg:16'', sv_env = []\<rparr>"
  using demo_manifest_valid unfolding manifest_validation_exact
  by (simp add: demo_manifest_def)

text \<open>
  C35. Resolving service names against the repository's environment file returns one
  service per requested name, in order, each the declared one, and a valid manifest that
  takes over the resolved services is still valid.
\<close>

theorem environment_resolve_sound:
  assumes "environment_resolve e requires = Inr ss" and "manifest_validate m = Inr ()"
  shows "map sv_name ss = requires
    \<and> manifest_validate (m\<lparr>mf_services := ss\<rparr>) = Inr ()
    \<and> (\<forall>s \<in> set ss. \<exists>d. map_of (en_services e) (sv_name s) = Some d
           \<and> sv_image s = es_image d \<and> sv_env s = es_env d)"
proof (intro conjI)
  note res = environment_resolve_Inr(2) [OF assms(1)]
  show "map sv_name ss = requires"
    using res by (auto simp: list_all2_conv_all_nth intro!: nth_equalityI)
  show "manifest_validate (m\<lparr>mf_services := ss\<rparr>) = Inr ()"
    using assms(2) resolved_service_ok [OF assms(1)] by (simp add: manifest_validate_iff)
  show "\<forall>s \<in> set ss. \<exists>d. map_of (en_services e) (sv_name s) = Some d
           \<and> sv_image s = es_image d \<and> sv_env s = es_env d"
    using res by (fastforce simp: list_all2_conv_all_nth in_set_conv_nth)
qed

definition demo_environment :: environment_file where
  "demo_environment = \<lparr>en_runtime = default_runtime,
     en_services = [(''db'', \<lparr>es_image = ''pg:16'', es_env = []\<rparr>)]\<rparr>"

lemma demo_environment_resolves:
  "environment_resolve demo_environment [''db'']
     = Inr [\<lparr>sv_name = ''db'', sv_image = ''pg:16'', sv_env = []\<rparr>]"
  by (simp add: environment_resolve_def demo_environment_def environment_validate_def
      validate_runtime_def validate_service_name_def validate_image_def ok_or_def
      default_runtime_def rsplit_once_def capability_pattern_def lower_alnum_def byte_def)

theorem environment_resolve_sound_witness:
  "manifest_validate (demo_manifest\<lparr>mf_services :=
     [\<lparr>sv_name = ''db'', sv_image = ''pg:16'', sv_env = []\<rparr>]\<rparr>) = Inr ()"
  using environment_resolve_sound [OF demo_environment_resolves demo_manifest_valid] by blast

end
