(* ===== verification/Scheduler.thy ===== *)
theory Scheduler
  imports Manifest
begin

text \<open>
  Workers as they register (\<open>orchestrator-core/src/worker.rs\<close>) and the placement rule of
  the scheduler (\<open>orchestrator-scheduler/src/lib.rs\<close>): which worker can host a requirement,
  given what is already promised on it, and which of several is chosen.
\<close>

section \<open>Worker registrations\<close>

record worker_capabilities =
  wc_os :: string
  wc_arch :: string
  wc_cpu :: u32
  wc_memory_mib :: u64
  wc_disk_gib :: u64
  wc_runtimes :: "runtime_kind list"
  wc_capabilities :: "string list"
  wc_toolchains :: btree
  wc_max_concurrent :: u32
  wc_health_errors :: "string list"

definition health_errors_are_sanitized :: "worker_capabilities \<Rightarrow> bool" where
  "health_errors_are_sanitized c \<longleftrightarrow>
     length (wc_health_errors c) \<le> 2
     \<and> list_all (\<lambda>e. e \<in> set [''storage-capability-unavailable'',
          ''docker-capability-unavailable'', ''worker-configuration-invalid'',
          ''worker-preparation-unavailable'', ''disk-pressure-bytes'', ''disk-pressure-inodes''])
        (wc_health_errors c)"

datatype worker_state = Ready | Draining | Unreachable | Offline

record capability_proof =
  cp_storage_backend :: string
  cp_storage_pool_identity :: string
  cp_docker_daemon_id :: string
  cp_docker_verifier :: string
  cp_docker_method_version :: string

definition proof_is_complete :: "capability_proof \<Rightarrow> bool" where
  "proof_is_complete p \<longleftrightarrow>
     list_all (\<lambda>v. trim v \<noteq> [])
       [cp_storage_backend p, cp_storage_pool_identity p, cp_docker_daemon_id p,
        cp_docker_verifier p, cp_docker_method_version p]"

record worker_registration =
  wr_id :: worker_id
  wr_capabilities :: worker_capabilities
  wr_state :: worker_state
  wr_running :: u32
  wr_last_heartbeat :: time
  wr_proof :: "capability_proof option"

definition has_complete_proof :: "worker_registration \<Rightarrow> bool" where
  "has_complete_proof w = (case wr_proof w of None \<Rightarrow> False | Some p \<Rightarrow> proof_is_complete p)"

definition has_capacity :: "worker_registration \<Rightarrow> bool" where
  "has_capacity w \<longleftrightarrow>
     wr_state w = Ready \<and> wc_health_errors (wr_capabilities w) = []
     \<and> has_complete_proof w \<and> wr_running w < wc_max_concurrent (wr_capabilities w)"

section \<open>Placement\<close>

record reserved_resources =
  rv_slots :: u32
  rv_cpu :: u32
  rv_memory_mib :: u64
  rv_disk_gib :: u64

definition canonical_arch :: "string \<Rightarrow> string" where
  "canonical_arch arch =
     (let lower = to_ascii_lowercase (trim arch)
      in if lower = ''amd64'' \<or> lower = ''x86_64'' then ''x86_64''
         else if lower = ''arm64'' \<or> lower = ''aarch64'' then ''aarch64''
         else lower)"

definition arch_matches :: "string \<Rightarrow> string \<Rightarrow> bool" where
  "arch_matches want have \<longleftrightarrow> canonical_arch want = canonical_arch have"

definition worker_fits_with_reservations ::
  "worker_registration \<Rightarrow> runtime_requirement \<Rightarrow> reserved_resources \<Rightarrow> bool" where
  "worker_fits_with_reservations w req reserved =
     (let c = wr_capabilities w
      in if wr_state w \<noteq> Ready \<or> \<not> has_complete_proof w \<or> wc_max_concurrent c \<le> rv_slots reserved
         then False
         else if (case rq_os req of None \<Rightarrow> False | Some os \<Rightarrow> \<not> eq_ignore_ascii_case os (wc_os c))
         then False
         else if (case rq_arch req of None \<Rightarrow> False | Some arch \<Rightarrow> \<not> arch_matches arch (wc_arch c))
         then False
         else if \<not> list_all (\<lambda>(name, version). map_of (wc_toolchains c) name = Some version)
                     (rq_toolchains req)
         then False
         else if saturating_sub (wc_cpu c) (rv_cpu reserved) < rq_cpu req
              \<or> saturating_sub (wc_memory_mib c) (rv_memory_mib reserved) < rq_memory_mib req
              \<or> saturating_sub (wc_disk_gib c) (rv_disk_gib reserved) < rq_disk_gib req
         then False
         else if rq_kind req \<notin> set (wc_runtimes c)
         then False
         else list_all (\<lambda>cap. cap \<in> set (wc_capabilities c)) (rq_capabilities req))"

definition worker_fits :: "worker_registration \<Rightarrow> runtime_requirement \<Rightarrow> bool" where
  "worker_fits w req = worker_fits_with_reservations w req
     \<lparr>rv_slots = wr_running w, rv_cpu = 0, rv_memory_mib = 0, rv_disk_gib = 0\<rparr>"

text \<open>\<open>Iterator::min_by_key\<close>: the first of the elements with the least key.\<close>

fun min_by_key :: "('a \<Rightarrow> 'k::linorder) \<Rightarrow> 'a list \<Rightarrow> 'a option" where
  "min_by_key f [] = None"
| "min_by_key f (x # xs) =
     (case min_by_key f xs of None \<Rightarrow> Some x | Some y \<Rightarrow> if f x \<le> f y then Some x else Some y)"

datatype schedule_error = NoEligibleWorker runtime_requirement

definition select ::
  "worker_registration list \<Rightarrow> runtime_requirement \<Rightarrow> schedule_error + worker_registration" where
  "select workers req =
     ok_or (min_by_key wr_running (filter (\<lambda>w. worker_fits w req) workers)) (NoEligibleWorker req)"

section \<open>Facts about placement\<close>

lemma worker_fits_with_reservations_iff:
  "worker_fits_with_reservations w req reserved \<longleftrightarrow>
     wr_state w = Ready \<and> has_complete_proof w
     \<and> rv_slots reserved < wc_max_concurrent (wr_capabilities w)
     \<and> (\<forall>os. rq_os req = Some os \<longrightarrow> eq_ignore_ascii_case os (wc_os (wr_capabilities w)))
     \<and> (\<forall>arch. rq_arch req = Some arch \<longrightarrow> arch_matches arch (wc_arch (wr_capabilities w)))
     \<and> (\<forall>(n, v) \<in> set (rq_toolchains req). map_of (wc_toolchains (wr_capabilities w)) n = Some v)
     \<and> rq_cpu req \<le> saturating_sub (wc_cpu (wr_capabilities w)) (rv_cpu reserved)
     \<and> rq_memory_mib req \<le> saturating_sub (wc_memory_mib (wr_capabilities w)) (rv_memory_mib reserved)
     \<and> rq_disk_gib req \<le> saturating_sub (wc_disk_gib (wr_capabilities w)) (rv_disk_gib reserved)
     \<and> rq_kind req \<in> set (wc_runtimes (wr_capabilities w))
     \<and> set (rq_capabilities req) \<subseteq> set (wc_capabilities (wr_capabilities w))"
  by (auto simp: worker_fits_with_reservations_def Let_def list_all_iff not_less not_le
      split: option.splits)

lemma min_by_key_None_iff [simp]: "min_by_key f xs = None \<longleftrightarrow> xs = []"
  by (cases xs) (auto split: option.splits)

lemma min_by_key_Some:
  "min_by_key f xs = Some m \<Longrightarrow>
     \<exists>i < length xs. xs ! i = m \<and> (\<forall>j < length xs. f m \<le> f (xs ! j)) \<and> (\<forall>j < i. f m < f (xs ! j))"
proof (induction xs arbitrary: m)
  case (Cons x xs)
  show ?case
  proof (cases "min_by_key f xs")
    case None
    with Cons.prems show ?thesis by auto
  next
    case (Some y)
    from Cons.IH [OF Some] obtain i where i: "i < length xs" "xs ! i = y"
      "\<forall>j < length xs. f y \<le> f (xs ! j)" "\<forall>j < i. f y < f (xs ! j)" by blast
    show ?thesis
    proof (cases "f x \<le> f y")
      case True
      with Cons.prems Some have "m = x" by simp
      then show ?thesis using True i(3)
        by (intro exI [of _ 0]) (auto simp: nth_Cons split: nat.split intro: order_trans)
    next
      case False
      with Cons.prems Some have "m = y" by simp
      then show ?thesis using False i
        by (intro exI [of _ "Suc i"]) (auto simp: nth_Cons less_Suc_eq_0_disj split: nat.split)
    qed
  qed
qed simp

lemma min_by_key_minimal:
  "min_by_key f xs = Some m \<Longrightarrow> m \<in> set xs \<and> (\<forall>x \<in> set xs. f m \<le> f x)"
  by (drule min_by_key_Some) (metis in_set_conv_nth)

text \<open>Placing a positive requirement on a worker that fits never exceeds its capacity.\<close>

lemma fits_resources:
  assumes "worker_fits_with_reservations w req reserved"
  shows "wr_state w = Ready"
    and "uint (rv_slots reserved) + 1 \<le> uint (wc_max_concurrent (wr_capabilities w))"
    and "0 < uint (rq_cpu req) \<Longrightarrow>
      uint (rv_cpu reserved) + uint (rq_cpu req) \<le> uint (wc_cpu (wr_capabilities w))"
    and "0 < uint (rq_memory_mib req) \<Longrightarrow>
      uint (rv_memory_mib reserved) + uint (rq_memory_mib req) \<le> uint (wc_memory_mib (wr_capabilities w))"
    and "0 < uint (rq_disk_gib req) \<Longrightarrow>
      uint (rv_disk_gib reserved) + uint (rq_disk_gib req) \<le> uint (wc_disk_gib (wr_capabilities w))"
proof -
  have pos: "0 < uint v \<Longrightarrow> 0 < v" for v :: "'a::len word" by (simp add: word_less_def)
  have need: "\<not> saturating_sub (wc_cpu (wr_capabilities w)) (rv_cpu reserved) < rq_cpu req"
    "\<not> saturating_sub (wc_memory_mib (wr_capabilities w)) (rv_memory_mib reserved) < rq_memory_mib req"
    "\<not> saturating_sub (wc_disk_gib (wr_capabilities w)) (rv_disk_gib reserved) < rq_disk_gib req"
    using assms by (simp_all add: worker_fits_with_reservations_iff not_less)
  show "wr_state w = Ready"
    and "uint (rv_slots reserved) + 1 \<le> uint (wc_max_concurrent (wr_capabilities w))"
    using assms by (simp_all add: worker_fits_with_reservations_iff word_less_def)
  show "0 < uint (rq_cpu req) \<Longrightarrow>
      uint (rv_cpu reserved) + uint (rq_cpu req) \<le> uint (wc_cpu (wr_capabilities w))"
    by (rule uint_add_le_of_saturating [OF need(1) pos])
  show "0 < uint (rq_memory_mib req) \<Longrightarrow>
      uint (rv_memory_mib reserved) + uint (rq_memory_mib req) \<le> uint (wc_memory_mib (wr_capabilities w))"
    by (rule uint_add_le_of_saturating [OF need(2) pos])
  show "0 < uint (rq_disk_gib req) \<Longrightarrow>
      uint (rv_disk_gib reserved) + uint (rq_disk_gib req) \<le> uint (wc_disk_gib (wr_capabilities w))"
    by (rule uint_add_le_of_saturating [OF need(3) pos])
qed

lemma fits_has_capacity:
  "worker_fits w req \<Longrightarrow> wc_health_errors (wr_capabilities w) = [] \<Longrightarrow> has_capacity w"
  by (simp add: worker_fits_def worker_fits_with_reservations_iff has_capacity_def)

section \<open>Properties\<close>

lemma filter_first:
  assumes "filter p xs ! i = x" and "i < length (filter p xs)"
    and "\<And>j. j < i \<Longrightarrow> q (filter p xs ! j)"
  shows "\<exists>k < length xs. xs ! k = x \<and> (\<forall>l < k. p (xs ! l) \<longrightarrow> q (xs ! l))"
  using assms
proof (induction xs arbitrary: i)
  case (Cons y ys)
  show ?case
  proof (cases "p y")
    case True
    show ?thesis
    proof (cases i)
      case 0
      with Cons.prems True show ?thesis by auto
    next
      case (Suc i')
      have "\<exists>k < length ys. ys ! k = x \<and> (\<forall>l < k. p (ys ! l) \<longrightarrow> q (ys ! l))"
        by (rule Cons.IH [of i'])
          (use Cons.prems(1,2) Cons.prems(3) [of "Suc j" for j] True Suc in auto)
      then obtain k where "k < length ys" "ys ! k = x" "\<forall>l < k. p (ys ! l) \<longrightarrow> q (ys ! l)" by blast
      moreover have "q y" using Cons.prems(3) [of 0] True Suc by simp
      ultimately show ?thesis
        by (intro exI [of _ "Suc k"]) (auto simp: less_Suc_eq_0_disj)
    qed
  next
    case False
    have "\<exists>k < length ys. ys ! k = x \<and> (\<forall>l < k. p (ys ! l) \<longrightarrow> q (ys ! l))"
      by (rule Cons.IH [of i]) (use Cons.prems False in auto)
    then obtain k where "k < length ys" "ys ! k = x" "\<forall>l < k. p (ys ! l) \<longrightarrow> q (ys ! l)" by blast
    with False show ?thesis by (intro exI [of _ "Suc k"]) (auto simp: less_Suc_eq_0_disj)
  qed
qed simp

text \<open>
  C36. \<open>select\<close> returns a worker that fits the requirement and runs no more executions than
  any other worker that fits; among equally loaded ones it is the first; and it reports
  that no worker is eligible exactly when none fits.
\<close>

theorem select_least_loaded:
  "(select workers req = Inr w \<longrightarrow>
      (\<exists>k < length workers. workers ! k = w \<and> worker_fits w req
         \<and> (\<forall>v \<in> set workers. worker_fits v req \<longrightarrow> wr_running w \<le> wr_running v)
         \<and> (\<forall>l < k. worker_fits (workers ! l) req \<longrightarrow> wr_running w < wr_running (workers ! l))))
   \<and> (select workers req = Inl (NoEligibleWorker req) \<longleftrightarrow> (\<forall>v \<in> set workers. \<not> worker_fits v req))"
proof (intro conjI impI)
  let ?fs = "filter (\<lambda>v. worker_fits v req) workers"
  assume "select workers req = Inr w"
  then have m: "min_by_key wr_running ?fs = Some w" by (simp add: select_def ok_or_Inr_iff)
  from min_by_key_Some [OF m] obtain i where i: "i < length ?fs" "?fs ! i = w"
    "\<forall>j < i. wr_running w < wr_running (?fs ! j)" by blast
  from filter_first [OF i(2) i(1), of "\<lambda>v. wr_running w < wr_running v"] i(3)
  obtain k where "k < length workers" "workers ! k = w"
    "\<forall>l < k. worker_fits (workers ! l) req \<longrightarrow> wr_running w < wr_running (workers ! l)" by blast
  with min_by_key_minimal [OF m] show "\<exists>k < length workers. workers ! k = w \<and> worker_fits w req
      \<and> (\<forall>v \<in> set workers. worker_fits v req \<longrightarrow> wr_running w \<le> wr_running v)
      \<and> (\<forall>l < k. worker_fits (workers ! l) req \<longrightarrow> wr_running w < wr_running (workers ! l))"
    by (intro exI [of _ k]) auto
next
  have "select workers req = Inl (NoEligibleWorker req)
      \<longleftrightarrow> filter (\<lambda>v. worker_fits v req) workers = []"
    using min_by_key_None_iff [of wr_running "filter (\<lambda>v. worker_fits v req) workers"]
    by (cases "min_by_key wr_running (filter (\<lambda>v. worker_fits v req) workers)")
      (simp_all add: select_def ok_or_def del: min_by_key_None_iff)
  then show "select workers req = Inl (NoEligibleWorker req) \<longleftrightarrow> (\<forall>v \<in> set workers. \<not> worker_fits v req)"
    by (simp add: filter_empty_conv)
qed

definition demo_capabilities :: worker_capabilities where
  "demo_capabilities =
     \<lparr>wc_os = ''linux'', wc_arch = ''x86_64'', wc_cpu = 8, wc_memory_mib = 16384,
      wc_disk_gib = 200, wc_runtimes = [Docker], wc_capabilities = [], wc_toolchains = [],
      wc_max_concurrent = 4, wc_health_errors = []\<rparr>"

definition demo_proof :: capability_proof where
  "demo_proof = \<lparr>cp_storage_backend = ''fs'', cp_storage_pool_identity = ''pool'',
     cp_docker_daemon_id = ''daemon'', cp_docker_verifier = ''probe'',
     cp_docker_method_version = ''v1''\<rparr>"

definition demo_worker :: "string \<Rightarrow> u32 \<Rightarrow> worker_registration" where
  "demo_worker i n =
     \<lparr>wr_id = i, wr_capabilities = demo_capabilities, wr_state = Ready, wr_running = n,
      wr_last_heartbeat = 0, wr_proof = Some demo_proof\<rparr>"

lemma demo_proof_complete: "proof_is_complete demo_proof"
  by (simp add: proof_is_complete_def demo_proof_def trim_printable byte_def)

lemma demo_worker_fits: "worker_fits (demo_worker i n) default_runtime \<longleftrightarrow> n < 4"
  by (simp add: worker_fits_def worker_fits_with_reservations_iff demo_worker_def
      has_complete_proof_def demo_proof_complete demo_capabilities_def default_runtime_def
      saturating_sub_def)

theorem select_least_loaded_witness:
  "select [demo_worker ''busy'' 3, demo_worker ''idle'' 1, demo_worker ''late'' 1] default_runtime
     = Inr (demo_worker ''idle'' 1)
   \<and> worker_fits (demo_worker ''idle'' 1) default_runtime"
proof -
  have sel: "select [demo_worker ''busy'' 3, demo_worker ''idle'' 1, demo_worker ''late'' 1]
      default_runtime = Inr (demo_worker ''idle'' 1)"
    by (simp add: select_def demo_worker_fits ok_or_def) (simp add: demo_worker_def word_le_nat_alt)
  with select_least_loaded [of "[demo_worker ''busy'' 3, demo_worker ''idle'' 1, demo_worker ''late'' 1]"
      default_runtime "demo_worker ''idle'' 1"]
  show ?thesis by blast
qed

end
