(* ===== verification/Execution.thy ===== *)
theory Execution
  imports Scheduler
begin

text \<open>
  The execution record and its guarded transition (\<open>orchestrator-core/src/execution.rs\<close>), the
  ownership labels of its resources (\<open>labels.rs\<close>), and the projection of cleanup handles into
  resource records (\<open>resource_record.rs\<close>).
\<close>

section \<open>Ownership labels\<close>

record ownership_labels =
  ol_execution_id :: execution_id
  ol_worker_id :: worker_id
  ol_repository :: string
  ol_issue :: "string option"

text \<open>\<open>BTreeMap::insert\<close> on the entries in key order.\<close>

fun btree_insert :: "string \<Rightarrow> 'v \<Rightarrow> (string \<times> 'v) list \<Rightarrow> (string \<times> 'v) list" where
  "btree_insert k v [] = [(k, v)]"
| "btree_insert k v ((k', v') # m) =
     (if k < k' then (k, v) # (k', v') # m
      else if k = k' then (k, v) # m
      else (k', v') # btree_insert k v m)"

definition labels_to_map :: "ownership_labels \<Rightarrow> btree" where
  "labels_to_map l =
     (let m = btree_insert ''autospec.repository'' (ol_repository l)
                (btree_insert ''autospec.worker_id'' (ol_worker_id l)
                  (btree_insert ''autospec.execution_id'' (ol_execution_id l)
                    (btree_insert ''autospec.managed'' ''true'' [])))
      in case ol_issue l of None \<Rightarrow> m | Some issue \<Rightarrow> btree_insert ''autospec.issue'' issue m)"

definition labels_selector :: "ownership_labels \<Rightarrow> string list" where
  "labels_selector l =
     [''autospec.managed'' @ ''=true'', ''autospec.execution_id'' @ ''='' @ ol_execution_id l]"

lemma map_of_btree_insert [simp]: "map_of (btree_insert k v m) = (map_of m)(k \<mapsto> v)"
  by (induction k v m rule: btree_insert.induct) auto

lemma sorted_btree_insert:
  "sorted_wrt (<) (map fst m) \<Longrightarrow> sorted_wrt (<) (map fst (btree_insert k v m))"
proof (induction k v m rule: btree_insert.induct)
  case (2 k v k' v' m)
  have "fst ` set (btree_insert k v m) = insert k (fst ` set m)"
    by (simp flip: dom_map_of_conv_image_fst)
  with 2 show ?case by (auto split: if_splits)
qed simp

section \<open>The execution record\<close>

record test_summary =
  ts_passed :: u32
  ts_failed :: u32
  ts_skipped :: u32

record execution_result =
  rs_execution_id :: execution_id
  rs_state :: execution_state
  rs_failure :: "failure_class option"
  rs_branch :: "string option"
  rs_base_sha :: "string option"
  rs_diff_artifact :: "string option"
  rs_artifacts :: "string list"
  rs_tests :: "test_summary option"

datatype control_action = Pause | Resume | ForkConversation

definition action_text :: "control_action \<Rightarrow> string" where
  "action_text a = (case a of
     Pause \<Rightarrow> ''pause'' | Resume \<Rightarrow> ''resume'' | ForkConversation \<Rightarrow> ''fork-conversation'')"

definition action_debug :: "control_action \<Rightarrow> string" where
  "action_debug a = (case a of
     Pause \<Rightarrow> ''Pause'' | Resume \<Rightarrow> ''Resume'' | ForkConversation \<Rightarrow> ''ForkConversation'')"

record execution =
  ex_id :: execution_id
  ex_role :: role
  ex_state :: execution_state
  ex_manifest :: execution_manifest
  ex_worker_id :: "worker_id option"
  ex_attempt_id :: "attempt_id option"
  ex_session_id :: "session_id option"
  ex_worktree_path :: "string option"
  ex_labels :: ownership_labels
  ex_created_at :: time
  ex_updated_at :: time
  ex_result :: "execution_result option"

text \<open>\<open>now\<close> is the value of \<open>Utc::now()\<close> at the call.\<close>

definition execution_transition ::
  "time \<Rightarrow> execution_state \<Rightarrow> ('a execution_scheme) \<Rightarrow> core_error + 'a execution_scheme" where
  "execution_transition now nxt e =
     (if \<not> can_transition_to (ex_state e) nxt
      then Inl (CoreIllegalTransition (ex_state e) nxt)
      else Inr (e\<lparr>ex_state := nxt, ex_updated_at := now\<rparr>))"

lemma execution_transition_Inr_iff:
  "execution_transition now nxt e = Inr e' \<longleftrightarrow>
     can_transition_to (ex_state e) nxt \<and> e' = e\<lparr>ex_state := nxt, ex_updated_at := now\<rparr>"
  by (auto simp: execution_transition_def)

section \<open>Projection of owned resources\<close>

text \<open>\<open>serde_json::Value\<close>, with objects as the list of their entries.\<close>

datatype json =
    JNull
  | JBool bool
  | JNumber int
  | JString string
  | JArray "json list"
  | JObject "(string \<times> json) list"

definition json_get :: "json \<Rightarrow> string \<Rightarrow> json option" where
  "json_get v k = (case v of JObject kvs \<Rightarrow> map_of kvs k | _ \<Rightarrow> None)"

definition json_as_str :: "json \<Rightarrow> string option" where
  "json_as_str v = (case v of JString s \<Rightarrow> Some s | _ \<Rightarrow> None)"

datatype resource_kind = Worktree | Process | BuildDir | Cache | Container | TempFile

datatype resource_state = ResourceActive | Releasable | Released | RetainedForDiagnostics

record resource_record =
  rd_schema :: string
  rd_protocol_version :: u32
  rd_idempotency_key :: "string option"
  rd_mission_id :: "string option"
  rd_sequence :: "u64 option"
  rd_required_extensions :: "string list option"
  rd_resource_id :: string
  rd_kind :: resource_kind
  rd_owner_mission_id :: "string option"
  rd_owner_execution_id :: execution_id
  rd_created_at :: string
  rd_lease_id :: "string option"
  rd_state :: resource_state
  rd_path :: "string option"
  rd_bytes :: "u64 option"
  rd_inodes :: "u64 option"

definition state_from_phase :: "string \<Rightarrow> resource_state" where
  "state_from_phase phase =
     (if starts_with ''ACTIVE:'' phase then ResourceActive
      else if phase = ''RESOLVED'' then Released
      else if phase = ''RETAIN_REQUESTED'' \<or> phase = ''RETAINED'' then RetainedForDiagnostics
      else if phase \<in> set [''CLEANUP_PENDING'', ''RUNTIME_STOPPED'', ''RUNTIME_DESTROYED'',
             ''GIT_RECOVERED_CLEANED'', ''STORAGE_RELEASED'', ''RESERVATION_RELEASED'']
      then Releasable
      else ResourceActive)"

text \<open>The lower-cased \<open>{:?}\<close> rendering of a resource kind.\<close>

definition kind_lower :: "resource_kind \<Rightarrow> string" where
  "kind_lower k = (case k of
     Worktree \<Rightarrow> ''worktree'' | Process \<Rightarrow> ''process'' | BuildDir \<Rightarrow> ''builddir''
   | Cache \<Rightarrow> ''cache'' | Container \<Rightarrow> ''container'' | TempFile \<Rightarrow> ''tempfile'')"

text \<open>\<open>rfc3339\<close> stands for chrono's \<open>to_rfc3339_opts(Secs, true)\<close>.\<close>

definition resource_record_of ::
  "(time \<Rightarrow> string) \<Rightarrow> execution_id \<Rightarrow> time \<Rightarrow> resource_state \<Rightarrow> resource_kind \<Rightarrow> string option
   \<Rightarrow> resource_record" where
  "resource_record_of rfc3339 execution created_at state kind path =
     \<lparr>rd_schema = ''autospec.protocol.resource-record.v1'', rd_protocol_version = 1,
      rd_idempotency_key = None, rd_mission_id = None, rd_sequence = None,
      rd_required_extensions = None,
      rd_resource_id = execution @ '':'' @ kind_lower kind, rd_kind = kind,
      rd_owner_mission_id = None, rd_owner_execution_id = execution,
      rd_created_at = rfc3339 created_at, rd_lease_id = None, rd_state = state,
      rd_path = path, rd_bytes = None, rd_inodes = None\<rparr>"

definition present_handle :: "json \<Rightarrow> string \<Rightarrow> json option" where
  "present_handle handles k = (case json_get handles k of
     Some v \<Rightarrow> if v = JNull then None else Some v | None \<Rightarrow> None)"

definition project_resources ::
  "(time \<Rightarrow> string) \<Rightarrow> execution_id \<Rightarrow> time \<Rightarrow> string \<Rightarrow> json \<Rightarrow> resource_record list" where
  "project_resources rfc3339 execution created_at phase handles =
     (let rec = resource_record_of rfc3339 execution created_at (state_from_phase phase) in
      (case present_handle handles ''worktree'' of
         None \<Rightarrow> []
       | Some worktree \<Rightarrow>
           [rec Worktree (Option.bind (json_get worktree ''path'') json_as_str)])
      @ (if present_handle handles ''runtime'' \<noteq> None then [rec Container None] else [])
      @ (if present_handle handles ''build_dir'' \<noteq> None then [rec BuildDir None] else [])
      @ (if present_handle handles ''cache'' \<noteq> None then [rec Cache None] else []))"

lemma kind_lower_inj: "kind_lower a = kind_lower b \<Longrightarrow> a = b"
  by (cases a; cases b) (simp_all add: kind_lower_def)

lemma project_kinds:
  "map rd_kind (project_resources fmt e t ph h) =
     (if present_handle h ''worktree'' \<noteq> None then [Worktree] else [])
     @ (if present_handle h ''runtime'' \<noteq> None then [Container] else [])
     @ (if present_handle h ''build_dir'' \<noteq> None then [BuildDir] else [])
     @ (if present_handle h ''cache'' \<noteq> None then [Cache] else [])"
  by (simp add: project_resources_def resource_record_of_def Let_def split: option.split)

lemma project_resource_ids:
  "map rd_resource_id (project_resources fmt e t ph h)
     = map (\<lambda>k. e @ '':'' @ kind_lower k) (map rd_kind (project_resources fmt e t ph h))"
  by (cases "present_handle h ''worktree''")
    (simp_all add: project_resources_def resource_record_of_def Let_def)

lemma project_common:
  "r \<in> set (project_resources fmt e t ph h) \<Longrightarrow>
     rd_owner_execution_id r = e \<and> rd_state r = state_from_phase ph
     \<and> rd_created_at r = fmt t \<and> rd_mission_id r = None \<and> rd_sequence r = None
     \<and> rd_lease_id r = None \<and> rd_idempotency_key r = None \<and> rd_owner_mission_id r = None"
  by (auto simp: project_resources_def resource_record_of_def Let_def split: option.splits if_splits)

section \<open>Properties\<close>

text \<open>
  The label selector of an execution, read as the runtime reads it (every entry must
  be one of the resource's \<open>key=value\<close> labels), matches the labels of exactly the resources
  owned by the same execution, whatever worker, repository and issue they carry.
\<close>

theorem selector_matches_own_execution:
  "(set (labels_selector l) \<subseteq> set (map (\<lambda>(k, v). k @ ''='' @ v) (labels_to_map l')))
     = (ol_execution_id l = ol_execution_id l')"
  by (cases "ol_issue l'") (auto simp: labels_selector_def labels_to_map_def Let_def)

text \<open>
  The projection of an authority's handles yields one record per present handle and no
  other: its kinds are exactly those of the handles, the resource identifiers are
  distinct, every record is owned by the execution, carries the state of its phase and
  invents no mission, lease, sequence or size.
\<close>

theorem project_resources_exact:
  "set (map rd_kind (project_resources fmt e t ph h)) =
     {k. (k = Worktree \<and> present_handle h ''worktree'' \<noteq> None)
       \<or> (k = Container \<and> present_handle h ''runtime'' \<noteq> None)
       \<or> (k = BuildDir \<and> present_handle h ''build_dir'' \<noteq> None)
       \<or> (k = Cache \<and> present_handle h ''cache'' \<noteq> None)}
   \<and> distinct (map rd_resource_id (project_resources fmt e t ph h))
   \<and> list_all (\<lambda>r. rd_owner_execution_id r = e \<and> rd_state r = state_from_phase ph
        \<and> rd_mission_id r = None \<and> rd_lease_id r = None \<and> rd_sequence r = None
        \<and> rd_bytes r = None \<and> rd_inodes r = None) (project_resources fmt e t ph h)"
proof (intro conjI)
  have "inj (\<lambda>k. e @ '':'' @ kind_lower k)" by (auto intro!: injI dest: kind_lower_inj)
  then have "inj_on (\<lambda>k. e @ '':'' @ kind_lower k) A" for A by (rule inj_on_subset) simp
  moreover have "distinct (map rd_kind (project_resources fmt e t ph h))"
    unfolding project_kinds by simp
  ultimately show "distinct (map rd_resource_id (project_resources fmt e t ph h))"
    unfolding project_resource_ids by (simp only: distinct_map)
qed (auto simp: project_kinds [unfolded list.set_map] list_all_iff project_resources_def
    resource_record_of_def Let_def split: option.splits if_splits)

end
