(* ===== verification/Store_Tables.thy ===== *)
theory Store_Tables
  imports Execution
begin

text \<open>
  The database of the controller: one list of rows per table of
  \<open>orchestrator-persistence/migrations\<close>, and the errors of the stores (\<open>error.rs\<close>).

  A transaction is a function of the database. It locks the rows it decides on
  (\<open>FOR UPDATE\<close>), so it is one atomic step; an error return rolls it back, except where
  the source commits before it returns the error. Enum columns hold the enum itself: the
  stores write them with \<open>enum_text\<close> and read them back with \<open>enum_from_text\<close>, which are
  inverse (\<^theory_text>\<open>interpretation exec_text\<close>). The phase of a cleanup authority is text in
  the source's own record and stays text here. Connection failures are not modelled; \<open>Db\<close>
  is the database's refusal of a statement (a violated constraint, an overflow).
\<close>

datatype store_error =
    Db
  | NotFound string
  | IllegalTransition execution_state execution_state
  | Conflict string
  | IdempotencyConflict string
  | DuplicateExecutionId string
  | SequenceConflict
  | CapacityExhausted worker_id
  | InvalidArtifactName string

text \<open>The two clocks: \<open>Utc::now()\<close> of the process and \<open>now()\<close> of the database.\<close>

record clock =
  ck_utc :: time
  ck_db :: time

record exec_row = execution +
  ex_version :: nat

record event_row =
  et_execution_id :: execution_id
  et_sequence :: nat
  et_at :: time
  et_state :: execution_state
  et_payload :: execution_event

record worker_row =
  wk_id :: worker_id
  wk_capabilities :: worker_capabilities
  wk_proof :: "capability_proof option"
  wk_state :: worker_state
  wk_running :: int
  wk_last_heartbeat :: time
  wk_updated_at :: time

record reservation_row =
  rn_execution_id :: execution_id
  rn_worker_id :: worker_id
  rn_attempt_id :: attempt_id
  rn_cpu :: int
  rn_memory_mib :: int
  rn_disk_gib :: int
  rn_created_at :: time

record attempt_row =
  at_attempt_id :: attempt_id
  at_execution_id :: execution_id
  at_worker_id :: worker_id
  at_state :: execution_state
  at_worktree_path :: "string option"
  at_session_id :: "session_id option"
  at_result :: "execution_result option"
  at_started_at :: time
  at_updated_at :: time
  at_finished_at :: "time option"

record cleanup_row =
  ca_execution_id :: execution_id
  ca_attempt_id :: attempt_id
  ca_worker_id :: worker_id
  ca_phase :: string
  ca_handles :: json
  ca_created_at :: time
  ca_updated_at :: time

record request_row =
  rt_idempotency_key :: string
  rt_scope :: string
  rt_manifest :: "execution_manifest option"
  rt_execution_id :: execution_id
  rt_created_at :: time

record cancellation_row =
  cn_execution_id :: execution_id
  cn_requested_at :: time
  cn_completed_at :: "time option"

datatype control_phase = Accepted | Applying | SideEffectApplied | ControlCompleted | Stale

record control_row =
  cr_request_id :: nat
  cr_execution_id :: execution_id
  cr_action :: control_action
  cr_idempotency_key :: string
  cr_accepted_worker_id :: worker_id
  cr_accepted_attempt_id :: attempt_id
  cr_source_session_id :: session_id
  cr_worktree_path :: string
  cr_accepted_version :: nat
  cr_accepted_state :: execution_state
  cr_target_session_id :: "session_id option"
  cr_side_effect_session_id :: "session_id option"
  cr_phase :: control_phase
  cr_stale_reason :: "string option"
  cr_requested_at :: time
  cr_completed_at :: "time option"

record db =
  executions :: "exec_row list"
  events :: "event_row list"
  workers :: "worker_row list"
  reservations :: "reservation_row list"
  attempts :: "attempt_row list"
  cleanups :: "cleanup_row list"
  requests :: "request_row list"
  cancellations :: "cancellation_row list"
  controls :: "control_row list"
  next_request_id :: nat

definition empty_db :: db where
  "empty_db = \<lparr>executions = [], events = [], workers = [], reservations = [], attempts = [],
     cleanups = [], requests = [], cancellations = [], controls = [], next_request_id = 1\<rparr>"

section \<open>Queries shared by the stores\<close>

abbreviation find_execution :: "db \<Rightarrow> execution_id \<Rightarrow> exec_row option" where
  "find_execution d i \<equiv> sql_lookup ex_id i (executions d)"

abbreviation find_worker :: "db \<Rightarrow> worker_id \<Rightarrow> worker_row option" where
  "find_worker d w \<equiv> sql_lookup wk_id w (workers d)"

abbreviation find_cleanup :: "db \<Rightarrow> execution_id \<Rightarrow> cleanup_row option" where
  "find_cleanup d i \<equiv> sql_lookup ca_execution_id i (cleanups d)"

definition decode_execution :: "exec_row \<Rightarrow> execution" where
  "decode_execution r = execution.truncate r"

definition cancellation_pending :: "db \<Rightarrow> execution_id \<Rightarrow> bool" where
  "cancellation_pending d i =
     sql_exists (\<lambda>r. cn_execution_id r = i \<and> cn_completed_at r = None) (cancellations d)"

text \<open>\<open>stale_controls_for_execution\<close>: every open control of the execution becomes stale.\<close>

definition stale_controls :: "time \<Rightarrow> execution_id \<Rightarrow> string \<Rightarrow> db \<Rightarrow> db" where
  "stale_controls dbnow i reason d =
     d\<lparr>controls := sql_update
         (\<lambda>c. cr_execution_id c = i \<and> cr_phase c \<in> set [Accepted, Applying, SideEffectApplied])
         (\<lambda>c. c\<lparr>cr_phase := Stale, cr_stale_reason := Some reason, cr_completed_at := Some dbnow\<rparr>)
         (controls d)\<rparr>"

definition cancelled_result :: "execution_id \<Rightarrow> execution_result" where
  "cancelled_result i =
     \<lparr>rs_execution_id = i, rs_state = Cancelled, rs_failure = Some CancelledByClient,
      rs_branch = None, rs_base_sha = None, rs_diff_artifact = None, rs_artifacts = [],
      rs_tests = None\<rparr>"

text \<open>The result of an attempt whose worker was lost.\<close>

definition lost_result :: "execution_id \<Rightarrow> execution_result" where
  "lost_result i =
     \<lparr>rs_execution_id = i, rs_state = Failed, rs_failure = Some WorkerLost,
      rs_branch = None, rs_base_sha = None, rs_diff_artifact = None, rs_artifacts = [],
      rs_tests = None\<rparr>"

lemma decode_execution_sel [simp]:
  "ex_id (decode_execution r) = ex_id r"
  "ex_role (decode_execution r) = ex_role r"
  "ex_state (decode_execution r) = ex_state r"
  "ex_manifest (decode_execution r) = ex_manifest r"
  "ex_worker_id (decode_execution r) = ex_worker_id r"
  "ex_attempt_id (decode_execution r) = ex_attempt_id r"
  "ex_session_id (decode_execution r) = ex_session_id r"
  "ex_worktree_path (decode_execution r) = ex_worktree_path r"
  "ex_labels (decode_execution r) = ex_labels r"
  "ex_created_at (decode_execution r) = ex_created_at r"
  "ex_updated_at (decode_execution r) = ex_updated_at r"
  "ex_result (decode_execution r) = ex_result r"
  by (simp_all add: decode_execution_def execution.truncate_def)

lemma stale_controls_frame [simp]:
  "executions (stale_controls t i m d) = executions d"
  "events (stale_controls t i m d) = events d"
  "workers (stale_controls t i m d) = workers d"
  "reservations (stale_controls t i m d) = reservations d"
  "attempts (stale_controls t i m d) = attempts d"
  "cleanups (stale_controls t i m d) = cleanups d"
  "requests (stale_controls t i m d) = requests d"
  "cancellations (stale_controls t i m d) = cancellations d"
  "next_request_id (stale_controls t i m d) = next_request_id d"
  by (simp_all add: stale_controls_def)

end
