(* ===== verification/Event_Log.thy ===== *)
theory Event_Log
  imports Store_Tables "HOL-Library.Sublist"
begin

text \<open>
  \<open>orchestrator-persistence/src/event_log.rs\<close>: the append-only history of an execution.
  A transaction is a function of the database that fails, leaving no new database, or
  returns its result and the database it commits (\<open>tx\<close>). The sequence column is a
  \<open>BIGINT\<close> with \<open>CHECK (sequence > 0)\<close>, so it is a \<open>nat\<close> below \<open>2 ^ 63\<close>; \<open>MAX(sequence) + 1\<close>
  beyond that range is the database's error.

  The contract of the trait \<open>EventLog\<close> towards its readers is the locale \<open>event_log\<close>:
  what a batch returns in terms of the history. \<open>pg_log\<close> is the model's instance of it.
\<close>

type_synonym 'a tx = "db \<Rightarrow> store_error + 'a \<times> db"

definition bigint_max :: nat where
  "bigint_max = 2 ^ 63 - 1"

definition events_of :: "execution_id \<Rightarrow> db \<Rightarrow> event_row list" where
  "events_of i d = filter (\<lambda>r. et_execution_id r = i) (events d)"

text \<open>\<open>COALESCE(MAX(sequence), 0)\<close>\<close>

definition latest_sequence :: "execution_id \<Rightarrow> db \<Rightarrow> nat" where
  "latest_sequence i d = foldr max (map et_sequence (events_of i d)) 0"

definition append_in_transaction :: "execution_event \<Rightarrow> nat tx" where
  "append_in_transaction event d =
     (let sequence = latest_sequence (ev_execution_id event) d + 1 in
      if bigint_max < sequence then Inl Db
      else
        let persisted = event\<lparr>ev_sequence := sequence\<rparr> in
        Inr (sequence,
             d\<lparr>events := events d @ [\<lparr>et_execution_id = ev_execution_id event,
                 et_sequence = sequence, et_at = ev_at event, et_state = ev_state event,
                 et_payload = persisted\<rparr>]\<rparr>))"

definition append_event :: "execution_event \<Rightarrow> nat tx" where
  "append_event event d =
     (case append_in_transaction event d of
        Inl SequenceConflict \<Rightarrow> append_in_transaction event d
      | result \<Rightarrow> result)"

definition decode_event :: "event_row \<Rightarrow> execution_event" where
  "decode_event r = (et_payload r)\<lparr>ev_sequence := et_sequence r\<rparr>"

definition since_batch ::
  "execution_id \<Rightarrow> nat \<Rightarrow> nat \<Rightarrow> db \<Rightarrow> store_error + execution_event list" where
  "since_batch i after limit d =
     (if bigint_max < after then Inl (Conflict ''event cursor exceeds PostgreSQL BIGINT'')
      else if bigint_max < limit then Inl (Conflict ''event batch limit exceeds BIGINT'')
      else Inr (map decode_event
             (take limit (sort_key et_sequence
                (filter (\<lambda>r. et_execution_id r = i \<and> after < et_sequence r) (events d))))))"

definition since :: "execution_id \<Rightarrow> nat \<Rightarrow> db \<Rightarrow> store_error + execution_event list" where
  "since i after d = since_batch i after bigint_max d"

text \<open>The default methods of the trait, over its method \<open>since\<close>.\<close>

definition default_since_batch ::
  "execution_id \<Rightarrow> nat \<Rightarrow> nat \<Rightarrow> db \<Rightarrow> store_error + execution_event list" where
  "default_since_batch i after limit d =
     and_then (since i after d) (\<lambda>events. Inr (take limit events))"

definition default_latest_sequence :: "execution_id \<Rightarrow> db \<Rightarrow> store_error + nat" where
  "default_latest_sequence i d =
     and_then (since i 0 d)
       (\<lambda>events. Inr (if events = [] then 0 else ev_sequence (last events)))"

section \<open>The gapless history\<close>

definition history :: "db \<Rightarrow> execution_id \<Rightarrow> execution_event list" where
  "history d i = map decode_event (events_of i d)"

text \<open>
  The invariant: the rows of an execution carry the sequences 1, 2, ... in the order they
  were appended, and each row's columns repeat its payload.
\<close>

definition event_row_ok :: "event_row \<Rightarrow> bool" where
  "event_row_ok r \<longleftrightarrow>
     et_execution_id r = ev_execution_id (et_payload r) \<and> et_sequence r = ev_sequence (et_payload r)
     \<and> et_at r = ev_at (et_payload r) \<and> et_state r = ev_state (et_payload r)
     \<and> et_sequence r \<le> bigint_max"

definition events_ok :: "db \<Rightarrow> bool" where
  "events_ok d \<longleftrightarrow>
     (\<forall>i. map et_sequence (events_of i d) = [1..<Suc (length (events_of i d))])
     \<and> (\<forall>r \<in> set (events d). event_row_ok r)"

lemma foldr_max_upt: "foldr max [a..<Suc n] 0 = (if a \<le> n then n else (0::nat))"
proof (induction "Suc n - a" arbitrary: a)
  case (Suc k)
  then have "a \<le> n" by simp
  then have "[a..<Suc n] = a # [Suc a..<Suc n]" by (simp add: upt_conv_Cons)
  with Suc show ?case by auto
qed simp

lemma events_ok_sequences:
  "events_ok d \<Longrightarrow> map et_sequence (events_of i d) = [1..<Suc (length (events_of i d))]"
  by (simp add: events_ok_def)

lemma length_history [simp]: "length (history d i) = length (events_of i d)"
  by (simp add: history_def)

lemma history_cong: "events d' = events d \<Longrightarrow> history d' i = history d i"
  by (simp add: history_def events_of_def)

lemma latest_sequence_length:
  "events_ok d \<Longrightarrow> latest_sequence i d = length (history d i)"
  unfolding latest_sequence_def
  by (subst events_ok_sequences, assumption, subst foldr_max_upt) (auto simp: not_less_eq_eq)

lemma events_ok_nth:
  assumes "events_ok d" and "k < length (events_of i d)"
  shows "et_sequence (events_of i d ! k) = Suc k"
proof -
  have "map et_sequence (events_of i d) ! k = [1..<Suc (length (events_of i d))] ! k"
    by (simp only: events_ok_sequences [OF assms(1)])
  with assms(2) show ?thesis by (simp del: upt_Suc)
qed

lemma history_sequence:
  assumes "events_ok d" and "k < length (history d i)"
  shows "ev_sequence (history d i ! k) = Suc k"
  using events_ok_nth [of d k i] assms by (simp add: history_def decode_event_def)

lemma history_payload:
  assumes "events_ok d" shows "history d i = map et_payload (events_of i d)"
proof -
  have "decode_event r = et_payload r" if "r \<in> set (events_of i d)" for r
    using assms that by (auto simp: events_ok_def event_row_ok_def events_of_def decode_event_def)
  then show ?thesis by (simp add: history_def)
qed

lemma events_ok_bound: "events_ok d \<Longrightarrow> length (history d i) \<le> bigint_max"
proof (cases "events_of i d = []")
  case False
  assume ok: "events_ok d"
  define k where "k = length (events_of i d) - 1"
  have k: "k < length (events_of i d)" using False by (simp add: k_def)
  then have "events_of i d ! k \<in> set (events d)"
    using nth_mem [OF k] by (simp add: events_of_def)
  then have "et_sequence (events_of i d ! k) \<le> bigint_max"
    using ok by (auto simp: events_ok_def event_row_ok_def)
  then show ?thesis using events_ok_nth [OF ok k] k by (simp add: k_def)
qed simp

lemma drop_filter_sequence:
  assumes "map et_sequence rs = [m..<m + length rs]"
  shows "filter (\<lambda>r. a < et_sequence r) rs = drop (Suc a - m) rs"
  using assms
proof (induction rs arbitrary: m)
  case (Cons r rs)
  have m: "et_sequence r = m" and rs: "map et_sequence rs = [Suc m..<Suc m + length rs]"
    using Cons.prems by (simp_all add: upt_conv_Cons del: upt_Suc)
  show ?case
  proof (cases "a < m")
    case True
    then have "\<forall>x \<in> set rs. a < et_sequence x"
      using rs by (metis (no_types, lifting) atLeastLessThan_iff image_eqI less_trans
          list.set_map set_upt less_eq_Suc_le less_le_trans)
    then show ?thesis using True m by simp
  next
    case False
    then show ?thesis using Cons.IH [OF rs] m by (simp add: Suc_diff_le)
  qed
qed simp

lemma since_batch_history:
  assumes "events_ok d" and "a \<le> bigint_max" and "l \<le> bigint_max"
  shows "since_batch i a l d = Inr (take l (drop a (history d i)))"
proof -
  let ?rs = "events_of i d"
  have seq: "map et_sequence ?rs = [1..<1 + length ?rs]"
    using events_ok_sequences [OF assms(1)] by simp
  have "filter (\<lambda>r. et_execution_id r = i \<and> a < et_sequence r) (events d)
      = filter (\<lambda>r. a < et_sequence r) ?rs"
    by (simp add: events_of_def conj_commute)
  also have "\<dots> = drop a ?rs" using drop_filter_sequence [OF seq] by simp
  finally have rows: "filter (\<lambda>r. et_execution_id r = i \<and> a < et_sequence r) (events d)
      = drop a ?rs" .
  have "sorted (map et_sequence (drop a ?rs))"
    unfolding drop_map [symmetric] seq by (simp add: drop_upt del: upt_Suc)
  then have "sort_key et_sequence (drop a ?rs) = drop a ?rs"
    by (rule sort_key_id_if_sorted)
  with rows assms show ?thesis
    by (simp add: since_batch_def history_def take_map drop_map)
qed

lemma since_batch_range: "bigint_max < a \<Longrightarrow> \<exists>e. since_batch i a l d = Inl e"
  by (simp add: since_batch_def)

section \<open>Appending\<close>

lemma append_event_eq: "append_event ev d = append_in_transaction ev d"
  by (auto simp: append_event_def split: sum.splits store_error.splits)

lemma append_in_transaction_Inr:
  assumes "append_in_transaction ev d = Inr (n, d')"
  shows "n = Suc (latest_sequence (ev_execution_id ev) d)" and "n \<le> bigint_max"
    and "d' = d\<lparr>events := events d @ [\<lparr>et_execution_id = ev_execution_id ev, et_sequence = n,
           et_at = ev_at ev, et_state = ev_state ev, et_payload = ev\<lparr>ev_sequence := n\<rparr>\<rparr>]\<rparr>"
  using assms by (auto simp: append_in_transaction_def Let_def split: if_splits)

lemma append_frame:
  assumes "append_in_transaction ev d = Inr (n, d')"
  shows "executions d' = executions d" "workers d' = workers d"
    "reservations d' = reservations d" "attempts d' = attempts d" "cleanups d' = cleanups d"
    "requests d' = requests d" "cancellations d' = cancellations d"
    "controls d' = controls d" "next_request_id d' = next_request_id d"
  using append_in_transaction_Inr(3) [OF assms] by simp_all

lemma append_history:
  assumes "append_in_transaction ev d = Inr (n, d')"
  shows "history d' i = history d i @ (if i = ev_execution_id ev then [ev\<lparr>ev_sequence := n\<rparr>] else [])"
  using append_in_transaction_Inr(3) [OF assms]
  by (simp add: history_def events_of_def decode_event_def)

lemma append_events_ok:
  assumes "append_in_transaction ev d = Inr (n, d')" and ok: "events_ok d"
  shows "events_ok d'"
  unfolding events_ok_def
proof (intro conjI allI ballI)
  note app = append_in_transaction_Inr [OF assms(1)]
  have n: "n = Suc (length (events_of (ev_execution_id ev) d))"
    using app(1) latest_sequence_length [OF ok] by simp
  show "map et_sequence (events_of i d') = [1..<Suc (length (events_of i d'))]" for i
    using n app(3) events_ok_sequences [OF ok, of i] by (simp add: events_of_def)
  show "event_row_ok r" if "r \<in> set (events d')" for r
    using that app(2,3) ok by (auto simp: events_ok_def event_row_ok_def)
qed

section \<open>The contract of the log\<close>

locale event_log =
  fixes batch :: "'d \<Rightarrow> execution_id \<Rightarrow> nat \<Rightarrow> nat \<Rightarrow> store_error + execution_event list"
    and log :: "'d \<Rightarrow> execution_id \<Rightarrow> execution_event list"
    and ok :: "'d \<Rightarrow> bool"
  assumes batch_log:
      "ok d \<Longrightarrow> a \<le> bigint_max \<Longrightarrow> l \<le> bigint_max \<Longrightarrow> batch d i a l = Inr (take l (drop a (log d i)))"
    and batch_range: "bigint_max < a \<Longrightarrow> \<exists>e. batch d i a l = Inl e"
    and log_sequence: "ok d \<Longrightarrow> k < length (log d i) \<Longrightarrow> ev_sequence (log d i ! k) = Suc k"
    and log_bound: "ok d \<Longrightarrow> length (log d i) \<le> bigint_max"

interpretation pg_log: event_log "\<lambda>d i a l. since_batch i a l d" history events_ok
  by unfold_locales
    (simp_all add: since_batch_history history_sequence events_ok_bound since_batch_range
      del: length_history)

section \<open>Properties\<close>

text \<open>
  C30. The database's own batch query and latest sequence agree with the trait's default
  methods, which read the whole history: on a gapless log both are the slice of the history
  behind the cursor, and its length.
\<close>

theorem overrides_agree_with_defaults:
  assumes "events_ok d" and "after \<le> bigint_max" and "limit \<le> bigint_max"
  shows "since_batch i after limit d = default_since_batch i after limit d
    \<and> since_batch i after limit d = Inr (take limit (drop after (history d i)))
    \<and> default_latest_sequence i d = Inr (latest_sequence i d)
    \<and> latest_sequence i d = length (history d i)"
proof -
  have all: "since i a d = Inr (drop a (history d i))" if "a \<le> bigint_max" for a
    using since_batch_history [OF assms(1) that order.refl, of i] events_ok_bound [OF assms(1), of i]
    by (simp add: since_def)
  have "default_latest_sequence i d = Inr (length (history d i))"
  proof (cases "history d i = []")
    case True
    then show ?thesis using all [of 0] by (simp add: default_latest_sequence_def del: length_history)
  next
    case False
    then have "ev_sequence (last (history d i)) = length (history d i)"
      using history_sequence [OF assms(1), of "length (history d i) - 1" i]
      by (simp add: last_conv_nth del: length_history)
    with all [of 0] False show ?thesis by (simp add: default_latest_sequence_def del: length_history)
  qed
  then show ?thesis
    using all [OF assms(2)] since_batch_history [OF assms]
    by (simp add: default_since_batch_def latest_sequence_length [OF assms(1)] del: length_history)
qed

definition two_events :: db where
  "two_events = empty_db\<lparr>events := map (\<lambda>n.
     let e = \<lparr>ev_execution_id = ''e1'', ev_attempt_id = None, ev_sequence = n, ev_at = 0,
              ev_state = Queued, ev_kind = ExecutionCreated\<rparr> in
     \<lparr>et_execution_id = ''e1'', et_sequence = n, et_at = 0, et_state = Queued, et_payload = e\<rparr>) [1, 2]\<rparr>"

theorem overrides_agree_with_defaults_witness:
  "since_batch ''e1'' 1 128 two_events = default_since_batch ''e1'' 1 128 two_events
   \<and> default_latest_sequence ''e1'' two_events = Inr (latest_sequence ''e1'' two_events)"
proof -
  have ok: "events_ok two_events"
    by (auto simp: events_ok_def two_events_def events_of_def event_row_ok_def bigint_max_def upt_rec)
  show ?thesis
    using overrides_agree_with_defaults [OF ok, of 1 128 "''e1''"] by (simp add: bigint_max_def)
qed

end
