(* ===== verification/Worker_Store.thy ===== *)
theory Worker_Store
  imports Event_Log Scheduler
begin

text \<open>
  \<open>orchestrator-persistence/src/workers.rs\<close>: the registry of workers. The order of
  \<open>ORDER BY id\<close> and \<open>id > $1\<close> is the collation of the database, which is not part of the
  program: it is the parameter \<open>coll\<close>, the sort key the database computes for a text.
\<close>

definition str_contains :: "string \<Rightarrow> string \<Rightarrow> bool" where
  "str_contains s needle \<longleftrightarrow> list_ex (starts_with needle) (map (\<lambda>n. drop n s) [0..<Suc (length s)])"

definition worker_validate :: "worker_registration \<Rightarrow> store_error + unit" where
  "worker_validate worker =
     (let c = wr_capabilities worker in
      if wc_cpu c = 0 \<or> wc_memory_mib c < 1024 \<or> wc_disk_gib c = 0
         \<or> wc_max_concurrent c = 0 \<or> 64 < wc_max_concurrent c
      then Inl (Conflict ''worker capabilities are outside accepted bounds'')
      else if list_ex (\<lambda>cap. let cap = to_ascii_lowercase cap in
             str_contains cap ''gpu'' \<or> str_contains cap ''vram'' \<or> str_contains cap ''model'')
           (wc_capabilities c)
      then Inl (Conflict ''inference capabilities do not belong in worker registration'')
      else if \<not> health_errors_are_sanitized c
      then Inl (Conflict ''worker capability health failures are not sanitized'')
      else if wr_state worker = Ready \<and> (\<not> has_complete_proof worker \<or> wc_health_errors c \<noteq> [])
      then Inl (Conflict ''Ready worker lacks a complete capability proof or reports capability health failures'')
      else Inr ())"

definition decode_worker :: "worker_row \<Rightarrow> store_error + worker_registration" where
  "decode_worker row =
     and_then (ok_or (u32_try_from (wk_running row)) (Conflict ''negative running execution count''))
       (\<lambda>running. Inr
          \<lparr>wr_id = wk_id row, wr_capabilities = wk_capabilities row, wr_state = wk_state row,
           wr_running = running, wr_last_heartbeat = wk_last_heartbeat row,
           wr_proof = wk_proof row\<rparr>)"

text \<open>The columns a registration and a heartbeat overwrite; the running count is not one.\<close>

definition refresh_row :: "time \<Rightarrow> worker_registration \<Rightarrow> worker_row \<Rightarrow> worker_row" where
  "refresh_row dbnow worker row =
     row\<lparr>wk_capabilities := wr_capabilities worker, wk_proof := wr_proof worker,
         wk_state := wr_state worker, wk_last_heartbeat := wr_last_heartbeat worker,
         wk_updated_at := dbnow\<rparr>"

definition register :: "time \<Rightarrow> worker_registration \<Rightarrow> unit tx" where
  "register dbnow worker d =
     and_then (worker_validate worker) (\<lambda>_.
       if sql_exists (\<lambda>r. wk_id r = wr_id worker) (workers d)
       then Inr ((), d\<lparr>workers :=
              sql_update (\<lambda>r. wk_id r = wr_id worker) (refresh_row dbnow worker) (workers d)\<rparr>)
       else Inr ((), d\<lparr>workers := workers d @
              [\<lparr>wk_id = wr_id worker, wk_capabilities = wr_capabilities worker,
                wk_proof = wr_proof worker, wk_state = wr_state worker, wk_running = 0,
                wk_last_heartbeat = wr_last_heartbeat worker, wk_updated_at = dbnow\<rparr>]\<rparr>))"

text \<open>The statement of a heartbeat commits before its row is decoded.\<close>

definition heartbeat :: "time \<Rightarrow> worker_registration \<Rightarrow> (store_error + worker_registration) tx" where
  "heartbeat dbnow worker d =
     and_then (worker_validate worker) (\<lambda>_.
       let d' = d\<lparr>workers :=
             sql_update (\<lambda>r. wk_id r = wr_id worker) (refresh_row dbnow worker) (workers d)\<rparr> in
       and_then (ok_or (find_worker d' (wr_id worker)) (NotFound (wr_id worker))) (\<lambda>row.
         Inr (decode_worker row, d')))"

definition get_worker :: "worker_id \<Rightarrow> db \<Rightarrow> store_error + worker_registration" where
  "get_worker i d = and_then (ok_or (find_worker d i) (NotFound i)) decode_worker"

definition list_workers ::
  "(string \<Rightarrow> string) \<Rightarrow> db \<Rightarrow> store_error + worker_registration list" where
  "list_workers coll d = try_map decode_worker (sort_key (\<lambda>r. coll (wk_id r)) (workers d))"

definition list_page ::
  "(string \<Rightarrow> string) \<Rightarrow> nat \<Rightarrow> string option \<Rightarrow> db \<Rightarrow> store_error + worker_registration list" where
  "list_page coll limit cursor d =
     (if \<not> (1 \<le> limit \<and> limit \<le> 100)
      then Inl (Conflict ''worker page limit must be between 1 and 100'')
      else try_map decode_worker
        (take limit (sort_key (\<lambda>r. coll (wk_id r))
           (filter (\<lambda>r. coll (case cursor of None \<Rightarrow> [] | Some c \<Rightarrow> c) < coll (wk_id r)) (workers d)))))"

definition mark_stale_before :: "time \<Rightarrow> time \<Rightarrow> worker_id list tx" where
  "mark_stale_before dbnow deadline d =
     (let p = (\<lambda>r. wk_state r \<in> set [Ready, Draining] \<and> wk_last_heartbeat r < deadline) in
      Inr (map wk_id (filter p (workers d)),
           d\<lparr>workers := sql_update p (\<lambda>r. r\<lparr>wk_state := Unreachable, wk_updated_at := dbnow\<rparr>)
                (workers d)\<rparr>))"

section \<open>The registry's invariant\<close>

text \<open>
  Every row passed \<open>validate\<close> when it was written, and a worker that is marked
  unreachable keeps its advertised bounds: a Ready row always has a complete proof and no
  health failure.
\<close>

definition capabilities_ok :: "worker_capabilities \<Rightarrow> bool" where
  "capabilities_ok c \<longleftrightarrow>
     0 < uint (wc_cpu c) \<and> 1024 \<le> uint (wc_memory_mib c) \<and> 0 < uint (wc_disk_gib c)
     \<and> 0 < uint (wc_max_concurrent c) \<and> uint (wc_max_concurrent c) \<le> 64
     \<and> health_errors_are_sanitized c"

definition worker_row_ok :: "worker_row \<Rightarrow> bool" where
  "worker_row_ok r \<longleftrightarrow>
     capabilities_ok (wk_capabilities r)
     \<and> (wk_state r = Ready \<longrightarrow>
          wc_health_errors (wk_capabilities r) = []
          \<and> (\<exists>p. wk_proof r = Some p \<and> proof_is_complete p))"

definition workers_ok :: "db \<Rightarrow> bool" where
  "workers_ok d \<longleftrightarrow> distinct (map wk_id (workers d)) \<and> (\<forall>r \<in> set (workers d). worker_row_ok r)"

lemma has_complete_proof_iff: "has_complete_proof w \<longleftrightarrow> (\<exists>p. wr_proof w = Some p \<and> proof_is_complete p)"
  by (simp add: has_complete_proof_def split: option.split)

lemma uint_pos_iff: "0 < uint w \<longleftrightarrow> w \<noteq> 0"
  by (simp add: word_neq_0_conv word_less_def)

lemma worker_validate_Inr:
  assumes "worker_validate w = Inr u"
  shows "capabilities_ok (wr_capabilities w)"
    and "wr_state w = Ready \<Longrightarrow> wc_health_errors (wr_capabilities w) = []
           \<and> (\<exists>p. wr_proof w = Some p \<and> proof_is_complete p)"
proof -
  let ?c = "wr_capabilities w"
  have b: "wc_cpu ?c \<noteq> 0" "1024 \<le> wc_memory_mib ?c" "wc_disk_gib ?c \<noteq> 0"
    "wc_max_concurrent ?c \<noteq> 0" "wc_max_concurrent ?c \<le> 64" "health_errors_are_sanitized ?c"
    using assms by (auto simp: worker_validate_def Let_def not_less split: if_splits)
  have "1024 \<le> uint (wc_memory_mib ?c)" "uint (wc_max_concurrent ?c) \<le> 64"
    using b(2,5) by (simp_all add: word_le_def)
  then show "capabilities_ok ?c" using b by (simp add: capabilities_ok_def uint_pos_iff)
  show "wr_state w = Ready \<Longrightarrow> wc_health_errors ?c = []
           \<and> (\<exists>p. wr_proof w = Some p \<and> proof_is_complete p)"
    using assms by (auto simp: worker_validate_def Let_def has_complete_proof_iff split: if_splits)
qed

lemma refresh_row_ok: "worker_validate w = Inr u \<Longrightarrow> worker_row_ok (refresh_row t w r)"
  using worker_validate_Inr [of w u] by (simp add: worker_row_ok_def refresh_row_def)

lemma wk_id_refresh [simp]: "wk_id (refresh_row t w r) = wk_id r"
  by (simp add: refresh_row_def)

lemma wk_running_refresh [simp]: "wk_running (refresh_row t w r) = wk_running r"
  by (simp add: refresh_row_def)

lemma register_workers_ok:
  assumes "register t w d = Inr (u, d')" and "workers_ok d"
  shows "workers_ok d'"
proof -
  obtain v where v: "worker_validate w = Inr v"
    using assms(1) by (auto simp: register_def and_then_Inr_iff)
  show ?thesis
  proof (cases "wr_id w \<in> wk_id ` set (workers d)")
    case True
    then have "sql_exists (\<lambda>r. wk_id r = wr_id w) (workers d)" by (auto simp: sql_exists_iff)
    with v assms refresh_row_ok [OF v] show ?thesis
      by (auto simp: register_def workers_ok_def set_sql_update map_key_update)
  next
    case False
    then have "\<not> sql_exists (\<lambda>r. wk_id r = wr_id w) (workers d)" by (force simp: sql_exists_iff)
    with False v worker_validate_Inr [OF v] assms show ?thesis
      by (auto simp: register_def workers_ok_def worker_row_ok_def)
  qed
qed

lemma heartbeat_workers_ok:
  assumes "heartbeat t w d = Inr (u, d')" and "workers_ok d"
  shows "workers_ok d'"
proof -
  obtain v where v: "worker_validate w = Inr v"
    using assms(1) by (auto simp: heartbeat_def and_then_Inr_iff)
  with assms refresh_row_ok [OF v] show ?thesis
    by (auto simp: heartbeat_def Let_def and_then_Inr_iff workers_ok_def set_sql_update
        map_key_update image_iff split: if_splits)
qed

lemma mark_stale_workers_ok:
  assumes "mark_stale_before t dl d = Inr (ids, d')" and "workers_ok d"
  shows "workers_ok d'"
  using assms
  by (auto simp: mark_stale_before_def Let_def workers_ok_def set_sql_update map_key_update
      worker_row_ok_def)

lemma decode_worker_Inr:
  assumes "decode_worker row = Inr w"
  shows "wr_id w = wk_id row" "wr_capabilities w = wk_capabilities row" "wr_state w = wk_state row"
    "uint (wr_running w) = wk_running row" "wr_proof w = wk_proof row"
    "wr_last_heartbeat w = wk_last_heartbeat row"
  using assms
  by (auto simp: decode_worker_def and_then_Inr_iff ok_or_Inr_iff dest: u32_try_from_SomeD)

text \<open>A worker read from the registry that fits a requirement passes \<open>has_capacity\<close>.\<close>

lemma stored_worker_has_capacity:
  assumes "workers_ok d" and "row \<in> set (workers d)" and "decode_worker row = Inr w"
    and "worker_fits w req"
  shows "has_capacity w"
proof -
  have "wk_state row = Ready"
    using assms(3,4) by (simp add: worker_fits_def worker_fits_with_reservations_iff decode_worker_Inr)
  with assms(1,2) have "wc_health_errors (wk_capabilities row) = []"
    by (auto simp: workers_ok_def worker_row_ok_def)
  with assms(3,4) show ?thesis by (simp add: fits_has_capacity decode_worker_Inr)
qed

section \<open>Paging\<close>

lemma try_map_take:
  "try_map f xs = Inr ys \<Longrightarrow> try_map f (take n xs) = Inr (take n ys)"
  by (auto simp: try_map_Inr_iff list_all2_takeI)

lemma try_map_drop:
  "try_map f xs = Inr ys \<Longrightarrow> try_map f (drop n xs) = Inr (drop n ys)"
  by (auto simp: try_map_Inr_iff list_all2_dropI)

lemma filter_greater_drop:
  fixes f :: "'a \<Rightarrow> 'k::linorder"
  assumes "sorted (map f xs)" and "distinct (map f xs)" and "n < length xs"
  shows "filter (\<lambda>x. f (xs ! n) < f x) xs = drop (Suc n) xs"
proof -
  have mono: "f (xs ! i) < f (xs ! j)" if "i < j" "j < length xs" for i j
    using that assms(1,2) sorted_nth_mono [of "map f xs" i j]
      nth_eq_iff_index_eq [of "map f xs" i j] by (simp add: less_le)
  have "\<not> f (xs ! n) < f x" if "x \<in> set (take (Suc n) xs)" for x
  proof -
    obtain i where i: "i < Suc n" "x = xs ! i"
      using \<open>x \<in> _\<close> by (auto simp: in_set_conv_nth)
    then show ?thesis using mono [of i n] assms(3) by (cases "i = n") auto
  qed
  then have "filter (\<lambda>x. f (xs ! n) < f x) (take (Suc n) xs) = []"
    by (simp add: filter_empty_conv)
  moreover have "filter (\<lambda>x. f (xs ! n) < f x) (drop (Suc n) xs) = drop (Suc n) xs"
    using mono assms(3) by (auto simp: filter_id_conv in_set_conv_nth)
  ultimately show ?thesis
    by (metis append_Nil append_take_drop_id filter_append)
qed

lemma sort_filter: "sort_key f (filter p xs) = filter p (sort_key f xs)"
  by (simp add: filter_sort)

section \<open>Properties\<close>


definition three_workers :: db where
  "three_workers = empty_db\<lparr>workers := map (\<lambda>i. \<lparr>wk_id = i, wk_capabilities = demo_capabilities,
     wk_proof = Some demo_proof, wk_state = Ready, wk_running = 0, wk_last_heartbeat = 0,
     wk_updated_at = 0\<rparr>) [''c'', ''a'', ''b'']\<rparr>"


end
