(* ===== verification/Cleanup_Store.thy ===== *)
theory Cleanup_Store
  imports Event_Log
begin

text \<open>
  \<open>orchestrator-persistence/src/cleanup.rs\<close>: the durable record of what an attempt
  allocated and how far its cleanup has come. The machine of dispositions instantiates
  \<open>ranked_machine\<close> and its text form \<open>text_codec\<close>.
\<close>

datatype cleanup_stage =
  StageReserved | StageStorage | StageWorktree | StageRuntime | StagePiStarted | StageRunning
  | StagePostPiBeforeEvent

datatype cleanup_disposition =
    Active cleanup_stage
  | RetainRequested
  | Retained
  | CleanupPending
  | RuntimeStopped
  | RuntimeDestroyed
  | GitRecoveredCleaned
  | StorageReleased
  | ReservationReleased
  | Resolved

definition disposition_can_transition_to :: "cleanup_disposition \<Rightarrow> cleanup_disposition \<Rightarrow> bool" where
  "disposition_can_transition_to s nxt \<longleftrightarrow>
     (s, nxt) \<in> set [
       (Active StageReserved, Active StageStorage),
       (Active StageStorage, Active StageWorktree),
       (Active StageWorktree, Active StageRuntime),
       (Active StageRuntime, Active StagePiStarted),
       (Active StagePiStarted, Active StageRunning),
       (Active StageRunning, Active StagePostPiBeforeEvent),
       (Active StagePostPiBeforeEvent, RetainRequested),
       (RetainRequested, Retained),
       (Retained, CleanupPending),
       (CleanupPending, RuntimeStopped),
       (RuntimeStopped, RuntimeDestroyed),
       (RuntimeDestroyed, GitRecoveredCleaned),
       (GitRecoveredCleaned, StorageReleased),
       (StorageReleased, ReservationReleased),
       (ReservationReleased, Resolved)]"

fun disposition_text :: "cleanup_disposition \<Rightarrow> string" where
  "disposition_text (Active StageReserved) = ''ACTIVE:RESERVED''"
| "disposition_text (Active StageStorage) = ''ACTIVE:STORAGE''"
| "disposition_text (Active StageWorktree) = ''ACTIVE:WORKTREE''"
| "disposition_text (Active StageRuntime) = ''ACTIVE:RUNTIME''"
| "disposition_text (Active StagePiStarted) = ''ACTIVE:PI_STARTED''"
| "disposition_text (Active StageRunning) = ''ACTIVE:RUNNING''"
| "disposition_text (Active StagePostPiBeforeEvent) = ''ACTIVE:POST_PI_BEFORE_EVENT''"
| "disposition_text RetainRequested = ''RETAIN_REQUESTED''"
| "disposition_text Retained = ''RETAINED''"
| "disposition_text CleanupPending = ''CLEANUP_PENDING''"
| "disposition_text RuntimeStopped = ''RUNTIME_STOPPED''"
| "disposition_text RuntimeDestroyed = ''RUNTIME_DESTROYED''"
| "disposition_text GitRecoveredCleaned = ''GIT_RECOVERED_CLEANED''"
| "disposition_text StorageReleased = ''STORAGE_RELEASED''"
| "disposition_text ReservationReleased = ''RESERVATION_RELEASED''"
| "disposition_text Resolved = ''RESOLVED''"

definition disposition_from_str :: "string \<Rightarrow> store_error + cleanup_disposition" where
  "disposition_from_str v =
     (if v \<in> set [''ACTIVE:RESERVED'', ''RESERVED''] then Inr (Active StageReserved)
      else if v \<in> set [''ACTIVE:STORAGE'', ''STORAGE_ALLOCATED''] then Inr (Active StageStorage)
      else if v \<in> set [''ACTIVE:WORKTREE'', ''WORKTREE_CREATED''] then Inr (Active StageWorktree)
      else if v \<in> set [''ACTIVE:RUNTIME'', ''RUNTIME_CREATED''] then Inr (Active StageRuntime)
      else if v \<in> set [''ACTIVE:PI_STARTED'', ''PI_STARTED''] then Inr (Active StagePiStarted)
      else if v \<in> set [''ACTIVE:RUNNING'', ''RUNNING''] then Inr (Active StageRunning)
      else if v = ''ACTIVE:POST_PI_BEFORE_EVENT'' then Inr (Active StagePostPiBeforeEvent)
      else if v \<in> set [''RETAIN_REQUESTED'', ''REVIEW_READY''] then Inr RetainRequested
      else if v = ''RETAINED'' then Inr Retained
      else if v = ''CLEANUP_PENDING'' then Inr CleanupPending
      else if v = ''RUNTIME_STOPPED'' then Inr RuntimeStopped
      else if v = ''RUNTIME_DESTROYED'' then Inr RuntimeDestroyed
      else if v = ''GIT_RECOVERED_CLEANED'' then Inr GitRecoveredCleaned
      else if v = ''STORAGE_RELEASED'' then Inr StorageReleased
      else if v = ''RESERVATION_RELEASED'' then Inr ReservationReleased
      else if v = ''RESOLVED'' then Inr Resolved
      else Inl (Conflict (''unknown cleanup disposition '' @ v)))"

section \<open>The store\<close>

text \<open>\<open>CleanupAuthority::disposition\<close>; the authority record is the table's row.\<close>

definition authority_disposition :: "cleanup_row \<Rightarrow> store_error + cleanup_disposition" where
  "authority_disposition c = disposition_from_str (ca_phase c)"

definition cleanup_begin ::
  "time \<Rightarrow> execution_id \<Rightarrow> attempt_id \<Rightarrow> worker_id \<Rightarrow> unit tx" where
  "cleanup_begin dbnow i attempt worker d =
     (case find_cleanup d i of
        None \<Rightarrow>
          Inr ((), d\<lparr>cleanups := cleanups d @
            [\<lparr>ca_execution_id = i, ca_attempt_id = attempt, ca_worker_id = worker,
              ca_phase = ''ACTIVE:RESERVED'', ca_handles = JObject [],
              ca_created_at = dbnow, ca_updated_at = dbnow\<rparr>]\<rparr>)
      | Some c \<Rightarrow>
          (if ca_attempt_id c = attempt \<and> ca_worker_id c = worker
           then Inr ((), d\<lparr>cleanups := sql_update (\<lambda>r. ca_execution_id r = i)
                  (\<lambda>r. r\<lparr>ca_updated_at := dbnow\<rparr>) (cleanups d)\<rparr>)
           else Inl (Conflict (''cleanup authority for '' @ i @ '' belongs to another attempt''))))"

definition cleanup_get :: "execution_id \<Rightarrow> db \<Rightarrow> store_error + cleanup_row" where
  "cleanup_get i d = ok_or (find_cleanup d i) (NotFound i)"

definition cleanup_transition ::
  "time \<Rightarrow> execution_id \<Rightarrow> cleanup_disposition \<Rightarrow> cleanup_disposition \<Rightarrow> json \<Rightarrow> unit tx" where
  "cleanup_transition dbnow i expected nxt handles d =
     (if expected \<noteq> nxt \<and> \<not> disposition_can_transition_to expected nxt
      then Inl (Conflict (''illegal cleanup transition '' @ disposition_text expected
             @ '' -> '' @ disposition_text nxt))
      else case find_cleanup d i of
        None \<Rightarrow> Inl Db
      | Some c \<Rightarrow>
          (let p = (\<lambda>r. ca_execution_id r = i
                 \<and> ca_phase r \<in> set [disposition_text expected, disposition_text nxt]) in
           if rows_affected p (cleanups d) = 1
           then Inr ((), d\<lparr>cleanups := sql_update p
                  (\<lambda>r. r\<lparr>ca_phase := disposition_text nxt, ca_handles := handles,
                         ca_updated_at := dbnow\<rparr>) (cleanups d)\<rparr>)
           else Inl (Conflict (''cleanup authority is '' @ ca_phase c @ '', expected ''
                  @ disposition_text expected))))"

text \<open>
  \<open>advance\<close> and \<open>checkpoint\<close> read the authority in one statement (the database \<open>seen\<close>) and then
  run the transition's transaction, on a database that may have moved on.
\<close>

definition cleanup_advance :: "time \<Rightarrow> db \<Rightarrow> execution_id \<Rightarrow> string \<Rightarrow> unit tx" where
  "cleanup_advance dbnow seen i phase d =
     and_then (cleanup_get i seen) (\<lambda>authority.
     and_then (authority_disposition authority) (\<lambda>expected.
     and_then (disposition_from_str phase) (\<lambda>nxt.
       cleanup_transition dbnow i expected nxt (ca_handles authority) d)))"

definition cleanup_checkpoint :: "time \<Rightarrow> db \<Rightarrow> execution_id \<Rightarrow> string \<Rightarrow> json \<Rightarrow> unit tx" where
  "cleanup_checkpoint dbnow seen i phase handles d =
     and_then (cleanup_get i seen) (\<lambda>authority.
     and_then (authority_disposition authority) (\<lambda>expected.
     and_then (disposition_from_str phase) (\<lambda>nxt.
       cleanup_transition dbnow i expected nxt handles d)))"

text \<open>The condition of the \<open>UPDATE\<close> of \<open>fence_for_cleanup\<close>, with its two joins.\<close>

definition fence_allowed :: "db \<Rightarrow> cleanup_row \<Rightarrow> bool" where
  "fence_allowed d c \<longleftrightarrow>
     list_ex (\<lambda>e. ex_id e = ca_execution_id c \<and>
       list_ex (\<lambda>a. at_attempt_id a = ca_attempt_id c \<and> at_execution_id a = ca_execution_id c
         \<and> (at_finished_at a \<noteq> None
            \<or> ex_state e \<in> set [ReviewReady, Completed, Failed, Cancelled]
            \<or> cancellation_pending d (ca_execution_id c))) (attempts d)) (executions d)
     \<and> ca_phase c \<notin> set [''RUNTIME_STOPPED'', ''RUNTIME_DESTROYED'', ''GIT_RECOVERED_CLEANED'',
          ''STORAGE_RELEASED'', ''RESERVATION_RELEASED'', ''RESOLVED'']"

definition fence_for_cleanup :: "time \<Rightarrow> execution_id \<Rightarrow> json \<Rightarrow> unit tx" where
  "fence_for_cleanup dbnow i handles d =
     (if find_cleanup d i = None then Inl Db
      else
        let p = (\<lambda>c. ca_execution_id c = i \<and> fence_allowed d c) in
        if rows_affected p (cleanups d) = 1
        then Inr ((), d\<lparr>cleanups := sql_update p
               (\<lambda>r. r\<lparr>ca_phase := ''CLEANUP_PENDING'', ca_handles := handles,
                      ca_updated_at := dbnow\<rparr>) (cleanups d)\<rparr>)
        else Inl (Conflict (''cleanup authority '' @ i @ '' is not fenced or terminal'')))"

definition cleanup_resolve :: "time \<Rightarrow> execution_id \<Rightarrow> unit tx" where
  "cleanup_resolve dbnow i d =
     (if find_cleanup d i = None then Inl Db
      else
        let p = (\<lambda>c. ca_execution_id c = i
               \<and> ca_phase c \<in> set [''RESERVATION_RELEASED'', ''RESOLVED'']) in
        if rows_affected p (cleanups d) = 1
        then Inr ((), d\<lparr>cleanups := sql_update p
               (\<lambda>r. r\<lparr>ca_phase := ''RESOLVED'', ca_updated_at := dbnow\<rparr>) (cleanups d)\<rparr>)
        else Inl (Conflict (''cleanup authority '' @ i @ '' is not reservation-released'')))"

definition cleanup_list_for_worker ::
  "(string \<Rightarrow> string) \<Rightarrow> worker_id \<Rightarrow> db \<Rightarrow> cleanup_row list" where
  "cleanup_list_for_worker coll worker d =
     sort_key ca_updated_at (sort_key (\<lambda>c. coll (ca_execution_id c))
       (filter (\<lambda>c. ca_worker_id c = worker \<and> ca_phase c \<noteq> ''RESOLVED'') (cleanups d)))"

record cleanup_health_snapshot =
  hs_unresolved :: nat
  hs_cleanup_pending :: nat
  hs_retained :: nat
  hs_oldest_unresolved_at :: "time option"

definition health_snapshot :: "db \<Rightarrow> cleanup_health_snapshot" where
  "health_snapshot d =
     (let open = filter (\<lambda>c. ca_phase c \<noteq> ''RESOLVED'') (cleanups d) in
      \<lparr>hs_unresolved = length open,
       hs_cleanup_pending = rows_affected (\<lambda>c. ca_phase c = ''CLEANUP_PENDING'') (cleanups d),
       hs_retained = rows_affected (\<lambda>c. ca_phase c = ''RETAINED'') (cleanups d),
       hs_oldest_unresolved_at =
         (if open = [] then None else Some (Min (set (map ca_updated_at open))))\<rparr>)"

section \<open>The machine of dispositions\<close>

fun disposition_rank :: "cleanup_disposition \<Rightarrow> nat" where
  "disposition_rank (Active st) = (case st of StageReserved \<Rightarrow> 0 | StageStorage \<Rightarrow> 1 | StageWorktree \<Rightarrow> 2
     | StageRuntime \<Rightarrow> 3 | StagePiStarted \<Rightarrow> 4 | StageRunning \<Rightarrow> 5 | StagePostPiBeforeEvent \<Rightarrow> 6)"
| "disposition_rank RetainRequested = 7"
| "disposition_rank Retained = 8"
| "disposition_rank CleanupPending = 9"
| "disposition_rank RuntimeStopped = 10"
| "disposition_rank RuntimeDestroyed = 11"
| "disposition_rank GitRecoveredCleaned = 12"
| "disposition_rank StorageReleased = 13"
| "disposition_rank ReservationReleased = 14"
| "disposition_rank Resolved = 15"

definition disposition_dec :: "string \<Rightarrow> cleanup_disposition option" where
  "disposition_dec v = (case disposition_from_str v of Inl _ \<Rightarrow> None | Inr s \<Rightarrow> Some s)"

lemma disposition_from_str_text [simp]: "disposition_from_str (disposition_text s) = Inr s"
proof (cases s)
  case (Active st)
  then show ?thesis by (cases st) (simp_all add: disposition_from_str_def)
qed (simp_all add: disposition_from_str_def)

interpretation cleanup_text: text_codec disposition_text disposition_dec
  by unfold_locales (simp add: disposition_dec_def)

lemma disposition_can_rank:
  "disposition_can_transition_to s t \<Longrightarrow> disposition_rank t = Suc (disposition_rank s)"
  by (auto simp: disposition_can_transition_to_def)

lemma disposition_rank_le: "disposition_rank s \<le> 15"
proof (cases s)
  case (Active st)
  then show ?thesis by (cases st) simp_all
qed simp_all

interpretation cleanup_machine: ranked_machine
  disposition_can_transition_to "\<lambda>s. s = Resolved" disposition_rank
  by unfold_locales (auto simp: disposition_can_transition_to_def)

lemma disposition_continues: "s \<noteq> Resolved \<Longrightarrow> \<exists>t. disposition_can_transition_to s t"
proof (cases s)
  case (Active st)
  then show ?thesis by (cases st) (auto simp: disposition_can_transition_to_def)
qed (auto simp: disposition_can_transition_to_def)

section \<open>Progress of the stored authorities\<close>

definition phase_rank :: "string \<Rightarrow> nat" where
  "phase_rank v = (case disposition_from_str v of Inl _ \<Rightarrow> 0 | Inr s \<Rightarrow> disposition_rank s)"

text \<open>The table's primary key and the \<open>CHECK\<close> on its phase column.\<close>

definition cleanups_ok :: "db \<Rightarrow> bool" where
  "cleanups_ok d \<longleftrightarrow> distinct (map ca_execution_id (cleanups d))
     \<and> (\<forall>c \<in> set (cleanups d). \<exists>s. ca_phase c = disposition_text s)"

text \<open>
  \<open>c'\<close> is a later version of the authority \<open>c\<close>: it has the same owner and its phase is at
  least as far.
\<close>

definition authority_le :: "cleanup_row \<Rightarrow> cleanup_row \<Rightarrow> bool" where
  "authority_le c c' \<longleftrightarrow>
     ca_execution_id c' = ca_execution_id c \<and> ca_attempt_id c' = ca_attempt_id c
     \<and> ca_worker_id c' = ca_worker_id c \<and> ca_created_at c' = ca_created_at c
     \<and> phase_rank (ca_phase c) \<le> phase_rank (ca_phase c')"

definition cleanups_le :: "db \<Rightarrow> db \<Rightarrow> bool" where
  "cleanups_le d d' \<longleftrightarrow>
     (\<forall>i c. find_cleanup d i = Some c \<longrightarrow> (\<exists>c'. find_cleanup d' i = Some c' \<and> authority_le c c'))"

lemma authority_le_refl [simp]: "authority_le c c"
  by (simp add: authority_le_def)

lemma authority_le_trans: "authority_le a b \<Longrightarrow> authority_le b c \<Longrightarrow> authority_le a c"
  by (auto simp: authority_le_def)

lemma cleanups_le_refl [simp]: "cleanups_le d d"
  by (simp add: cleanups_le_def)

lemma cleanups_le_same: "cleanups d' = cleanups d \<Longrightarrow> cleanups_le d d'"
  by (simp add: cleanups_le_def)

lemma cleanups_le_trans: "cleanups_le a b \<Longrightarrow> cleanups_le b c \<Longrightarrow> cleanups_le a c"
  unfolding cleanups_le_def by (meson authority_le_trans)

lemma phase_rank_text [simp]: "phase_rank (disposition_text s) = disposition_rank s"
  by (simp add: phase_rank_def)

lemma text_constants:
  "''ACTIVE:RESERVED'' = disposition_text (Active StageReserved)"
  "''CLEANUP_PENDING'' = disposition_text CleanupPending"
  "''RETAIN_REQUESTED'' = disposition_text RetainRequested"
  "''RETAINED'' = disposition_text Retained"
  "''RUNTIME_STOPPED'' = disposition_text RuntimeStopped"
  "''RUNTIME_DESTROYED'' = disposition_text RuntimeDestroyed"
  "''GIT_RECOVERED_CLEANED'' = disposition_text GitRecoveredCleaned"
  "''STORAGE_RELEASED'' = disposition_text StorageReleased"
  "''RESERVATION_RELEASED'' = disposition_text ReservationReleased"
  "''RESOLVED'' = disposition_text Resolved"
  by simp_all

text \<open>
  An \<open>UPDATE\<close> that keeps the owner columns and moves the phase of the rows it hits forward
  keeps the table's constraints and is progress.
\<close>

lemma cleanups_update:
  assumes "cleanups d' = sql_update p f (cleanups d)"
    and "\<And>c. ca_execution_id (f c) = ca_execution_id c"
  shows "find_cleanup d' i = map_option (\<lambda>c. if p c then f c else c) (find_cleanup d i)"
    and "\<lbrakk>\<And>c. c \<in> set (cleanups d) \<Longrightarrow> p c \<Longrightarrow> authority_le c (f c)\<rbrakk> \<Longrightarrow> cleanups_le d d'"
    and "\<lbrakk>cleanups_ok d; \<And>c. c \<in> set (cleanups d) \<Longrightarrow> p c \<Longrightarrow> \<exists>s. ca_phase (f c) = disposition_text s\<rbrakk>
           \<Longrightarrow> cleanups_ok d'"
proof -
  show look: "find_cleanup d' i = map_option (\<lambda>c. if p c then f c else c) (find_cleanup d i)" for i
    by (simp add: assms sql_lookup_update)
  show "cleanups_le d d'" if "\<And>c. c \<in> set (cleanups d) \<Longrightarrow> p c \<Longrightarrow> authority_le c (f c)"
    using that by (auto simp: cleanups_le_def look dest: sql_lookup_SomeD)
  show "cleanups_ok d'"
    if "cleanups_ok d" "\<And>c. c \<in> set (cleanups d) \<Longrightarrow> p c \<Longrightarrow> \<exists>s. ca_phase (f c) = disposition_text s"
    using that by (auto simp: cleanups_ok_def assms map_key_update set_sql_update)
qed

lemma cleanup_transition_Inr:
  assumes "cleanup_transition t i s s' h d = Inr (u, d')"
  shows "s = s' \<or> disposition_can_transition_to s s'"
    and "d' = d\<lparr>cleanups := sql_update (\<lambda>r. ca_execution_id r = i
             \<and> ca_phase r \<in> {disposition_text s, disposition_text s'})
           (\<lambda>r. r\<lparr>ca_phase := disposition_text s', ca_handles := h, ca_updated_at := t\<rparr>) (cleanups d)\<rparr>"
    and "\<exists>c. find_cleanup d i = Some c"
    and "\<exists>c \<in> set (cleanups d). ca_execution_id c = i
           \<and> ca_phase c \<in> {disposition_text s, disposition_text s'}"
  using assms
  by (auto simp: cleanup_transition_def Let_def split: if_splits option.splits
      dest!: rows_affected_1D [unfolded One_nat_def])

lemma cleanup_transition_progress:
  assumes "cleanup_transition t i s s' h d = Inr (u, d')"
  shows "cleanups_le d d'" and "cleanups_ok d \<Longrightarrow> cleanups_ok d'"
proof -
  note tr = cleanup_transition_Inr [OF assms]
  have rank: "disposition_rank s \<le> disposition_rank s'"
    using tr(1) disposition_can_rank [of s s'] by auto
  have up: "cleanups d' = sql_update (\<lambda>r. ca_execution_id r = i
             \<and> ca_phase r \<in> {disposition_text s, disposition_text s'})
           (\<lambda>r. r\<lparr>ca_phase := disposition_text s', ca_handles := h, ca_updated_at := t\<rparr>) (cleanups d)"
    using tr(2) by simp
  show "cleanups_le d d'"
    by (rule cleanups_update(2) [OF up]) (use rank in \<open>auto simp: authority_le_def\<close>)
  show "cleanups_ok d \<Longrightarrow> cleanups_ok d'"
    by (rule cleanups_update(3) [OF up]) auto
qed

lemma reserved_text: "\<exists>s. ''ACTIVE:RESERVED'' = disposition_text s"
  by (rule exI [of _ "Active StageReserved"]) simp

lemma cleanup_begin_progress:
  assumes "cleanup_begin t i a w d = Inr (u, d')"
  shows "cleanups_le d d'" and "cleanups_ok d \<Longrightarrow> cleanups_ok d'"
proof -
  have "cleanups_le d d' \<and> (cleanups_ok d \<longrightarrow> cleanups_ok d')"
  proof (cases "find_cleanup d i")
    case None
    then have "i \<notin> ca_execution_id ` set (cleanups d)" by (simp add: sql_lookup_None_iff)
    with None assms show ?thesis
      by (auto simp: cleanup_begin_def cleanups_le_def cleanups_ok_def sql_lookup_append
          reserved_text)
  next
    case (Some c)
    with assms have up: "cleanups d' =
        sql_update (\<lambda>r. ca_execution_id r = i) (\<lambda>r. r\<lparr>ca_updated_at := t\<rparr>) (cleanups d)"
      by (auto simp: cleanup_begin_def split: if_splits)
    have "cleanups_le d d'"
      by (rule cleanups_update(2) [OF up]) (auto simp: authority_le_def)
    moreover have "cleanups_ok d \<Longrightarrow> cleanups_ok d'"
      by (rule cleanups_update(3) [OF up]) (auto simp: cleanups_ok_def)
    ultimately show ?thesis by blast
  qed
  then show "cleanups_le d d'" and "cleanups_ok d \<Longrightarrow> cleanups_ok d'" by auto
qed

lemma fence_allowed_rank:
  assumes "fence_allowed d c" and "ca_phase c = disposition_text s"
  shows "disposition_rank s \<le> 9"
proof (cases s)
  case (Active st)
  then show ?thesis by (cases st) simp_all
qed (use assms in \<open>simp_all add: fence_allowed_def\<close>)

lemma fence_for_cleanup_progress:
  assumes "fence_for_cleanup t i h d = Inr (u, d')" and ok: "cleanups_ok d"
  shows "cleanups_le d d'" and "cleanups_ok d'"
proof -
  have up: "cleanups d' = sql_update (\<lambda>c. ca_execution_id c = i \<and> fence_allowed d c)
      (\<lambda>r. r\<lparr>ca_phase := ''CLEANUP_PENDING'', ca_handles := h, ca_updated_at := t\<rparr>) (cleanups d)"
    using assms(1) by (auto simp: fence_for_cleanup_def Let_def split: if_splits)
  have "authority_le c (c\<lparr>ca_phase := ''CLEANUP_PENDING'', ca_handles := h, ca_updated_at := t\<rparr>)"
    if c: "c \<in> set (cleanups d)" "ca_execution_id c = i \<and> fence_allowed d c" for c
  proof -
    obtain s where "ca_phase c = disposition_text s" using ok c(1) by (auto simp: cleanups_ok_def)
    with fence_allowed_rank [of d c s] c(2) show ?thesis
      by (simp add: authority_le_def text_constants del: disposition_text.simps)
  qed
  then show "cleanups_le d d'" by (intro cleanups_update(2) [OF up]) auto
  show "cleanups_ok d'"
    by (rule cleanups_update(3) [OF up _ ok]) (auto intro: exI [of _ CleanupPending])
qed

lemma cleanup_resolve_progress:
  assumes "cleanup_resolve t i d = Inr (u, d')"
  shows "cleanups_le d d'" and "cleanups_ok d \<Longrightarrow> cleanups_ok d'"
proof -
  have up: "cleanups d' = sql_update (\<lambda>c. ca_execution_id c = i
        \<and> ca_phase c \<in> {''RESERVATION_RELEASED'', ''RESOLVED''})
      (\<lambda>r. r\<lparr>ca_phase := ''RESOLVED'', ca_updated_at := t\<rparr>) (cleanups d)"
    using assms by (auto simp: cleanup_resolve_def Let_def split: if_splits)
  show "cleanups_le d d'"
    by (rule cleanups_update(2) [OF up])
      (auto simp: authority_le_def text_constants simp del: disposition_text.simps)
  show "cleanups_ok d \<Longrightarrow> cleanups_ok d'"
    by (rule cleanups_update(3) [OF up]) (auto intro: exI [of _ Resolved])
qed

lemma cleanup_checkpoint_transition:
  assumes "cleanup_checkpoint t seen i v h d = Inr (u, d')"
  shows "\<exists>s s'. cleanup_transition t i s s' h d = Inr (u, d')"
  using assms by (auto simp: cleanup_checkpoint_def and_then_Inr_iff)

lemma cleanup_advance_transition:
  assumes "cleanup_advance t seen i v d = Inr (u, d')"
  shows "\<exists>s s' h. cleanup_transition t i s s' h d = Inr (u, d')"
  using assms by (auto simp: cleanup_advance_def and_then_Inr_iff)

text \<open>The texts that decode, as a table.\<close>

definition disposition_table :: "(string \<times> cleanup_disposition) list" where
  "disposition_table =
     [(''ACTIVE:RESERVED'', Active StageReserved), (''RESERVED'', Active StageReserved),
      (''ACTIVE:STORAGE'', Active StageStorage), (''STORAGE_ALLOCATED'', Active StageStorage),
      (''ACTIVE:WORKTREE'', Active StageWorktree), (''WORKTREE_CREATED'', Active StageWorktree),
      (''ACTIVE:RUNTIME'', Active StageRuntime), (''RUNTIME_CREATED'', Active StageRuntime),
      (''ACTIVE:PI_STARTED'', Active StagePiStarted), (''PI_STARTED'', Active StagePiStarted),
      (''ACTIVE:RUNNING'', Active StageRunning), (''RUNNING'', Active StageRunning),
      (''ACTIVE:POST_PI_BEFORE_EVENT'', Active StagePostPiBeforeEvent),
      (''RETAIN_REQUESTED'', RetainRequested), (''REVIEW_READY'', RetainRequested),
      (''RETAINED'', Retained), (''CLEANUP_PENDING'', CleanupPending),
      (''RUNTIME_STOPPED'', RuntimeStopped), (''RUNTIME_DESTROYED'', RuntimeDestroyed),
      (''GIT_RECOVERED_CLEANED'', GitRecoveredCleaned), (''STORAGE_RELEASED'', StorageReleased),
      (''RESERVATION_RELEASED'', ReservationReleased), (''RESOLVED'', Resolved)]"

lemma disposition_from_str_known: "(v, s) \<in> set disposition_table \<Longrightarrow> disposition_from_str v = Inr s"
  unfolding disposition_table_def set_simps
  by (elim insertE emptyE) (simp_all add: disposition_from_str_def)

lemma disposition_from_str_unknown:
  assumes "v \<notin> fst ` set disposition_table"
  shows "disposition_from_str v = Inl (Conflict (''unknown cleanup disposition '' @ v))"
proof -
  have "v \<notin> set (map fst disposition_table)" using assms by simp
  then show ?thesis
    unfolding disposition_table_def disposition_from_str_def list.map fst_conv set_simps insert_iff
      empty_iff de_Morgan_disj
    by (elim conjE) simp
qed

lemma disposition_from_str_Inr: "disposition_from_str v = Inr s \<Longrightarrow> (v, s) \<in> set disposition_table"
proof (cases "v \<in> fst ` set disposition_table")
  case True
  then obtain s' where s': "(v, s') \<in> set disposition_table" by auto
  assume "disposition_from_str v = Inr s"
  with disposition_from_str_known [OF s'] s' show ?thesis by simp
qed (simp add: disposition_from_str_unknown)

section \<open>Properties\<close>

lemma resolves: "disposition_can_transition_to\<^sup>*\<^sup>* s Resolved"
proof (induction "15 - disposition_rank s" arbitrary: s)
  case 0
  with disposition_rank_le [of s] have "disposition_rank s = 15" by simp
  then have "s = Resolved"
    by (cases s) (auto split: cleanup_stage.splits)
  then show ?case by simp
next
  case (Suc n)
  then have "s \<noteq> Resolved" by auto
  then obtain t where t: "disposition_can_transition_to s t"
    using disposition_continues by blast
  with disposition_can_rank [OF t] Suc have "disposition_can_transition_to\<^sup>*\<^sup>* t Resolved" by simp
  with t show ?case by (rule converse_rtranclp_into_rtranclp)
qed

text \<open>
  C28. The machine of cleanup dispositions ends: no path has more than fifteen steps, every
  disposition can reach the resolved one, and only that one has no successor.
\<close>

theorem cleanup_machine_ends:
  "((disposition_can_transition_to ^^ n) s t \<longrightarrow> n \<le> 15)
   \<and> disposition_can_transition_to\<^sup>*\<^sup>* s Resolved
   \<and> ((\<nexists>u. disposition_can_transition_to s u) \<longleftrightarrow> s = Resolved)"
proof (intro conjI impI)
  assume "(disposition_can_transition_to ^^ n) s t"
  then show "n \<le> 15" using cleanup_machine.steps_bound disposition_rank_le [of t] by fastforce
next
  show "disposition_can_transition_to\<^sup>*\<^sup>* s Resolved" by (rule resolves)
  show "(\<nexists>u. disposition_can_transition_to s u) \<longleftrightarrow> s = Resolved"
    using disposition_continues cleanup_machine.terminal_stuck by blast
qed

theorem cleanup_machine_ends_witness:
  "(disposition_can_transition_to ^^ 1) ReservationReleased Resolved \<and> (1::nat) \<le> 15"
proof -
  have "(disposition_can_transition_to ^^ 1) ReservationReleased Resolved"
    by (simp add: disposition_can_transition_to_def eq_OO)
  with cleanup_machine_ends [of 1 ReservationReleased Resolved] show ?thesis by blast
qed

text \<open>
  C29. The phase column round trips: every disposition is read back from the text it is
  written as, and a text that decodes is that text or one of the seven older spellings.
\<close>

theorem disposition_text_round_trip:
  "disposition_from_str (disposition_text s) = Inr s
   \<and> (disposition_from_str v = Inr s \<longrightarrow>
        v = disposition_text s
        \<or> v \<in> set [''RESERVED'', ''STORAGE_ALLOCATED'', ''WORKTREE_CREATED'', ''RUNTIME_CREATED'',
              ''PI_STARTED'', ''RUNNING'', ''REVIEW_READY''])"
proof (intro conjI impI disposition_from_str_text)
  assume "disposition_from_str v = Inr s"
  then have "(v, s) \<in> set disposition_table" by (rule disposition_from_str_Inr)
  then show "v = disposition_text s
        \<or> v \<in> set [''RESERVED'', ''STORAGE_ALLOCATED'', ''WORKTREE_CREATED'', ''RUNTIME_CREATED'',
              ''PI_STARTED'', ''RUNNING'', ''REVIEW_READY'']"
    unfolding disposition_table_def set_simps by (elim insertE emptyE) simp_all
qed

theorem disposition_text_round_trip_witness:
  "disposition_from_str ''REVIEW_READY'' = Inr RetainRequested
   \<and> disposition_from_str ''RETAIN_REQUESTED'' = Inr RetainRequested"
  using disposition_text_round_trip [of RetainRequested "''REVIEW_READY''"]
  by (simp add: disposition_from_str_def)

end
