(* ===== verification/Store_Invariants.thy ===== *)
theory Store_Invariants
  imports Worker_Store Cleanup_Store
begin

text \<open>
  What the transactions of the stores keep, in five independent groups: the event log, the
  cleanup authorities, the capacity accounting (workers and reservations), the links
  between executions, attempts and reservations, and the life of an execution row. Each
  group speaks of a few tables only, so an operation that leaves them alone keeps it by
  the group's \<open>_same\<close> rule.
\<close>

named_theorems same_rules \<open>a step relation holds when its tables are unchanged\<close>

section \<open>The event log\<close>

definition log_step :: "db \<Rightarrow> db \<Rightarrow> bool" where
  "log_step d d' \<longleftrightarrow> (events_ok d \<longrightarrow> events_ok d') \<and> (\<forall>i. prefix (history d i) (history d' i))"

lemma log_step_same [same_rules]: "events d' = events d \<Longrightarrow> log_step d d'"
  by (simp add: log_step_def events_ok_def history_def events_of_def)

lemma log_step_eq: "log_step d d1 \<Longrightarrow> events d' = events d1 \<Longrightarrow> log_step d d'"
  using log_step_same [of d' d1] by (auto simp: log_step_def intro: prefix_order.trans)

lemma log_step_append:
  assumes "append_in_transaction ev d1 = Inr (n, d')" and "events d1 = events d"
  shows "log_step d d'"
proof -
  have same: "events_of i d1 = events_of i d" for i using assms(2) by (simp add: events_of_def)
  have "events_ok d1 = events_ok d" using assms(2) by (simp only: events_ok_def same)
  moreover have "prefix (history d i) (history d' i)" for i
    unfolding append_history [OF assms(1)] by (simp add: history_def same)
  ultimately show ?thesis using append_events_ok [OF assms(1)] by (simp add: log_step_def)
qed

section \<open>Cleanup authorities\<close>

definition cleanup_step :: "db \<Rightarrow> db \<Rightarrow> bool" where
  "cleanup_step d d' \<longleftrightarrow> (cleanups_ok d \<longrightarrow> cleanups_ok d' \<and> cleanups_le d d')"

lemma cleanup_step_same [same_rules]: "cleanups d' = cleanups d \<Longrightarrow> cleanup_step d d'"
  by (simp add: cleanup_step_def cleanups_ok_def cleanups_le_def)

lemma cleanup_step_trans: "cleanup_step a b \<Longrightarrow> cleanup_step b c \<Longrightarrow> cleanup_step a c"
  by (auto simp: cleanup_step_def intro: cleanups_le_trans)

text \<open>An \<open>UPDATE\<close> that sets the phase to a later one and keeps the owner columns.\<close>

lemma cleanup_step_phase:
  assumes "cleanups d' = sql_update p (\<lambda>c. c\<lparr>ca_phase := disposition_text s, ca_updated_at := t\<rparr>) (cleanups d)"
    and "\<And>c x. c \<in> set (cleanups d) \<Longrightarrow> p c \<Longrightarrow> ca_phase c = disposition_text x
           \<Longrightarrow> disposition_rank x \<le> disposition_rank s"
  shows "cleanup_step d d'"
  unfolding cleanup_step_def
proof
  assume ok: "cleanups_ok d"
  have "authority_le c (c\<lparr>ca_phase := disposition_text s, ca_updated_at := t\<rparr>)"
    if c: "c \<in> set (cleanups d)" "p c" for c
  proof -
    obtain x where "ca_phase c = disposition_text x" using ok c(1) by (auto simp: cleanups_ok_def)
    with assms(2) [OF c] show ?thesis by (simp add: authority_le_def)
  qed
  then have "cleanups_le d d'" by (intro cleanups_update(2) [OF assms(1)]) auto
  moreover have "cleanups_ok d'" by (rule cleanups_update(3) [OF assms(1) _ ok]) auto
  ultimately show "cleanups_ok d' \<and> cleanups_le d d'" by simp
qed

section \<open>Capacity\<close>

definition reserved_count :: "worker_id \<Rightarrow> reservation_row list \<Rightarrow> int" where
  "reserved_count w rs = int (length (filter (\<lambda>r. rn_worker_id r = w) rs))"

definition capacity_ok :: "db \<Rightarrow> bool" where
  "capacity_ok d \<longleftrightarrow>
     workers_ok d \<and> distinct (map rn_execution_id (reservations d))
     \<and> (\<forall>r \<in> set (reservations d). rn_worker_id r \<in> wk_id ` set (workers d)
          \<and> 0 < rn_cpu r \<and> 0 < rn_memory_mib r \<and> 0 \<le> rn_disk_gib r)
     \<and> (\<forall>w \<in> set (workers d). wk_running w = reserved_count (wk_id w) (reservations d))"

lemma capacity_same:
  "workers d' = workers d \<Longrightarrow> reservations d' = reservations d \<Longrightarrow> capacity_ok d \<Longrightarrow> capacity_ok d'"
  by (simp add: capacity_ok_def workers_ok_def)

lemma reserved_count_nonneg [simp]: "0 \<le> reserved_count w rs"
  by (simp add: reserved_count_def)

lemma delete_found:
  assumes "distinct (map key rs)" and "find p rs = Some r" and "\<And>s. p s \<Longrightarrow> key s = k"
  shows "filter p rs = [r]"
  using assms
proof (induction rs)
  case (Cons s rs)
  show ?case
  proof (cases "p s")
    case True
    have "filter p rs = []"
      using Cons.prems(1) Cons.prems(3) True by (fastforce simp: filter_empty_conv)
    with True Cons.prems(2) show ?thesis by simp
  qed (use Cons in auto)
qed simp

lemma reserved_count_split:
  "reserved_count w rs = reserved_count w (filter p rs) + reserved_count w (sql_delete p rs)"
  by (induction rs) (auto simp: reserved_count_def sql_delete_def)

lemma reserved_count_delete:
  assumes "distinct (map rn_execution_id rs)" and "find p rs = Some r"
    and "\<And>s. p s \<Longrightarrow> rn_execution_id s = i"
  shows "reserved_count w (sql_delete p rs) = reserved_count w rs - (if rn_worker_id r = w then 1 else 0)"
proof -
  have one: "filter p rs = [r]" by (rule delete_found [OF assms])
  show ?thesis
    using reserved_count_split [of w rs p] unfolding one by (auto simp: reserved_count_def)
qed

lemma delete_absent: "find p rs = None \<Longrightarrow> sql_delete p rs = rs"
  by (auto simp: find_None_iff sql_delete_def filter_id_conv)

text \<open>Removing the reservation of an execution frees exactly one slot of its worker.\<close>

lemma capacity_release:
  assumes ok: "capacity_ok d" and r: "find p (reservations d) = Some r"
    and p: "\<And>s. p s \<Longrightarrow> rn_execution_id s = i"
    and res: "reservations d' = sql_delete p (reservations d)"
    and wk: "workers d' = sql_update (\<lambda>w. wk_id w = rn_worker_id r)
               (\<lambda>w. w\<lparr>wk_running := max (wk_running w - 1) 0, wk_updated_at := t\<rparr>) (workers d)"
  shows "capacity_ok d'"
proof -
  have d: "distinct (map rn_execution_id (reservations d))" using ok by (simp add: capacity_ok_def)
  note del = reserved_count_delete [OF d r p]
  have pos: "0 < reserved_count (rn_worker_id r) (reservations d)"
    using find_SomeD [OF r] by (auto simp: reserved_count_def filter_empty_conv)
  have run: "wk_running w = reserved_count (wk_id w) (reservations d')" if w: "w \<in> set (workers d')" for w
  proof -
    obtain v where v: "v \<in> set (workers d)" and w': "w = (if wk_id v = rn_worker_id r
        then v\<lparr>wk_running := max (wk_running v - 1) 0, wk_updated_at := t\<rparr> else v)"
      using w by (auto simp: wk set_sql_update)
    have "wk_running v = reserved_count (wk_id v) (reservations d)"
      using ok v by (simp add: capacity_ok_def)
    with pos w' show ?thesis by (simp add: res del)
  qed
  have ids: "map wk_id (workers d') = map wk_id (workers d)" by (simp add: wk map_key_update)
  then have img: "wk_id ` set (workers d') = wk_id ` set (workers d)" by (metis list.set_map)
  show ?thesis unfolding capacity_ok_def
  proof (intro conjI)
    show "workers_ok d'"
      using ok ids by (auto simp: capacity_ok_def workers_ok_def wk set_sql_update worker_row_ok_def)
    show "distinct (map rn_execution_id (reservations d'))"
      using d by (simp add: res distinct_delete)
    show "\<forall>r \<in> set (reservations d'). rn_worker_id r \<in> wk_id ` set (workers d')
          \<and> 0 < rn_cpu r \<and> 0 < rn_memory_mib r \<and> 0 \<le> rn_disk_gib r"
      using ok unfolding img by (simp add: capacity_ok_def res)
    show "\<forall>w \<in> set (workers d'). wk_running w = reserved_count (wk_id w) (reservations d')"
      using run by blast
  qed
qed

section \<open>Links between executions, attempts and reservations\<close>

definition current_attempt :: "db \<Rightarrow> execution_id \<Rightarrow> attempt_id option" where
  "current_attempt d i = Option.bind (find_execution d i) ex_attempt_id"

definition unassigned :: "'a execution_scheme \<Rightarrow> bool" where
  "unassigned e \<longleftrightarrow> ex_worker_id e = None \<and> ex_attempt_id e = None"

definition links_ok :: "db \<Rightarrow> bool" where
  "links_ok d \<longleftrightarrow>
     distinct (map ex_id (executions d)) \<and> distinct (map at_attempt_id (attempts d))
     \<and> (\<forall>r \<in> set (reservations d). current_attempt d (rn_execution_id r) = Some (rn_attempt_id r))
     \<and> (\<forall>a \<in> set (attempts d). at_finished_at a = None \<longrightarrow>
          current_attempt d (at_execution_id a) = Some (at_attempt_id a))
     \<and> (\<forall>e \<in> set (executions d). ex_state e = Queued \<longrightarrow> unassigned e)"

lemma links_same:
  "executions d' = executions d \<Longrightarrow> attempts d' = attempts d \<Longrightarrow> reservations d' = reservations d
     \<Longrightarrow> links_ok d \<Longrightarrow> links_ok d'"
  by (simp add: links_ok_def current_attempt_def)

lemma links_distinct: "links_ok d \<Longrightarrow> distinct (map ex_id (executions d))"
  by (simp add: links_ok_def)

lemma unique_row:
  assumes "links_ok d" and "find_execution d i = Some row" and "r \<in> set (executions d)" and "ex_id r = i"
  shows "r = row"
  using sql_lookup_in_set [OF links_distinct [OF assms(1)] assms(3)] assms(2,4) by simp

lemma unique_attempt:
  assumes "links_ok d" and "a \<in> set (attempts d)" "b \<in> set (attempts d)"
    and "at_attempt_id a = at_attempt_id b"
  shows "a = b"
proof -
  have "distinct (map at_attempt_id (attempts d))" using assms(1) by (simp add: links_ok_def)
  from sql_lookup_in_set [OF this assms(2)] sql_lookup_in_set [OF this assms(3)]
  show ?thesis unfolding assms(4) by simp
qed

lemma queued_unassigned:
  "links_ok d \<Longrightarrow> find_execution d i = Some row \<Longrightarrow> ex_state row = Queued \<Longrightarrow> unassigned row"
  using sql_lookup_SomeD [of ex_id i "executions d" row] by (simp add: links_ok_def)

text \<open>
  Updating executions keeps the links when every updated row keeps its attempt and a row
  put back into the queue is unassigned; reservations may only go away, and an attempt may
  only be finished or stay as it was.
\<close>

lemma links_update:
  assumes ok: "links_ok d"
    and ex: "executions d' = sql_update p f (executions d)"
    and id: "\<And>r. ex_id (f r) = ex_id r"
    and att: "\<And>r. r \<in> set (executions d) \<Longrightarrow> p r \<Longrightarrow> ex_attempt_id (f r) = ex_attempt_id r"
    and que: "\<And>r. r \<in> set (executions d) \<Longrightarrow> p r \<Longrightarrow> ex_state (f r) = Queued \<Longrightarrow> unassigned (f r)"
    and res: "set (reservations d') \<subseteq> set (reservations d)"
    and at: "attempts d' = sql_update q g (attempts d)"
    and gid: "\<And>a. at_attempt_id (g a) = at_attempt_id a \<and> at_execution_id (g a) = at_execution_id a"
    and gfin: "\<And>a. a \<in> set (attempts d) \<Longrightarrow> q a \<Longrightarrow> at_finished_at (g a) = None
        \<Longrightarrow> at_finished_at a = None"
  shows "links_ok d'"
proof -
  have cur: "current_attempt d' i = current_attempt d i" for i
  proof (cases "find_execution d i")
    case (Some r)
    with att [of r] sql_lookup_SomeD [OF Some] show ?thesis
      by (simp add: current_attempt_def ex sql_lookup_update id)
  qed (simp add: current_attempt_def ex sql_lookup_update id)
  show ?thesis unfolding links_ok_def
  proof (intro conjI ballI impI)
    show "distinct (map ex_id (executions d'))" using ok by (simp add: links_ok_def ex map_key_update id)
    show "distinct (map at_attempt_id (attempts d'))" using ok by (simp add: links_ok_def at map_key_update gid)
    show "current_attempt d' (rn_execution_id r) = Some (rn_attempt_id r)" if "r \<in> set (reservations d')" for r
      using that res ok by (auto simp: links_ok_def cur)
    show "current_attempt d' (at_execution_id a) = Some (at_attempt_id a)"
      if a: "a \<in> set (attempts d')" "at_finished_at a = None" for a
    proof -
      obtain b where b: "b \<in> set (attempts d)" "a = (if q b then g b else b)"
        using a(1) by (auto simp: at set_sql_update)
      show ?thesis
      proof (cases "q b")
        case True
        then have "at_finished_at b = None" using gfin [of b] b a(2) by simp
        with True show ?thesis using ok b gid [of b] by (simp add: links_ok_def cur)
      next
        case False
        then show ?thesis using ok b a(2) by (auto simp: links_ok_def cur)
      qed
    qed
    show "unassigned e" if "e \<in> set (executions d')" "ex_state e = Queued" for e
      using that que ok by (auto simp: ex set_sql_update links_ok_def split: if_splits)
  qed
qed

section \<open>The life of an execution row\<close>

text \<open>
  One transaction changes the state of an execution by a legal transition, or puts the
  execution of a lost worker back into the queue when it is resumable.
\<close>

definition state_change_ok :: "exec_row \<Rightarrow> exec_row \<Rightarrow> bool" where
  "state_change_ok r r' \<longleftrightarrow>
     ex_state r' = ex_state r \<or> can_transition_to (ex_state r) (ex_state r')
     \<or> (ex_state r' = Queued \<and> mf_persistence (ex_manifest r) = Resumable
        \<and> \<not> is_terminal (ex_state r) \<and> ex_state r \<noteq> ReviewReady)"

definition row_step :: "exec_row \<Rightarrow> exec_row \<Rightarrow> bool" where
  "row_step r r' \<longleftrightarrow> r' = r \<or>
     (ex_id r' = ex_id r \<and> ex_role r' = ex_role r \<and> ex_manifest r' = ex_manifest r
      \<and> ex_created_at r' = ex_created_at r \<and> ex_version r' = Suc (ex_version r)
      \<and> state_change_ok r r')"

definition executions_step :: "db \<Rightarrow> db \<Rightarrow> bool" where
  "executions_step d d' \<longleftrightarrow>
     (\<forall>i r. find_execution d i = Some r \<longrightarrow> (\<exists>r'. find_execution d' i = Some r' \<and> row_step r r'))"

lemma executions_step_same [same_rules]: "executions d' = executions d \<Longrightarrow> executions_step d d'"
  by (simp add: executions_step_def row_step_def)

lemma executions_step_append:
  "executions d' = executions d @ [r] \<Longrightarrow> executions_step d d'"
  by (simp add: executions_step_def sql_lookup_append row_step_def)

lemma executions_step_update:
  assumes "executions d' = sql_update p f (executions d)"
    and "\<And>r. ex_id (f r) = ex_id r"
    and "\<And>r. r \<in> set (executions d) \<Longrightarrow> p r \<Longrightarrow> row_step r (f r)"
  shows "executions_step d d'"
  using assms(3) by (auto simp: executions_step_def assms(1) sql_lookup_update assms(2) row_step_def
      dest!: sql_lookup_SomeD)

section \<open>All groups together\<close>

definition store_ok :: "db \<Rightarrow> bool" where
  "store_ok d \<longleftrightarrow> events_ok d \<and> cleanups_ok d \<and> capacity_ok d \<and> links_ok d"

definition good_step :: "db \<Rightarrow> db \<Rightarrow> bool" where
  "good_step d d' \<longleftrightarrow>
     log_step d d' \<and> cleanup_step d d' \<and> capacity_ok d' \<and> links_ok d' \<and> executions_step d d'"

lemma good_step_ok: "store_ok d \<Longrightarrow> good_step d d' \<Longrightarrow> store_ok d'"
  by (simp add: store_ok_def good_step_def log_step_def cleanup_step_def)

lemma good_stepI:
  assumes "store_ok d" and "log_step d d'" and "cleanup_step d d'"
    and "capacity_ok d \<Longrightarrow> capacity_ok d'" and "links_ok d \<Longrightarrow> links_ok d'" and "executions_step d d'"
  shows "good_step d d'"
  using assms by (simp add: good_step_def store_ok_def)

lemma store_ok_empty: "store_ok empty_db"
  by (simp add: store_ok_def empty_db_def events_ok_def events_of_def cleanups_ok_def capacity_ok_def
      workers_ok_def links_ok_def)

text \<open>
  A transaction that updates one execution, and perhaps its attempts, without touching
  reservations and workers.
\<close>

lemma good_update_attempts:
  assumes ok: "store_ok d" and row: "find_execution d i = Some row"
    and ex: "executions d' = sql_update p f (executions d)"
    and p: "\<And>r. p r \<Longrightarrow> ex_id r = i" and id: "\<And>r. ex_id (f r) = ex_id r"
    and step: "row_step row (f row)" and att: "ex_attempt_id (f row) = ex_attempt_id row"
    and que: "ex_state (f row) = Queued \<Longrightarrow> unassigned (f row)"
    and at: "attempts d' = sql_update q g (attempts d)"
    and gid: "\<And>a. at_attempt_id (g a) = at_attempt_id a \<and> at_execution_id (g a) = at_execution_id a"
    and gfin: "\<And>a. a \<in> set (attempts d) \<Longrightarrow> q a \<Longrightarrow> at_finished_at (g a) = None
        \<Longrightarrow> at_finished_at a = None"
    and same: "reservations d' = reservations d" "workers d' = workers d"
    and log: "log_step d d'" and cl: "cleanup_step d d'"
  shows "good_step d d'"
proof (rule good_stepI [OF ok log cl])
  have links: "links_ok d" using ok by (simp add: store_ok_def)
  have uniq: "r = row" if "r \<in> set (executions d)" "p r" for r
    using unique_row [OF links row] that p by blast
  show "capacity_ok d \<Longrightarrow> capacity_ok d'" by (rule capacity_same [OF same(2,1)])
  show "links_ok d'"
    by (rule links_update [OF links ex id _ _ _ at gid gfin]) (use uniq att que same in auto)
  show "executions_step d d'"
    by (rule executions_step_update [OF ex id]) (use uniq step in auto)
qed

lemma sql_update_none: "t = sql_update (\<lambda>_. False) (\<lambda>r. r) t"
  by (simp add: sql_update_def)

lemma good_update:
  assumes "store_ok d" and "find_execution d i = Some row"
    and "executions d' = sql_update p f (executions d)"
    and "\<And>r. p r \<Longrightarrow> ex_id r = i" and "\<And>r. ex_id (f r) = ex_id r"
    and "row_step row (f row)" and "ex_attempt_id (f row) = ex_attempt_id row"
    and "ex_state (f row) = Queued \<Longrightarrow> unassigned (f row)"
    and "attempts d' = attempts d" "reservations d' = reservations d" "workers d' = workers d"
    and "log_step d d'" and "cleanup_step d d'"
  shows "good_step d d'"
  by (rule good_update_attempts [OF assms(1-8), of "\<lambda>_. False" "\<lambda>a. a"])
    (use assms(9-13) sql_update_none in simp_all)

text \<open>A transaction that leaves executions, attempts, reservations and workers alone.\<close>

lemma good_other:
  assumes "store_ok d" and "executions d' = executions d" "attempts d' = attempts d"
    "reservations d' = reservations d" "workers d' = workers d"
    and "log_step d d'" and "cleanup_step d d'"
  shows "good_step d d'"
proof (rule good_stepI [OF assms(1,6,7)])
  show "capacity_ok d \<Longrightarrow> capacity_ok d'" by (rule capacity_same [OF assms(5,4)])
  show "links_ok d \<Longrightarrow> links_ok d'" by (rule links_same [OF assms(2-4)])
  show "executions_step d d'" by (rule executions_step_same [OF assms(2)])
qed

text \<open>A new execution enters the queue unassigned.\<close>

definition fresh_execution :: "execution \<Rightarrow> bool" where
  "fresh_execution e \<longleftrightarrow> ex_state e = Queued \<and> unassigned e"

lemma good_insert:
  assumes ok: "store_ok d" and ex: "executions d' = executions d @ [r]"
    and new: "find_execution d (ex_id r) = None" and r: "ex_state r = Queued" "unassigned r"
    and same: "attempts d' = attempts d" "reservations d' = reservations d" "workers d' = workers d"
    and log: "log_step d d'" and cl: "cleanup_step d d'"
  shows "good_step d d'"
proof (rule good_stepI [OF ok log cl])
  have cur: "current_attempt d' i = current_attempt d i" for i
    using new r(2) by (auto simp: current_attempt_def ex sql_lookup_append unassigned_def
        split: option.splits)
  have "ex_id r \<notin> ex_id ` set (executions d)" using new by (simp add: sql_lookup_None_iff)
  then show "links_ok d'" if "links_ok d"
    using r that by (auto simp: links_ok_def ex same cur)
  show "capacity_ok d \<Longrightarrow> capacity_ok d'" by (rule capacity_same [OF same(3,2)])
  show "executions_step d d'" by (rule executions_step_append [OF ex])
qed

end
