(* ===== verification/Execution_Store.thy ===== *)
theory Execution_Store
  imports Store_Invariants
begin

text \<open>
  \<open>orchestrator-persistence/src/lib.rs\<close>, first half: creating executions, moving them along
  their lifecycle, recording progress and cancelling them. Interactive control is in
  \<open>Control_Store\<close>.

  Every operation reads the execution \<open>FOR UPDATE\<close> and commits at its end, so it is one
  function of the database. \<open>coll\<close> is the collation of the database; \<open>dbtext\<close> is the text the
  driver prints for the violation of a constraint.
\<close>

record db_error =
  de_code :: "string option"
  de_constraint :: "string option"
  de_text :: string

definition map_conflict :: "db_error \<Rightarrow> store_error" where
  "map_conflict e =
     (if de_code e = Some ''23505'' then
        (if de_constraint e = Some ''executions_pkey'' then DuplicateExecutionId (de_text e)
         else Conflict (de_text e))
      else Db)"

text \<open>PostgreSQL's error for a violated unique constraint.\<close>

definition unique_violation :: "(string \<Rightarrow> string) \<Rightarrow> string \<Rightarrow> db_error" where
  "unique_violation dbtext c =
     \<lparr>de_code = Some ''23505'', de_constraint = Some c, de_text = dbtext c\<rparr>"

definition row_of_execution :: "execution \<Rightarrow> exec_row" where
  "row_of_execution e = execution.extend e (exec_row.fields 1)"

definition insert_execution :: "(string \<Rightarrow> string) \<Rightarrow> execution \<Rightarrow> unit tx" where
  "insert_execution dbtext execution d =
     (if sql_exists (\<lambda>r. ex_id r = ex_id execution) (executions d)
      then Inl (map_conflict (unique_violation dbtext ''executions_pkey''))
      else Inr ((), d\<lparr>executions := executions d @ [row_of_execution execution]\<rparr>))"

definition get_execution :: "execution_id \<Rightarrow> db \<Rightarrow> store_error + execution" where
  "get_execution i d =
     and_then (ok_or (find_execution d i) (NotFound i)) (\<lambda>row. Inr (decode_execution row))"

definition live_rows :: "(string \<Rightarrow> string) \<Rightarrow> db \<Rightarrow> exec_row list" where
  "live_rows coll d =
     sort_key ex_created_at (sort_key (\<lambda>r. coll (ex_id r))
       (filter (\<lambda>r. ex_state r \<notin> set [Completed, Failed, Cancelled]) (executions d)))"

definition list_live :: "(string \<Rightarrow> string) \<Rightarrow> db \<Rightarrow> execution list" where
  "list_live coll d = map decode_execution (live_rows coll d)"

definition list_operational :: "(string \<Rightarrow> string) \<Rightarrow> u32 \<Rightarrow> db \<Rightarrow> execution list" where
  "list_operational coll limit d = map decode_execution (take (unat limit) (live_rows coll d))"

definition live_state_counts ::
  "(string \<Rightarrow> string) \<Rightarrow> db \<Rightarrow> (execution_state \<times> nat) list" where
  "live_state_counts coll d =
     (let live = filter (\<lambda>r. ex_state r \<notin> set [Completed, Failed, Cancelled]) (executions d) in
      map (\<lambda>s. (s, rows_affected (\<lambda>r. ex_state r = s) live))
        (sort_key (\<lambda>s. coll (state_text s)) (remdups (map ex_state live))))"

section \<open>Cancellation\<close>

definition update_execution ::
  "execution_id \<Rightarrow> (exec_row \<Rightarrow> exec_row) \<Rightarrow> db \<Rightarrow> db" where
  "update_execution i f d = d\<lparr>executions := sql_update (\<lambda>r. ex_id r = i) f (executions d)\<rparr>"

text \<open>The last statement of both cancelling operations.\<close>

definition close_cancellation :: "time \<Rightarrow> execution_id \<Rightarrow> db \<Rightarrow> db" where
  "close_cancellation at i d =
     d\<lparr>cancellations := sql_update (\<lambda>r. cn_execution_id r = i \<and> cn_completed_at r = None)
          (\<lambda>r. r\<lparr>cn_completed_at := Some at\<rparr>) (cancellations d)\<rparr>"

definition request_cancellation :: "clock \<Rightarrow> execution_id \<Rightarrow> execution tx" where
  "request_cancellation ck i d =
     and_then (ok_or (find_execution d i) (NotFound i)) (\<lambda>row.
     let execution = decode_execution row;
         existing = sql_lookup cn_execution_id i (cancellations d) in
     if ex_state execution = Cancelled \<and> existing \<noteq> None then Inr (execution, d)
     else if is_terminal (ex_state execution)
     then Inl (IllegalTransition (ex_state execution) Cancelled)
     else
       let d1 = (if existing = None
                 then d\<lparr>cancellations := cancellations d @
                        [\<lparr>cn_execution_id = i, cn_requested_at = ck_db ck, cn_completed_at = None\<rparr>]\<rparr>
                 else d);
           d2 = stale_controls (ck_db ck) i ''execution cancellation took precedence'' d1 in
       if ex_state execution = Queued \<and> ex_worker_id execution = None \<and> ex_attempt_id execution = None
       then
         case execution_transition (ck_utc ck) Cancelled execution of
           Inl _ \<Rightarrow> Inl (IllegalTransition Queued Cancelled)
         | Inr moved \<Rightarrow>
             let cancelled = moved\<lparr>ex_result := Some (cancelled_result i)\<rparr>;
                 d3 = update_execution i (\<lambda>r. r\<lparr>ex_state := Cancelled,
                        ex_result := ex_result cancelled, ex_updated_at := ex_updated_at cancelled,
                        ex_version := ex_version r + 1\<rparr>) d2 in
             and_then (append_in_transaction
                 \<lparr>ev_execution_id = i, ev_attempt_id = None, ev_sequence = 0,
                  ev_at = ex_updated_at cancelled, ev_state = Cancelled,
                  ev_kind = ExecutionCancelled\<rparr> d3) (\<lambda>(sequence, d4).
               Inr (cancelled, close_cancellation (ex_updated_at cancelled) i d4))
       else Inr (execution, d2))"

definition cancellation_requested :: "execution_id \<Rightarrow> db \<Rightarrow> bool" where
  "cancellation_requested i d =
     sql_exists (\<lambda>r. cn_execution_id r = i \<and> cn_completed_at r = None) (cancellations d)"

record pending_cancellation =
  pc_execution :: execution
  pc_worker_id :: "worker_id option"
  pc_attempt_id :: "attempt_id option"

definition list_pending_cancellations ::
  "(string \<Rightarrow> string) \<Rightarrow> db \<Rightarrow> pending_cancellation list" where
  "list_pending_cancellations coll d =
     map (\<lambda>(e, r).
            let authority = find_cleanup d (ex_id e) in
            \<lparr>pc_execution = decode_execution e,
             pc_worker_id = (case authority of Some c \<Rightarrow> Some (ca_worker_id c) | None \<Rightarrow> ex_worker_id e),
             pc_attempt_id = (case authority of Some c \<Rightarrow> Some (ca_attempt_id c) | None \<Rightarrow> ex_attempt_id e)\<rparr>)
       (sort_key (\<lambda>(e, r). cn_requested_at r) (sort_key (\<lambda>(e, r). coll (ex_id e))
         [(e, r). e \<leftarrow> executions d, r \<leftarrow> cancellations d,
                  cn_execution_id r = ex_id e \<and> cn_completed_at r = None]))"

definition complete_cancellation ::
  "clock \<Rightarrow> execution_id \<Rightarrow> attempt_id \<Rightarrow> (execution \<times> nat) tx" where
  "complete_cancellation ck i attempt d =
     and_then (ok_or (find_execution d i) (NotFound i)) (\<lambda>row.
     if \<not> cancellation_pending d i
     then Inl (Conflict (''execution '' @ i @ '' has no pending cancellation request''))
     else
       let execution = decode_execution row; from = ex_state execution in
       case execution_transition (ck_utc ck) Cancelled execution of
         Inl _ \<Rightarrow> Inl (IllegalTransition from Cancelled)
       | Inr moved \<Rightarrow>
           let reservation_exists = sql_exists (\<lambda>r. rn_execution_id r = i) (reservations d);
               attempt_finished = sql_exists (\<lambda>a. at_execution_id a = i \<and> at_attempt_id a = attempt
                  \<and> at_finished_at a \<noteq> None) (attempts d);
               cleanup_resolved = sql_exists (\<lambda>c. ca_execution_id c = i \<and> ca_attempt_id c = attempt
                  \<and> ca_phase c = ''RESOLVED'') (cleanups d) in
           if reservation_exists \<or> \<not> attempt_finished \<or> \<not> cleanup_resolved
           then Inl (Conflict (''execution '' @ i
                  @ '' cancellation cannot complete before cleanup and reservation release''))
           else
             let cancelled = moved\<lparr>ex_result := Some (cancelled_result i)\<rparr>;
                 at = ex_updated_at cancelled;
                 d1 = update_execution i (\<lambda>r. r\<lparr>ex_state := Cancelled,
                        ex_result := ex_result cancelled, ex_updated_at := at,
                        ex_version := ex_version r + 1\<rparr>) d;
                 d2 = d1\<lparr>attempts := sql_update
                        (\<lambda>a. at_execution_id a = i \<and> at_attempt_id a = attempt)
                        (\<lambda>a. a\<lparr>at_state := Cancelled, at_result := ex_result cancelled,
                               at_updated_at := at\<rparr>) (attempts d1)\<rparr> in
             and_then (append_in_transaction
                 \<lparr>ev_execution_id = i, ev_attempt_id = Some attempt, ev_sequence = 0,
                  ev_at = at, ev_state = Cancelled, ev_kind = ExecutionCancelled\<rparr> d2)
               (\<lambda>(sequence, d3). Inr ((cancelled, sequence), close_cancellation at i d3)))"

section \<open>Transitions\<close>

definition pending_message :: "execution_id \<Rightarrow> string" where
  "pending_message i = ''execution '' @ i @ '' has a pending cancellation request''"

definition store_transition :: "time \<Rightarrow> execution_id \<Rightarrow> execution_state \<Rightarrow> execution tx" where
  "store_transition utcnow i nxt d =
     and_then (ok_or (find_execution d i) (NotFound i)) (\<lambda>row.
     let execution = decode_execution row in
     if cancellation_pending d i then Inl (Conflict (pending_message i))
     else
       let from = ex_state execution in
       if \<not> can_transition_to from nxt then Inl (IllegalTransition from nxt)
       else case execution_transition utcnow nxt execution of
         Inl _ \<Rightarrow> Inl (IllegalTransition from nxt)
       | Inr moved \<Rightarrow>
           Inr (moved, update_execution i (\<lambda>r. r\<lparr>ex_state := ex_state moved,
             ex_updated_at := ex_updated_at moved, ex_version := ex_version r + 1\<rparr>) d))"

definition transition_with_event ::
  "time \<Rightarrow> execution_id \<Rightarrow> execution_state \<Rightarrow> execution_event \<Rightarrow> (execution \<times> nat) tx" where
  "transition_with_event utcnow i nxt event d =
     (if i \<noteq> ev_execution_id event \<or> nxt \<noteq> ev_state event \<or> ev_sequence event \<noteq> 0
      then Inl (Conflict ''execution transition and event identity do not match'')
      else and_then (ok_or (find_execution d i) (NotFound i)) (\<lambda>row.
        let execution = decode_execution row in
        if cancellation_pending d i then Inl (Conflict (pending_message i))
        else if ex_attempt_id execution \<noteq> ev_attempt_id event
        then Inl (Conflict ''execution transition and event attempt do not match'')
        else
          let from = ex_state execution in
          if \<not> can_transition_to from nxt then Inl (IllegalTransition from nxt)
          else case execution_transition utcnow nxt execution of
            Inl _ \<Rightarrow> Inl (IllegalTransition from nxt)
          | Inr moved \<Rightarrow>
              and_then (append_in_transaction event
                (update_execution i (\<lambda>r. r\<lparr>ex_state := ex_state moved,
                   ex_updated_at := ex_updated_at moved, ex_version := ex_version r + 1\<rparr>) d))
                (\<lambda>(sequence, d'). Inr ((moved, sequence), d'))))"

section \<open>Progress of an attempt\<close>

text \<open>The columns the two \<open>UPDATE\<close>s write.\<close>

definition progress_row :: "execution \<Rightarrow> exec_row \<Rightarrow> exec_row" where
  "progress_row execution r =
     r\<lparr>ex_state := ex_state execution, ex_worker_id := ex_worker_id execution,
       ex_attempt_id := ex_attempt_id execution, ex_session_id := ex_session_id execution,
       ex_worktree_path := ex_worktree_path execution, ex_result := ex_result execution,
       ex_updated_at := ex_updated_at execution, ex_version := ex_version r + 1\<rparr>"

definition progress_attempt :: "execution \<Rightarrow> attempt_row \<Rightarrow> attempt_row" where
  "progress_attempt execution a =
     a\<lparr>at_state := ex_state execution, at_worktree_path := ex_worktree_path execution,
       at_session_id := ex_session_id execution, at_result := ex_result execution,
       at_updated_at := ex_updated_at execution,
       at_finished_at := (if is_terminal (ex_state execution)
         then Some (ex_updated_at execution) else None)\<rparr>"

definition record_progress ::
  "time \<Rightarrow> bool \<Rightarrow> execution \<Rightarrow> execution_event \<Rightarrow> nat tx" where
  "record_progress dbnow request_retention execution event d =
     (if ex_id execution \<noteq> ev_execution_id event \<or> ex_state execution \<noteq> ev_state event
         \<or> ex_attempt_id execution \<noteq> ev_attempt_id event
      then Inl (Conflict ''execution progress and event identity do not match'')
      else and_then (ok_or (find_execution d (ex_id execution)) (NotFound (ex_id execution))) (\<lambda>locked.
        let persisted = decode_execution locked in
        if cancellation_pending d (ex_id execution)
        then Inl (Conflict (pending_message (ex_id execution)))
        else if ex_worker_id persisted \<noteq> ex_worker_id execution
                \<or> ex_attempt_id persisted \<noteq> ex_attempt_id execution
        then Inl (Conflict ''execution worker or attempt authority changed'')
        else if ex_state persisted \<noteq> ex_state execution
                \<and> \<not> can_transition_to (ex_state persisted) (ex_state execution)
        then Inl (IllegalTransition (ex_state persisted) (ex_state execution))
        else case (ex_attempt_id execution, ex_worker_id execution) of
          (Some attempt, Some worker) \<Rightarrow>
            (let active = rows_affected (\<lambda>a. at_attempt_id a = attempt
                   \<and> at_execution_id a = ex_id execution \<and> at_worker_id a = worker
                   \<and> at_finished_at a = None) (attempts d) in
             if active \<noteq> 1
             then Inl (Conflict (''expected exactly one active attempt, found '' @ show_nat active))
             else
               let p = (\<lambda>r. ex_id r = ex_id execution \<and> ex_version r = ex_version locked) in
               if rows_affected p (executions d) \<noteq> 1
               then Inl (Conflict ''execution version changed while recording progress'')
               else if rows_affected (\<lambda>a. at_attempt_id a = attempt) (attempts d) \<noteq> 1
               then Inl (Conflict ''active execution attempt disappeared while recording progress'')
               else
                 let d1 = d\<lparr>executions := sql_update p (progress_row execution) (executions d)\<rparr>;
                     d2 = d1\<lparr>attempts := sql_update (\<lambda>a. at_attempt_id a = attempt)
                        (progress_attempt execution) (attempts d1)\<rparr>;
                     q = (\<lambda>c. ca_execution_id c = ex_id execution \<and> ca_attempt_id c = attempt
                        \<and> ca_worker_id c = worker
                        \<and> ca_phase c \<in> set [''ACTIVE:POST_PI_BEFORE_EVENT'', ''RETAIN_REQUESTED'']) in
                 if request_retention \<and> rows_affected q (cleanups d) \<noteq> 1
                 then Inl (Conflict ''cleanup authority cannot atomically request retention'')
                 else
                   let d3 = (if request_retention
                        then d2\<lparr>cleanups := sql_update q
                          (\<lambda>c. c\<lparr>ca_phase := ''RETAIN_REQUESTED'', ca_updated_at := dbnow\<rparr>) (cleanups d2)\<rparr>
                        else d2);
                       d4 = (if is_terminal (ex_state execution)
                        then stale_controls dbnow (ex_id execution) ''execution entered a terminal state'' d3
                        else d3) in
                   append_in_transaction event d4)
        | _ \<Rightarrow> Inl (Conflict ''execution progress lacks active attempt authority'')))"

section \<open>Idempotent creation\<close>

record idempotent_execution =
  ie_execution :: execution
  ie_created :: bool
  ie_event_sequence :: "nat option"

definition create_idempotent ::
  "(string \<Rightarrow> string) \<Rightarrow> execution \<Rightarrow> execution_event \<Rightarrow> string \<Rightarrow> string \<Rightarrow> idempotent_execution tx" where
  "create_idempotent dbtext execution event key scope d =
     (if key = [] \<or> 255 < length key then Inl (Conflict ''idempotency key must be 1-255 bytes'')
      else if ex_id execution \<noteq> ev_execution_id event \<or> ex_state execution \<noteq> ev_state event
              \<or> ev_sequence event \<noteq> 0
      then Inl (Conflict ''created execution and event identity do not match'')
      else case sql_lookup rt_idempotency_key key (requests d) of
        Some request \<Rightarrow>
          and_then (ok_or (find_execution d (rt_execution_id request)) Db) (\<lambda>row.
            let replay = decode_execution row in
            if rt_scope request \<noteq> scope \<or> ex_manifest replay \<noteq> ex_manifest execution
            then Inl (IdempotencyConflict ''idempotency key was already used for a different request'')
            else Inr (\<lparr>ie_execution = replay, ie_created = False, ie_event_sequence = None\<rparr>, d))
      | None \<Rightarrow>
          if sql_exists (\<lambda>r. ex_id r = ex_id execution) (executions d)
          then Inl (map_conflict (unique_violation dbtext ''executions_pkey''))
          else
            let d1 = d\<lparr>executions := executions d @ [row_of_execution execution]\<rparr>;
                d2 = d1\<lparr>requests := requests d1 @
                  [\<lparr>rt_idempotency_key = key, rt_scope = scope,
                    rt_manifest = Some (ex_manifest execution),
                    rt_execution_id = ex_id execution, rt_created_at = ex_created_at execution\<rparr>]\<rparr> in
            and_then (append_in_transaction event d2) (\<lambda>(sequence, d3).
              Inr (\<lparr>ie_execution = execution, ie_created = True,
                    ie_event_sequence = Some sequence\<rparr>, d3)))"

section \<open>What the operations keep\<close>

lemma close_cancellation_frame [simp]:
  "executions (close_cancellation t i d) = executions d"
  "events (close_cancellation t i d) = events d"
  "workers (close_cancellation t i d) = workers d"
  "reservations (close_cancellation t i d) = reservations d"
  "attempts (close_cancellation t i d) = attempts d"
  "cleanups (close_cancellation t i d) = cleanups d"
  "requests (close_cancellation t i d) = requests d"
  "controls (close_cancellation t i d) = controls d"
  by (simp_all add: close_cancellation_def)

lemma update_execution_frame [simp]:
  "executions (update_execution i f d) = sql_update (\<lambda>r. ex_id r = i) f (executions d)"
  "events (update_execution i f d) = events d"
  "workers (update_execution i f d) = workers d"
  "reservations (update_execution i f d) = reservations d"
  "attempts (update_execution i f d) = attempts d"
  "cleanups (update_execution i f d) = cleanups d"
  "requests (update_execution i f d) = requests d"
  "cancellations (update_execution i f d) = cancellations d"
  "controls (update_execution i f d) = controls d"
  by (simp_all add: update_execution_def)

lemma row_of_execution_sel [simp]:
  "ex_id (row_of_execution e) = ex_id e" "ex_state (row_of_execution e) = ex_state e"
  "ex_worker_id (row_of_execution e) = ex_worker_id e"
  "ex_attempt_id (row_of_execution e) = ex_attempt_id e"
  "ex_manifest (row_of_execution e) = ex_manifest e"
  "ex_version (row_of_execution e) = 1"
  "decode_execution (row_of_execution e) = e"
  by (cases e; simp add: row_of_execution_def decode_execution_def execution.defs exec_row.defs)+

lemma unassigned_row [simp]: "unassigned (row_of_execution e) = unassigned e"
  by (simp add: unassigned_def)

lemma row_step_transition:
  "can_transition_to (ex_state r) (ex_state r') \<Longrightarrow> ex_id r' = ex_id r \<Longrightarrow> ex_role r' = ex_role r
     \<Longrightarrow> ex_manifest r' = ex_manifest r \<Longrightarrow> ex_created_at r' = ex_created_at r
     \<Longrightarrow> ex_version r' = Suc (ex_version r) \<Longrightarrow> row_step r r'"
  by (simp add: row_step_def state_change_ok_def)

lemma insert_execution_good:
  assumes "insert_execution dbtext e d = Inr (u, d')" and "store_ok d" and "fresh_execution e"
  shows "good_step d d'"
proof -
  have "find_execution d (ex_id e) = None" and "d' = d\<lparr>executions := executions d @ [row_of_execution e]\<rparr>"
    using assms(1) by (auto simp: insert_execution_def sql_exists_key split: if_splits)
  with assms(2,3) show ?thesis
    by (intro good_insert [of d d' "row_of_execution e"])
      (auto simp: fresh_execution_def intro: same_rules)
qed

lemma create_idempotent_shape:
  assumes "create_idempotent dbtext e ev key scope d = Inr (res, d')"
  shows "(d' = d \<and> \<not> ie_created res)
    \<or> (\<exists>d2 n. append_in_transaction ev d2 = Inr (n, d') \<and> find_execution d (ex_id e) = None
        \<and> sql_lookup rt_idempotency_key key (requests d) = None
        \<and> res = \<lparr>ie_execution = e, ie_created = True, ie_event_sequence = Some n\<rparr>
        \<and> d2 = d\<lparr>executions := executions d @ [row_of_execution e],
            requests := requests d @ [\<lparr>rt_idempotency_key = key, rt_scope = scope,
              rt_manifest = Some (ex_manifest e), rt_execution_id = ex_id e,
              rt_created_at = ex_created_at e\<rparr>]\<rparr>)"
  using assms
  by (auto simp: create_idempotent_def Let_def and_then_Inr_iff sql_exists_key
      split: if_splits option.splits)

lemma create_idempotent_good:
  assumes "create_idempotent dbtext e ev key scope d = Inr (res, d')" and "store_ok d"
    and "fresh_execution e"
  shows "good_step d d'"
  using create_idempotent_shape [OF assms(1)]
proof (elim disjE exE conjE)
  assume "d' = d"
  then show ?thesis by (intro good_other [OF assms(2)]) (simp_all add: same_rules)
next
  fix d2 n
  assume app: "append_in_transaction ev d2 = Inr (n, d')" and new: "find_execution d (ex_id e) = None"
    and d2: "d2 = d\<lparr>executions := executions d @ [row_of_execution e],
            requests := requests d @ [\<lparr>rt_idempotency_key = key, rt_scope = scope,
              rt_manifest = Some (ex_manifest e), rt_execution_id = ex_id e,
              rt_created_at = ex_created_at e\<rparr>]\<rparr>"
  have "log_step d d'" by (rule log_step_append [OF app]) (simp add: d2)
  with new show ?thesis
    by (intro good_insert [of d d' "row_of_execution e", OF assms(2)])
      (use assms(3) in \<open>auto simp: append_frame [OF app] d2 fresh_execution_def intro: same_rules\<close>)
qed

lemma request_cancellation_shape:
  assumes "request_cancellation ck i d = Inr (res, d')"
  obtains "d' = d"
  | d2 where "executions d2 = executions d" "events d2 = events d" "workers d2 = workers d"
      "reservations d2 = reservations d" "attempts d2 = attempts d" "cleanups d2 = cleanups d"
      "d' = d2"
  | row d2 d4 n ev where "executions d2 = executions d" "events d2 = events d" "workers d2 = workers d"
      "reservations d2 = reservations d" "attempts d2 = attempts d" "cleanups d2 = cleanups d"
      "find_execution d i = Some row" "can_transition_to (ex_state row) Cancelled"
      "append_in_transaction ev (update_execution i (\<lambda>r. r\<lparr>ex_state := Cancelled,
         ex_result := Some (cancelled_result i), ex_updated_at := ck_utc ck,
         ex_version := ex_version r + 1\<rparr>) d2) = Inr (n, d4)"
      "d' = close_cancellation (ck_utc ck) i d4"
proof -
  from assms obtain row where row: "find_execution d i = Some row"
    by (auto simp: request_cancellation_def and_then_Inr_iff ok_or_Inr_iff)
  define d2 where "d2 = stale_controls (ck_db ck) i ''execution cancellation took precedence''
    (if sql_lookup cn_execution_id i (cancellations d) = None
     then d\<lparr>cancellations := cancellations d @
        [\<lparr>cn_execution_id = i, cn_requested_at = ck_db ck, cn_completed_at = None\<rparr>]\<rparr> else d)"
  have frame: "executions d2 = executions d" "events d2 = events d" "workers d2 = workers d"
      "reservations d2 = reservations d" "attempts d2 = attempts d" "cleanups d2 = cleanups d"
    by (simp_all add: d2_def)
  have split: "d' = d \<or> d' = d2 \<or>
    (\<exists>d4 n ev. can_transition_to (ex_state row) Cancelled \<and>
      append_in_transaction ev (update_execution i (\<lambda>r. r\<lparr>ex_state := Cancelled,
         ex_result := Some (cancelled_result i), ex_updated_at := ck_utc ck,
         ex_version := ex_version r + 1\<rparr>) d2) = Inr (n, d4) \<and> d' = close_cancellation (ck_utc ck) i d4)"
    using assms
    by (auto simp: request_cancellation_def row ok_or_def Let_def and_then_Inr_iff d2_def [symmetric]
        execution_transition_def split: if_splits)
  from split consider "d' = d" | "d' = d2" | d4 n ev where "can_transition_to (ex_state row) Cancelled"
      "append_in_transaction ev (update_execution i (\<lambda>r. r\<lparr>ex_state := Cancelled,
         ex_result := Some (cancelled_result i), ex_updated_at := ck_utc ck,
         ex_version := ex_version r + 1\<rparr>) d2) = Inr (n, d4)"
      "d' = close_cancellation (ck_utc ck) i d4" by blast
  then show ?thesis
  proof cases
    case 1 with that(1) show ?thesis by blast
  next
    case 2 with frame that(2) show ?thesis by blast
  next
    case 3 with frame row that(3) show ?thesis by blast
  qed
qed

lemma request_cancellation_good:
  assumes "request_cancellation ck i d = Inr (res, d')" and ok: "store_ok d"
  shows "good_step d d'"
proof (rule request_cancellation_shape [OF assms(1)])
  assume "d' = d"
  then show ?thesis by (intro good_other [OF ok]) (simp_all add: same_rules)
next
  fix d2
  assume "executions d2 = executions d" "events d2 = events d" "workers d2 = workers d"
      "reservations d2 = reservations d" "attempts d2 = attempts d" "cleanups d2 = cleanups d"
      "d' = d2"
  then show ?thesis by (intro good_other [OF ok]) (simp_all add: same_rules)
next
  fix row d2 d4 n ev
  assume frame: "executions d2 = executions d" "events d2 = events d" "workers d2 = workers d"
      "reservations d2 = reservations d" "attempts d2 = attempts d" "cleanups d2 = cleanups d"
    and row: "find_execution d i = Some row" and can: "can_transition_to (ex_state row) Cancelled"
    and app: "append_in_transaction ev (update_execution i (\<lambda>r. r\<lparr>ex_state := Cancelled,
         ex_result := Some (cancelled_result i), ex_updated_at := ck_utc ck,
         ex_version := ex_version r + 1\<rparr>) d2) = Inr (n, d4)"
    and d': "d' = close_cancellation (ck_utc ck) i d4"
  have "log_step d d4" by (rule log_step_append [OF app]) (simp add: frame)
  then have log: "log_step d d'" by (rule log_step_eq) (simp add: d')
  note tables = append_frame [OF app, simplified] frame
  show ?thesis
    by (rule good_update [OF ok row, where f = "\<lambda>r. r\<lparr>ex_state := Cancelled,
         ex_result := Some (cancelled_result i), ex_updated_at := ck_utc ck,
         ex_version := ex_version r + 1\<rparr>" and p = "\<lambda>r. ex_id r = i"])
      (use can log in \<open>simp_all add: d' tables row_step_transition same_rules\<close>)
qed

lemma complete_cancellation_shape:
  assumes "complete_cancellation ck i attempt d = Inr (res, d')"
  shows "\<exists>row d3 n. find_execution d i = Some row \<and> can_transition_to (ex_state row) Cancelled
    \<and> cancellation_pending d i
    \<and> \<not> sql_exists (\<lambda>r. rn_execution_id r = i) (reservations d)
    \<and> sql_exists (\<lambda>a. at_execution_id a = i \<and> at_attempt_id a = attempt \<and> at_finished_at a \<noteq> None) (attempts d)
    \<and> sql_exists (\<lambda>c. ca_execution_id c = i \<and> ca_attempt_id c = attempt \<and> ca_phase c = ''RESOLVED'') (cleanups d)
    \<and> append_in_transaction \<lparr>ev_execution_id = i, ev_attempt_id = Some attempt, ev_sequence = 0,
          ev_at = ck_utc ck, ev_state = Cancelled, ev_kind = ExecutionCancelled\<rparr>
        ((update_execution i (\<lambda>r. r\<lparr>ex_state := Cancelled,
          ex_result := Some (cancelled_result i), ex_updated_at := ck_utc ck,
          ex_version := ex_version r + 1\<rparr>) d)\<lparr>attempts := sql_update
            (\<lambda>a. at_execution_id a = i \<and> at_attempt_id a = attempt)
            (\<lambda>a. a\<lparr>at_state := Cancelled, at_result := Some (cancelled_result i),
                   at_updated_at := ck_utc ck\<rparr>) (attempts d)\<rparr>) = Inr (n, d3)
    \<and> d' = close_cancellation (ck_utc ck) i d3 \<and> snd res = n"
  using assms
  by (auto simp: complete_cancellation_def and_then_Inr_iff ok_or_Inr_iff Let_def
      execution_transition_def split: if_splits)

lemma complete_cancellation_good:
  assumes "complete_cancellation ck i attempt d = Inr (res, d')" and ok: "store_ok d"
  shows "good_step d d'"
proof -
  from complete_cancellation_shape [OF assms(1)] obtain row d3 n ev
    where row: "find_execution d i = Some row" and can: "can_transition_to (ex_state row) Cancelled"
    and app: "append_in_transaction ev ((update_execution i (\<lambda>r. r\<lparr>ex_state := Cancelled,
          ex_result := Some (cancelled_result i), ex_updated_at := ck_utc ck,
          ex_version := ex_version r + 1\<rparr>) d)\<lparr>attempts := sql_update
            (\<lambda>a. at_execution_id a = i \<and> at_attempt_id a = attempt)
            (\<lambda>a. a\<lparr>at_state := Cancelled, at_result := Some (cancelled_result i),
                   at_updated_at := ck_utc ck\<rparr>) (attempts d)\<rparr>) = Inr (n, d3)"
    and d': "d' = close_cancellation (ck_utc ck) i d3" by blast
  have "log_step d d3" by (rule log_step_append [OF app]) simp
  then have log: "log_step d d'" by (rule log_step_eq) (simp add: d')
  note tables = append_frame [OF app, simplified]
  have links: "links_ok d" using ok by (simp add: store_ok_def)
  show ?thesis
    by (rule good_update_attempts [OF ok row, where f = "\<lambda>r. r\<lparr>ex_state := Cancelled,
         ex_result := Some (cancelled_result i), ex_updated_at := ck_utc ck,
         ex_version := ex_version r + 1\<rparr>" and p = "\<lambda>r. ex_id r = i"
         and q = "\<lambda>a. at_execution_id a = i \<and> at_attempt_id a = attempt"
         and g = "\<lambda>a. a\<lparr>at_state := Cancelled, at_result := Some (cancelled_result i),
                   at_updated_at := ck_utc ck\<rparr>"])
      (use can log links in \<open>simp_all add: d' tables row_step_transition links_ok_def same_rules\<close>)
qed

lemma store_transition_shape:
  assumes "store_transition t i nxt d = Inr (res, d')"
  shows "\<exists>row. find_execution d i = Some row \<and> can_transition_to (ex_state row) nxt
    \<and> \<not> cancellation_pending d i
    \<and> d' = update_execution i (\<lambda>r. r\<lparr>ex_state := nxt, ex_updated_at := t,
         ex_version := ex_version r + 1\<rparr>) d"
  using assms
  by (auto simp: store_transition_def and_then_Inr_iff ok_or_Inr_iff Let_def execution_transition_def
      split: if_splits)

lemma store_transition_good:
  assumes "store_transition t i nxt d = Inr (res, d')" and ok: "store_ok d"
  shows "good_step d d'"
proof -
  from store_transition_shape [OF assms(1)] obtain row where row: "find_execution d i = Some row"
    and can: "can_transition_to (ex_state row) nxt"
    and d': "d' = update_execution i (\<lambda>r. r\<lparr>ex_state := nxt, ex_updated_at := t,
         ex_version := ex_version r + 1\<rparr>) d" by blast
  show ?thesis
    by (rule good_update [OF ok row, where f = "\<lambda>r. r\<lparr>ex_state := nxt, ex_updated_at := t,
         ex_version := ex_version r + 1\<rparr>" and p = "\<lambda>r. ex_id r = i"])
      (use can not_into_Queued in \<open>simp_all add: d' row_step_transition same_rules\<close>)
qed

lemma transition_with_event_shape:
  assumes "transition_with_event t i nxt ev d = Inr (res, d')"
  shows "\<exists>row n. find_execution d i = Some row \<and> can_transition_to (ex_state row) nxt
    \<and> \<not> cancellation_pending d i \<and> ev_execution_id ev = i \<and> ev_state ev = nxt
    \<and> ex_attempt_id row = ev_attempt_id ev
    \<and> append_in_transaction ev (update_execution i (\<lambda>r. r\<lparr>ex_state := nxt, ex_updated_at := t,
         ex_version := ex_version r + 1\<rparr>) d) = Inr (n, d')"
  using assms
  by (auto simp: transition_with_event_def and_then_Inr_iff ok_or_Inr_iff Let_def
      execution_transition_def split: if_splits)

lemma transition_with_event_good:
  assumes "transition_with_event t i nxt ev d = Inr (res, d')" and ok: "store_ok d"
  shows "good_step d d'"
proof -
  from transition_with_event_shape [OF assms(1)] obtain row n where row: "find_execution d i = Some row"
    and can: "can_transition_to (ex_state row) nxt"
    and app: "append_in_transaction ev (update_execution i (\<lambda>r. r\<lparr>ex_state := nxt, ex_updated_at := t,
         ex_version := ex_version r + 1\<rparr>) d) = Inr (n, d')" by blast
  have log: "log_step d d'" by (rule log_step_append [OF app]) simp
  note tables = append_frame [OF app, simplified]
  show ?thesis
    by (rule good_update [OF ok row, where f = "\<lambda>r. r\<lparr>ex_state := nxt, ex_updated_at := t,
         ex_version := ex_version r + 1\<rparr>" and p = "\<lambda>r. ex_id r = i"])
      (use can log not_into_Queued in \<open>simp_all add: tables row_step_transition same_rules\<close>)
qed

lemma progress_row_sel [simp]:
  "ex_id (progress_row e r) = ex_id r" "ex_role (progress_row e r) = ex_role r"
  "ex_manifest (progress_row e r) = ex_manifest r" "ex_created_at (progress_row e r) = ex_created_at r"
  "ex_version (progress_row e r) = Suc (ex_version r)" "ex_state (progress_row e r) = ex_state e"
  "ex_attempt_id (progress_row e r) = ex_attempt_id e" "ex_worker_id (progress_row e r) = ex_worker_id e"
  by (simp_all add: progress_row_def)

lemma progress_attempt_sel [simp]:
  "at_attempt_id (progress_attempt e a) = at_attempt_id a"
  "at_execution_id (progress_attempt e a) = at_execution_id a"
  "at_worker_id (progress_attempt e a) = at_worker_id a"
  by (simp_all add: progress_attempt_def)

definition retention_row :: "execution \<Rightarrow> attempt_id \<Rightarrow> worker_id \<Rightarrow> cleanup_row \<Rightarrow> bool" where
  "retention_row e attempt worker c \<longleftrightarrow>
     ca_execution_id c = ex_id e \<and> ca_attempt_id c = attempt \<and> ca_worker_id c = worker
     \<and> ca_phase c \<in> set [''ACTIVE:POST_PI_BEFORE_EVENT'', ''RETAIN_REQUESTED'']"

lemma record_progress_shape:
  assumes "record_progress t ret e ev d = Inr (n, d')"
  obtains row attempt worker d4 where
    "find_execution d (ex_id e) = Some row" "\<not> cancellation_pending d (ex_id e)"
    "ex_worker_id row = Some worker" "ex_attempt_id row = Some attempt"
    "ex_worker_id e = Some worker" "ex_attempt_id e = Some attempt"
    "ex_state row = ex_state e \<or> can_transition_to (ex_state row) (ex_state e)"
    "rows_affected (\<lambda>a. at_attempt_id a = attempt \<and> at_execution_id a = ex_id e
       \<and> at_worker_id a = worker \<and> at_finished_at a = None) (attempts d) = 1"
    "ev_execution_id ev = ex_id e" "ev_state ev = ex_state e"
    "append_in_transaction ev d4 = Inr (n, d')"
    "executions d4 = sql_update (\<lambda>r. ex_id r = ex_id e \<and> ex_version r = ex_version row)
       (progress_row e) (executions d)"
    "attempts d4 = sql_update (\<lambda>a. at_attempt_id a = attempt) (progress_attempt e) (attempts d)"
    "cleanups d4 = (if ret then sql_update (retention_row e attempt worker)
       (\<lambda>c. c\<lparr>ca_phase := ''RETAIN_REQUESTED'', ca_updated_at := t\<rparr>) (cleanups d) else cleanups d)"
    "events d4 = events d" "reservations d4 = reservations d" "workers d4 = workers d"
proof -
  have ids: "ev_execution_id ev = ex_id e" "ev_state ev = ex_state e" "ev_attempt_id ev = ex_attempt_id e"
    using assms by (auto simp: record_progress_def split: if_splits)
  from assms obtain row where row: "find_execution d (ex_id e) = Some row"
    by (auto simp: record_progress_def ids and_then_Inr_iff ok_or_Inr_iff)
  have pend: "\<not> cancellation_pending d (ex_id e)"
    and own: "ex_worker_id row = ex_worker_id e" "ex_attempt_id row = ex_attempt_id e"
    and state: "ex_state row = ex_state e \<or> can_transition_to (ex_state row) (ex_state e)"
    using assms by (auto simp: record_progress_def ids row ok_or_def Let_def split: if_splits)
  obtain attempt worker where aw: "ex_attempt_id e = Some attempt" "ex_worker_id e = Some worker"
    using assms row pend own state
    by (auto simp: record_progress_def ids row ok_or_def Let_def split: if_splits option.splits)
  have eq: "(if ex_state row \<noteq> ex_state e \<and> \<not> can_transition_to (ex_state row) (ex_state e)
      then A else B) = B" for A B :: "store_error + nat \<times> db"
    using state by auto
  note main = assms [unfolded record_progress_def, simplified ids row aw own pend ok_or_def eq
      decode_execution_sel and_then_simps option.case prod.case simp_thms if_False if_True]
  define d2 where "d2 = d\<lparr>executions := sql_update (\<lambda>r. ex_id r = ex_id e \<and> ex_version r = ex_version row)
        (progress_row e) (executions d),
      attempts := sql_update (\<lambda>a. at_attempt_id a = attempt) (progress_attempt e) (attempts d)\<rparr>"
  define d3 where "d3 = (if ret then d2\<lparr>cleanups := sql_update (retention_row e attempt worker)
       (\<lambda>c. c\<lparr>ca_phase := ''RETAIN_REQUESTED'', ca_updated_at := t\<rparr>) (cleanups d2)\<rparr> else d2)"
  define d4 where "d4 = (if is_terminal (ex_state e)
      then stale_controls t (ex_id e) ''execution entered a terminal state'' d3 else d3)"
  have act: "rows_affected (\<lambda>a. at_attempt_id a = attempt \<and> at_execution_id a = ex_id e
       \<and> at_worker_id a = worker \<and> at_finished_at a = None) (attempts d) = 1"
    using main by (simp add: Let_def split: if_splits)
  have app: "append_in_transaction ev d4 = Inr (n, d')"
    using main by (simp add: Let_def d4_def d3_def d2_def retention_row_def [abs_def] split: if_splits)
  show ?thesis
    by (rule that [OF row pend _ _ aw(2,1) state act ids(1,2) app])
      (simp_all add: own aw d4_def d3_def d2_def)
qed

lemma retention_rank:
  assumes "retention_row e attempt worker c" and "ca_phase c = disposition_text x"
  shows "disposition_rank x \<le> 7"
proof -
  have "disposition_text x = disposition_text (cleanup_disposition.Active StagePostPiBeforeEvent)
      \<or> disposition_text x = disposition_text RetainRequested"
    using assms by (auto simp: retention_row_def)
  then show ?thesis by (auto simp only: cleanup_text.enc_eq_iff disposition_rank.simps) simp_all
qed

lemma record_progress_good:
  assumes "record_progress t ret e ev d = Inr (n, d')" and ok: "store_ok d"
  shows "good_step d d'"
proof (rule record_progress_shape [OF assms(1)])
  fix row attempt worker d4
  assume row: "find_execution d (ex_id e) = Some row"
    and own: "ex_worker_id row = Some worker" "ex_attempt_id row = Some attempt"
      "ex_worker_id e = Some worker" "ex_attempt_id e = Some attempt"
    and state: "ex_state row = ex_state e \<or> can_transition_to (ex_state row) (ex_state e)"
    and act: "rows_affected (\<lambda>a. at_attempt_id a = attempt \<and> at_execution_id a = ex_id e
       \<and> at_worker_id a = worker \<and> at_finished_at a = None) (attempts d) = 1"
    and app: "append_in_transaction ev d4 = Inr (n, d')"
    and ex: "executions d4 = sql_update (\<lambda>r. ex_id r = ex_id e \<and> ex_version r = ex_version row)
       (progress_row e) (executions d)"
    and at: "attempts d4 = sql_update (\<lambda>a. at_attempt_id a = attempt) (progress_attempt e) (attempts d)"
    and cl: "cleanups d4 = (if ret then sql_update (retention_row e attempt worker)
       (\<lambda>c. c\<lparr>ca_phase := ''RETAIN_REQUESTED'', ca_updated_at := t\<rparr>) (cleanups d) else cleanups d)"
    and frame: "events d4 = events d" "reservations d4 = reservations d" "workers d4 = workers d"
  note tables = append_frame [OF app]
  have links: "links_ok d" using ok by (simp add: store_ok_def)
  have log: "log_step d d'" by (rule log_step_append [OF app frame(1)])
  have cleanup: "cleanup_step d d'"
  proof (cases ret)
    case True
    show ?thesis
      by (rule cleanup_step_phase [where s = RetainRequested and p = "retention_row e attempt worker" and t = t])
        (use True cl in \<open>auto simp: tables dest: retention_rank\<close>)
  qed (use cl in \<open>simp add: tables same_rules\<close>)
  obtain b where b: "b \<in> set (attempts d)" "at_attempt_id b = attempt" "at_finished_at b = None"
    using rows_affected_1D [OF act] by blast
  have gfin: "at_finished_at a = None" if "a \<in> set (attempts d)" "at_attempt_id a = attempt" for a
    using unique_attempt [OF links that(1) b(1)] that(2) b by simp
  have step: "row_step row (progress_row e row)"
    using state by (auto simp: row_step_def state_change_ok_def)
  have que: "ex_state e \<noteq> Queued"
    using state queued_unassigned [OF links row] own not_into_Queued by (auto simp: unassigned_def)
  show ?thesis
    by (rule good_update_attempts [OF ok row, where f = "progress_row e" and g = "progress_attempt e"
         and p = "\<lambda>r. ex_id r = ex_id e \<and> ex_version r = ex_version row"
         and q = "\<lambda>a. at_attempt_id a = attempt"])
      (use log cleanup step que gfin in \<open>simp_all add: tables ex at frame own\<close>)
qed

end
