(* ===== verification/Control_Store.thy ===== *)
theory Control_Store
  imports Execution_Store
begin

text \<open>
  \<open>orchestrator-persistence/src/lib.rs\<close>, second half: interactive control of a running
  execution (pause, resume, fork the conversation) and attaching to it. A control is
  accepted against the state the earlier pending controls will produce, is applied by the
  worker that was fenced at acceptance, and completes with its event.

  \<open>begin_control\<close>, \<open>mark_control_side_effect_applied\<close> and \<open>complete_control\<close> commit the
  staleness of a control before they return their error: their result is itself a result.
\<close>

record control_request =
  cq_request_id :: nat
  cq_execution_id :: execution_id
  cq_action :: control_action
  cq_requested_at :: time
  cq_completed_at :: "time option"

definition decode_control_request :: "execution_id \<Rightarrow> control_row \<Rightarrow> control_request" where
  "decode_control_request i row =
     \<lparr>cq_request_id = cr_request_id row, cq_execution_id = i, cq_action = cr_action row,
      cq_requested_at = cr_requested_at row, cq_completed_at = cr_completed_at row\<rparr>"

definition phase_text :: "control_phase \<Rightarrow> string" where
  "phase_text p = (case p of Accepted \<Rightarrow> ''ACCEPTED'' | Applying \<Rightarrow> ''APPLYING''
     | SideEffectApplied \<Rightarrow> ''SIDE_EFFECT_APPLIED'' | ControlCompleted \<Rightarrow> ''COMPLETED''
     | Stale \<Rightarrow> ''STALE'')"

text \<open>\<open>decode_control_phase\<close>: only the phases of a pending control are decoded.\<close>

definition decode_control_phase :: "string \<Rightarrow> store_error + control_phase" where
  "decode_control_phase v =
     (if v = ''ACCEPTED'' then Inr Accepted
      else if v = ''APPLYING'' then Inr Applying
      else if v = ''SIDE_EFFECT_APPLIED'' then Inr SideEffectApplied
      else Inl (Conflict (''invalid pending execution control phase: '' @ v)))"

definition find_control :: "db \<Rightarrow> nat \<Rightarrow> control_row option" where
  "find_control d n = sql_lookup cr_request_id n (controls d)"

definition update_control :: "nat \<Rightarrow> (control_row \<Rightarrow> control_row) \<Rightarrow> db \<Rightarrow> db" where
  "update_control n f d = d\<lparr>controls := sql_update (\<lambda>c. cr_request_id c = n) f (controls d)\<rparr>"

section \<open>Accepting a control\<close>

text \<open>
  The loop over the pending controls: the state, session and version they will leave.
\<close>

fun project_controls ::
  "control_row list \<Rightarrow> execution_state \<times> session_id \<times> nat \<Rightarrow> store_error + execution_state \<times> session_id \<times> nat" where
  "project_controls [] acc = Inr acc"
| "project_controls (pending # rest) (state, session, version) =
     (if cr_action pending = Pause \<and> state = Running
      then project_controls rest (PausedForHuman, session, version + 1)
      else if cr_action pending = Resume \<and> state = PausedForHuman
      then project_controls rest (Running, session, version + 1)
      else if cr_action pending = ForkConversation \<and> state \<in> set [Running, PausedForHuman]
      then and_then (ok_or (cr_target_session_id pending) (Conflict ''pending fork lacks a target session''))
             (\<lambda>target. project_controls rest (state, target, version + 1))
      else Inl (Conflict (''pending '' @ action_debug (cr_action pending)
             @ '' is invalid for projected state '' @ state_debug state)))"

definition action_allowed :: "control_action \<Rightarrow> execution_state \<Rightarrow> bool" where
  "action_allowed action state = (case action of
     Pause \<Rightarrow> state = Running
   | Resume \<Rightarrow> state = PausedForHuman
   | ForkConversation \<Rightarrow> state \<in> set [Running, PausedForHuman])"

definition no_authority :: "execution_id \<Rightarrow> store_error" where
  "no_authority i = Conflict (''execution '' @ i @ '' lacks durable interactive authority'')"

record idempotent_control =
  ic_request :: control_request
  ic_created :: bool

definition request_control ::
  "(string \<Rightarrow> string) \<Rightarrow> time \<Rightarrow> execution_id \<Rightarrow> control_action \<Rightarrow> string \<Rightarrow> idempotent_control tx" where
  "request_control dbtext dbnow i action key d =
     (if key = [] \<or> 255 < length key then Inl (Conflict ''idempotency key must be 1-255 bytes'')
      else and_then (ok_or (find_execution d i) (NotFound i)) (\<lambda>row.
        let execution = decode_execution row in
        case find (\<lambda>c. cr_execution_id c = i \<and> cr_idempotency_key c = key) (controls d) of
          Some stored \<Rightarrow>
            if cr_action stored \<noteq> action
            then Inl (IdempotencyConflict ''idempotency key was already used for another execution control'')
            else Inr (\<lparr>ic_request = decode_control_request i stored, ic_created = False\<rparr>, d)
        | None \<Rightarrow>
            if cancellation_pending d i
            then Inl (Conflict (''execution '' @ i @ '' has a pending cancellation''))
            else
              and_then (ok_or (ex_session_id execution) (no_authority i)) (\<lambda>session.
              and_then (project_controls
                 (sort_key cr_requested_at (sort_key cr_request_id
                    (filter (\<lambda>c. cr_execution_id c = i \<and> cr_completed_at c = None) (controls d))))
                 (ex_state execution, session, ex_version row))
                (\<lambda>(state, projected, version).
                if \<not> action_allowed action state
                then Inl (Conflict (''execution '' @ i @ '' cannot accept '' @ action_debug action
                       @ '' while '' @ state_debug state))
                else
                  and_then (ok_or (ex_worker_id execution) (no_authority i)) (\<lambda>worker.
                  and_then (ok_or (ex_attempt_id execution) (no_authority i)) (\<lambda>attempt.
                  and_then (ok_or (ex_worktree_path execution) (no_authority i)) (\<lambda>worktree.
                    let n = next_request_id d;
                        target = (if action = ForkConversation
                          then Some (projected @ ''-fork-'' @ show_nat n) else None);
                        inserted = \<lparr>cr_request_id = n, cr_execution_id = i, cr_action = action,
                          cr_idempotency_key = key, cr_accepted_worker_id = worker,
                          cr_accepted_attempt_id = attempt, cr_source_session_id = projected,
                          cr_worktree_path = worktree, cr_accepted_version = version,
                          cr_accepted_state = state, cr_target_session_id = target,
                          cr_side_effect_session_id = None, cr_phase = Accepted,
                          cr_stale_reason = None, cr_requested_at = dbnow,
                          cr_completed_at = None\<rparr> in
                    if sql_exists (\<lambda>c. cr_request_id c = n) (controls d)
                    then Inl (map_conflict (unique_violation dbtext ''execution_control_requests_pkey''))
                    else Inr (\<lparr>ic_request = decode_control_request i inserted, ic_created = True\<rparr>,
                      d\<lparr>controls := controls d @ [inserted], next_request_id := n + 1\<rparr>))))))))"

record pending_control =
  pn_request :: control_request
  pn_execution :: execution
  pn_phase :: control_phase
  pn_accepted_worker_id :: worker_id
  pn_accepted_attempt_id :: attempt_id
  pn_source_session_id :: session_id
  pn_worktree_path :: string
  pn_accepted_version :: nat
  pn_accepted_state :: execution_state
  pn_target_session_id :: "session_id option"
  pn_side_effect_session_id :: "session_id option"

definition list_pending_controls :: "worker_id \<Rightarrow> db \<Rightarrow> store_error + pending_control list" where
  "list_pending_controls worker d =
     try_map (\<lambda>(c, e).
         and_then (decode_control_phase (phase_text (cr_phase c))) (\<lambda>phase.
           Inr \<lparr>pn_request = decode_control_request (ex_id e) c, pn_execution = decode_execution e,
                pn_phase = phase, pn_accepted_worker_id = cr_accepted_worker_id c,
                pn_accepted_attempt_id = cr_accepted_attempt_id c,
                pn_source_session_id = cr_source_session_id c,
                pn_worktree_path = cr_worktree_path c,
                pn_accepted_version = cr_accepted_version c,
                pn_accepted_state = cr_accepted_state c,
                pn_target_session_id = cr_target_session_id c,
                pn_side_effect_session_id = cr_side_effect_session_id c\<rparr>))
       (sort_key (\<lambda>(c, e). cr_requested_at c) (sort_key (\<lambda>(c, e). cr_request_id c)
         [(c, e). c \<leftarrow> controls d, e \<leftarrow> executions d,
            ex_id e = cr_execution_id c \<and> cr_phase c \<notin> set [ControlCompleted, Stale]
            \<and> (cr_accepted_worker_id c = worker \<or> ex_worker_id e = Some worker)]))"

section \<open>Applying a control\<close>

definition stale_control :: "time \<Rightarrow> nat \<Rightarrow> string \<Rightarrow> db \<Rightarrow> db" where
  "stale_control dbnow n reason d =
     update_control n (\<lambda>c. c\<lparr>cr_phase := Stale, cr_stale_reason := Some reason,
       cr_completed_at := Some dbnow\<rparr>) d"

definition control_missing :: "nat \<Rightarrow> store_error" where
  "control_missing n = NotFound (''control request '' @ show_nat n)"

definition control_fenced :: "control_row \<Rightarrow> exec_row \<Rightarrow> worker_id \<Rightarrow> attempt_id \<Rightarrow> bool" where
  "control_fenced c current worker attempt \<longleftrightarrow>
     cr_accepted_worker_id c = worker \<and> cr_accepted_attempt_id c = attempt
     \<and> ex_worker_id current = Some (cr_accepted_worker_id c)
     \<and> ex_attempt_id current = Some (cr_accepted_attempt_id c)
     \<and> ex_session_id current = Some (cr_source_session_id c)
     \<and> ex_worktree_path current = Some (cr_worktree_path c)
     \<and> ex_version current = cr_accepted_version c
     \<and> ex_state current = cr_accepted_state c"

definition begin_control ::
  "time \<Rightarrow> nat \<Rightarrow> worker_id \<Rightarrow> attempt_id \<Rightarrow> (store_error + unit) tx" where
  "begin_control dbnow n worker attempt d =
     and_then (ok_or (find_control d n) (control_missing n)) (\<lambda>c.
     and_then (ok_or (find_execution d (cr_execution_id c)) Db) (\<lambda>current.
       if cr_phase c \<notin> set [Accepted, Applying, SideEffectApplied]
       then Inl (Conflict (''control request '' @ show_nat n @ '' is terminal: '' @ phase_text (cr_phase c)))
       else
         let fenced = control_fenced c current worker attempt;
             cancellation = cancellation_pending d (cr_execution_id c) in
         if \<not> fenced \<or> cancellation
         then Inr (Inl (Conflict ''accepted interactive control authority is stale''),
                stale_control dbnow n
                  (if cancellation then ''execution cancellation took precedence''
                   else ''accepted execution authority changed'') d)
         else Inr (Inr (),
                if cr_phase c = Accepted
                then update_control n (\<lambda>c. c\<lparr>cr_phase := Applying\<rparr>) d else d)))"

text \<open>The session a control leaves the execution in.\<close>

definition expected_session :: "control_row \<Rightarrow> store_error + session_id" where
  "expected_session c = (case cr_action c of
     ForkConversation \<Rightarrow> ok_or (cr_target_session_id c) (Conflict ''fork target session is missing'')
   | _ \<Rightarrow> Inr (cr_source_session_id c))"

definition mark_control_side_effect_applied ::
  "time \<Rightarrow> nat \<Rightarrow> session_id option \<Rightarrow> (store_error + unit) tx" where
  "mark_control_side_effect_applied dbnow n session d =
     and_then (ok_or (find_control d n) (control_missing n)) (\<lambda>c.
     and_then (ok_or (find_execution d (cr_execution_id c)) Db) (\<lambda>_.
       if cancellation_pending d (cr_execution_id c)
       then Inr (Inl (Conflict ''execution cancellation took precedence''),
              d\<lparr>controls := sql_update
                  (\<lambda>c. cr_request_id c = n \<and> cr_phase c \<notin> set [ControlCompleted, Stale])
                  (\<lambda>c. c\<lparr>cr_phase := Stale,
                         cr_stale_reason := Some ''execution cancellation took precedence'',
                         cr_completed_at := Some dbnow\<rparr>) (controls d)\<rparr>)
       else and_then (expected_session c) (\<lambda>expected.
         let supplied = (case session of Some s \<Rightarrow> s | None \<Rightarrow> expected) in
         if supplied \<noteq> expected
         then Inl (Conflict ''control side effect belongs to a different session'')
         else if cr_phase c = SideEffectApplied \<and> cr_side_effect_session_id c = Some expected
         then Inr (Inr (), d)
         else if cr_phase c \<noteq> Applying
         then Inl (Conflict (''control request '' @ show_nat n
                @ '' cannot record a side effect from '' @ phase_text (cr_phase c)))
         else Inr (Inr (), update_control n (\<lambda>c. c\<lparr>cr_phase := SideEffectApplied,
                cr_side_effect_session_id := Some expected\<rparr>) d))))"

definition control_target_state :: "control_row \<Rightarrow> execution_state" where
  "control_target_state c = (case cr_action c of
     Pause \<Rightarrow> PausedForHuman | Resume \<Rightarrow> Running | ForkConversation \<Rightarrow> cr_accepted_state c)"

definition event_matches_action :: "control_action \<Rightarrow> session_id \<Rightarrow> event_kind \<Rightarrow> bool" where
  "event_matches_action action session kind \<longleftrightarrow>
     (action = Pause \<and> kind = ExecutionPaused) \<or> (action = Resume \<and> kind = ExecutionResumed)
     \<or> (action = ForkConversation \<and> kind = ConversationForked session)"

definition complete_control ::
  "time \<Rightarrow> nat \<Rightarrow> execution \<Rightarrow> execution_event \<Rightarrow> (store_error + nat option) tx" where
  "complete_control dbnow n execution event d =
     (if ev_execution_id event \<noteq> ex_id execution \<or> ev_state event \<noteq> ex_state execution
         \<or> ev_attempt_id event \<noteq> ex_attempt_id execution \<or> ev_sequence event \<noteq> 0
      then Inl (Conflict ''interactive control progress and event identity do not match'')
      else and_then (ok_or (find_execution d (ex_id execution)) Db) (\<lambda>persisted.
      and_then (ok_or (find_control d n) (control_missing n)) (\<lambda>c.
        if cr_execution_id c \<noteq> ex_id execution
        then Inl (Conflict ''interactive control belongs to another execution'')
        else if cr_phase c = ControlCompleted then Inr (Inr None, d)
        else if cancellation_pending d (ex_id execution)
        then Inr (Inl (Conflict ''execution cancellation took precedence''),
               stale_control dbnow n ''execution cancellation took precedence'' d)
        else if cr_phase c \<noteq> SideEffectApplied
        then Inl (Conflict (''control request '' @ show_nat n
               @ '' cannot complete from '' @ phase_text (cr_phase c)))
        else and_then (expected_session c) (\<lambda>session.
          if cr_side_effect_session_id c \<noteq> Some session
          then Inl (Conflict ''control side effect session is not the accepted target'')
          else if ex_state execution \<noteq> control_target_state c
             \<or> ex_session_id execution \<noteq> Some session
             \<or> ex_worktree_path execution \<noteq> Some (cr_worktree_path c)
             \<or> \<not> event_matches_action (cr_action c) session (ev_kind event)
          then Inl (Conflict (''completed '' @ action_debug (cr_action c)
                 @ '' does not match its accepted state/session/worktree/event''))
          else if ex_worker_id persisted \<noteq> Some (cr_accepted_worker_id c)
             \<or> ex_attempt_id persisted \<noteq> Some (cr_accepted_attempt_id c)
             \<or> ex_session_id persisted \<noteq> Some (cr_source_session_id c)
             \<or> ex_worktree_path persisted \<noteq> ex_worktree_path execution
             \<or> ex_state persisted \<noteq> cr_accepted_state c
             \<or> ex_version persisted \<noteq> cr_accepted_version c
          then Inl (Conflict ''interactive control attempt authority changed'')
          else if cr_action c \<noteq> ForkConversation
             \<and> \<not> can_transition_to (ex_state persisted) (ex_state execution)
          then Inl (IllegalTransition (ex_state persisted) (ex_state execution))
          else
            let d1 = update_execution (ex_id execution)
                   (\<lambda>r. r\<lparr>ex_state := ex_state execution, ex_session_id := ex_session_id execution,
                          ex_updated_at := ex_updated_at execution,
                          ex_version := ex_version r + 1\<rparr>) d;
                d2 = d1\<lparr>attempts := sql_update
                   (\<lambda>a. at_execution_id a = ex_id execution
                      \<and> Some (at_attempt_id a) = ex_attempt_id execution \<and> at_finished_at a = None)
                   (\<lambda>a. a\<lparr>at_state := ex_state execution, at_session_id := ex_session_id execution,
                          at_updated_at := ex_updated_at execution\<rparr>) (attempts d1)\<rparr> in
            and_then (append_in_transaction event d2) (\<lambda>(sequence, d3).
              Inr (Inr (Some sequence),
                update_control n (\<lambda>c. c\<lparr>cr_phase := ControlCompleted,
                  cr_completed_at := Some (ex_updated_at execution)\<rparr>) d3))))))"

section \<open>Attaching\<close>

record execution_attachment =
  ea_execution_id :: execution_id
  ea_state :: execution_state
  ea_session_id :: session_id
  ea_workspace_ref :: string
  ea_event_cursor :: nat

definition attachment_snapshot :: "execution_id \<Rightarrow> db \<Rightarrow> store_error + execution_attachment" where
  "attachment_snapshot i d =
     and_then (ok_or (find_execution d i) (NotFound i)) (\<lambda>row.
       let execution = decode_execution row;
           active = ex_state execution \<in> set [Running, PausedForHuman]
             \<and> ex_worker_id execution \<noteq> None \<and> ex_attempt_id execution \<noteq> None;
           retained = ex_state execution = ReviewReady
             \<and> map_option ca_phase (find_cleanup d i) = Some ''RETAINED'' in
       if \<not> active \<and> \<not> retained
       then Inl (Conflict (''execution '' @ i @ '' has no live or retained attachment authority''))
       else and_then (ok_or (ex_session_id execution)
              (Conflict (''execution '' @ i @ '' lacks an attachable session''))) (\<lambda>session.
         if ex_worktree_path execution = None
         then Inl (Conflict (''execution '' @ i @ '' lacks an attachable workspace''))
         else Inr \<lparr>ea_execution_id = i, ea_state = ex_state execution, ea_session_id = session,
                   ea_workspace_ref = ''execution:'' @ i @ '':workspace'',
                   ea_event_cursor = latest_sequence i d\<rparr>))"

section \<open>What the operations keep\<close>

lemma update_control_frame [simp]:
  "executions (update_control n f d) = executions d" "events (update_control n f d) = events d"
  "workers (update_control n f d) = workers d" "reservations (update_control n f d) = reservations d"
  "attempts (update_control n f d) = attempts d" "cleanups (update_control n f d) = cleanups d"
  "requests (update_control n f d) = requests d" "cancellations (update_control n f d) = cancellations d"
  "controls (update_control n f d) = sql_update (\<lambda>c. cr_request_id c = n) f (controls d)"
  "next_request_id (update_control n f d) = next_request_id d"
  by (simp_all add: update_control_def)

lemma stale_control_frame [simp]:
  "executions (stale_control t n m d) = executions d" "events (stale_control t n m d) = events d"
  "workers (stale_control t n m d) = workers d" "reservations (stale_control t n m d) = reservations d"
  "attempts (stale_control t n m d) = attempts d" "cleanups (stale_control t n m d) = cleanups d"
  by (simp_all add: stale_control_def)

text \<open>Accepting, beginning and marking a control change the table of controls only.\<close>

lemma control_only:
  assumes "\<exists>cs k. d' = d\<lparr>controls := cs, next_request_id := k\<rparr>" and "store_ok d"
  shows "good_step d d'"
  using assms by (auto intro!: good_other simp: same_rules)

lemma request_control_shape:
  assumes "request_control dbtext t i action key d = Inr (res, d')"
  shows "d' = d \<or> (\<exists>c. d' = d\<lparr>controls := controls d @ [c], next_request_id := next_request_id d + 1\<rparr>)"
proof -
  obtain row where row: "find_execution d i = Some row"
    using assms by (auto simp: request_control_def and_then_Inr_iff ok_or_Inr_iff split: if_splits)
  show ?thesis
  proof (cases "find (\<lambda>c. cr_execution_id c = i \<and> cr_idempotency_key c = key) (controls d)")
    case (Some c)
    with assms row show ?thesis
      by (auto simp: request_control_def ok_or_def Let_def split: if_splits)
  next
    case None
    with assms row show ?thesis
      by (auto simp: request_control_def ok_or_Inr_iff and_then_Inr_iff Let_def split: if_splits)
  qed
qed

lemma db_controls_self: "d = d\<lparr>controls := controls d, next_request_id := next_request_id d\<rparr>"
  by simp

lemma request_control_good:
  assumes "request_control dbtext t i action key d = Inr (res, d')" and "store_ok d"
  shows "good_step d d'"
proof (rule control_only [OF _ assms(2)])
  show "\<exists>cs k. d' = d\<lparr>controls := cs, next_request_id := k\<rparr>"
    using request_control_shape [OF assms(1)] db_controls_self by blast
qed

lemma update_control_only: "\<exists>cs k. update_control n f d = d\<lparr>controls := cs, next_request_id := k\<rparr>"
  by (rule exI [of _ "sql_update (\<lambda>c. cr_request_id c = n) f (controls d)"],
      rule exI [of _ "next_request_id d"]) (simp add: update_control_def)

lemma begin_control_good:
  assumes "begin_control t n worker attempt d = Inr (res, d')" and "store_ok d"
  shows "good_step d d'"
proof -
  have "d' = d \<or> (\<exists>f. d' = update_control n f d)"
    using assms(1)
    by (auto simp: begin_control_def and_then_Inr_iff Let_def stale_control_def split: if_splits)
  then show ?thesis
    using control_only [OF _ assms(2)] update_control_only db_controls_self by metis
qed

lemma mark_control_good:
  assumes "mark_control_side_effect_applied t n session d = Inr (res, d')" and "store_ok d"
  shows "good_step d d'"
proof -
  have "\<exists>cs. d' = d\<lparr>controls := cs\<rparr>"
    using assms(1) exI [of "\<lambda>cs. d = d\<lparr>controls := cs\<rparr>" "controls d"]
    by (auto simp: mark_control_side_effect_applied_def and_then_Inr_iff Let_def update_control_def
        split: if_splits)
  then obtain cs where "d' = d\<lparr>controls := cs\<rparr>" by blast
  then have "d' = d\<lparr>controls := cs, next_request_id := next_request_id d\<rparr>" by simp
  then show ?thesis by (intro control_only [OF _ assms(2)]) blast
qed

lemma complete_control_shape:
  assumes "complete_control t n e ev d = Inr (res, d')"
  obtains "d' = d" "res = Inr None"
  | x where "d' = stale_control t n ''execution cancellation took precedence'' d" "res = Inl x"
  | row c d3 m session where "find_execution d (ex_id e) = Some row" "find_control d n = Some c"
      "cr_execution_id c = ex_id e" "cr_phase c = SideEffectApplied"
      "\<not> cancellation_pending d (ex_id e)"
      "expected_session c = Inr session" "cr_side_effect_session_id c = Some session"
      "ex_session_id e = Some session" "ex_worktree_path e = Some (cr_worktree_path c)"
      "event_matches_action (cr_action c) session (ev_kind ev)"
      "ex_worker_id row = Some (cr_accepted_worker_id c)"
      "ex_attempt_id row = Some (cr_accepted_attempt_id c)"
      "ex_session_id row = Some (cr_source_session_id c)"
      "ex_state row = cr_accepted_state c" "ex_version row = cr_accepted_version c"
      "ex_state e = control_target_state c"
      "cr_action c = ForkConversation \<or> can_transition_to (ex_state row) (ex_state e)"
      "append_in_transaction ev ((update_execution (ex_id e)
          (\<lambda>r. r\<lparr>ex_state := ex_state e, ex_session_id := ex_session_id e,
                 ex_updated_at := ex_updated_at e, ex_version := ex_version r + 1\<rparr>) d)\<lparr>attempts :=
          sql_update (\<lambda>a. at_execution_id a = ex_id e \<and> Some (at_attempt_id a) = ex_attempt_id e
               \<and> at_finished_at a = None)
            (\<lambda>a. a\<lparr>at_state := ex_state e, at_session_id := ex_session_id e,
                   at_updated_at := ex_updated_at e\<rparr>) (attempts d)\<rparr>) = Inr (m, d3)"
      "d' = update_control n (\<lambda>c. c\<lparr>cr_phase := ControlCompleted,
             cr_completed_at := Some (ex_updated_at e)\<rparr>) d3" "res = Inr (Some m)"
proof -
  obtain row c where row: "find_execution d (ex_id e) = Some row" and c: "find_control d n = Some c"
    using assms by (auto simp: complete_control_def and_then_Inr_iff ok_or_Inr_iff split: if_splits)
  note main = assms [unfolded complete_control_def, simplified row c ok_or_def
      and_then_simps option.case]
  consider "cr_phase c = ControlCompleted" | "cr_phase c \<noteq> ControlCompleted" "cancellation_pending d (ex_id e)"
    | "cr_phase c \<noteq> ControlCompleted" "\<not> cancellation_pending d (ex_id e)" by blast
  then show ?thesis
  proof cases
    case 1
    with main that(1) show ?thesis by (auto split: if_splits)
  next
    case 2
    with main that(2) show ?thesis by (auto split: if_splits)
  next
    case 3
    with main obtain session where session: "expected_session c = Inr session"
      by (auto simp: and_then_Inr_iff split: if_splits)
    note main3 = main [simplified session and_then_simps]
    then obtain m d3 where app: "append_in_transaction ev ((update_execution (ex_id e)
          (\<lambda>r. r\<lparr>ex_state := ex_state e, ex_session_id := ex_session_id e,
                 ex_updated_at := ex_updated_at e, ex_version := ex_version r + 1\<rparr>) d)\<lparr>attempts :=
          sql_update (\<lambda>a. at_execution_id a = ex_id e \<and> Some (at_attempt_id a) = ex_attempt_id e
               \<and> at_finished_at a = None)
            (\<lambda>a. a\<lparr>at_state := ex_state e, at_session_id := ex_session_id e,
                   at_updated_at := ex_updated_at e\<rparr>) (attempts d)\<rparr>) = Inr (m, d3)"
        "d' = update_control n (\<lambda>c. c\<lparr>cr_phase := ControlCompleted,
             cr_completed_at := Some (ex_updated_at e)\<rparr>) d3" "res = Inr (Some m)"
      using 3 by (auto simp: Let_def and_then_Inr_iff split: if_splits)
    show ?thesis
      by (rule that(3) [OF row c _ _ 3(2) session _ _ _ _ _ _ _ _ _ _ _ app])
        (use 3 main3 in \<open>auto split: if_splits\<close>)
  qed
qed

lemma complete_control_good:
  assumes "complete_control t n e ev d = Inr (res, d')" and ok: "store_ok d"
  shows "good_step d d'"
proof (rule complete_control_shape [OF assms(1)])
  assume "d' = d"
  then show ?thesis by (intro good_other [OF ok]) (simp_all add: same_rules)
next
  assume "d' = stale_control t n ''execution cancellation took precedence'' d"
  then show ?thesis by (intro good_other [OF ok]) (simp_all add: same_rules)
next
  fix row c d3 m session
  assume row: "find_execution d (ex_id e) = Some row"
    and own: "ex_worker_id row = Some (cr_accepted_worker_id c)"
    and state: "ex_state row = cr_accepted_state c" "ex_state e = control_target_state c"
      "cr_action c = ForkConversation \<or> can_transition_to (ex_state row) (ex_state e)"
    and app: "append_in_transaction ev ((update_execution (ex_id e)
          (\<lambda>r. r\<lparr>ex_state := ex_state e, ex_session_id := ex_session_id e,
                 ex_updated_at := ex_updated_at e, ex_version := ex_version r + 1\<rparr>) d)\<lparr>attempts :=
          sql_update (\<lambda>a. at_execution_id a = ex_id e \<and> Some (at_attempt_id a) = ex_attempt_id e
               \<and> at_finished_at a = None)
            (\<lambda>a. a\<lparr>at_state := ex_state e, at_session_id := ex_session_id e,
                   at_updated_at := ex_updated_at e\<rparr>) (attempts d)\<rparr>) = Inr (m, d3)"
    and d': "d' = update_control n (\<lambda>c. c\<lparr>cr_phase := ControlCompleted,
             cr_completed_at := Some (ex_updated_at e)\<rparr>) d3"
  note tables = append_frame [OF app, simplified]
  have links: "links_ok d" using ok by (simp add: store_ok_def)
  have "log_step d d3" by (rule log_step_append [OF app]) simp
  then have log: "log_step d d'" by (rule log_step_eq) (simp add: d')
  have change: "ex_state e = ex_state row \<or> can_transition_to (ex_state row) (ex_state e)"
    using state by (auto simp: control_target_state_def)
  have que: "ex_state e \<noteq> Queued"
    using change queued_unassigned [OF links row] own not_into_Queued by (auto simp: unassigned_def)
  show ?thesis
    by (rule good_update_attempts [OF ok row, where p = "\<lambda>r. ex_id r = ex_id e"
        and f = "\<lambda>r. r\<lparr>ex_state := ex_state e, ex_session_id := ex_session_id e,
                 ex_updated_at := ex_updated_at e, ex_version := ex_version r + 1\<rparr>"
        and q = "\<lambda>a. at_execution_id a = ex_id e \<and> Some (at_attempt_id a) = ex_attempt_id e
               \<and> at_finished_at a = None"
        and g = "\<lambda>a. a\<lparr>at_state := ex_state e, at_session_id := ex_session_id e,
                   at_updated_at := ex_updated_at e\<rparr>"])
      (use log que change in \<open>auto simp: d' tables row_step_def state_change_ok_def intro: same_rules\<close>)
qed

end
