(* ===== verification/Reservation_Store.thy ===== *)
theory Reservation_Store
  imports Execution_Store Cleanup_Store Worker_Store
begin

text \<open>
  \<open>orchestrator-persistence/src/reservations.rs\<close>: claiming work for a worker, giving its
  capacity back, fencing the attempts of lost workers, and finalising their cleanup.

  \<open>skipped\<close> tells the rows another transaction holds at that moment (\<open>SKIP LOCKED\<close>), \<open>uuid\<close>
  is the fresh identifier drawn for the attempt.
\<close>

record reservation =
  rz_execution :: execution
  rz_worker_id :: worker_id
  rz_attempt_id :: attempt_id
  rz_cpu :: u32
  rz_memory_mib :: u64

datatype lost_worker_recovery =
    RecoveryCleanupPending execution_id
  | RecoveryRequeued execution_id
  | RecoveryReviewReady execution_id
  | RecoveryFailed execution_id

section \<open>Claiming work\<close>

text \<open>\<open>COALESCE(SUM(...), 0)::BIGINT\<close>: the cast fails beyond the range of the type.\<close>

definition sum_bigint :: "int list \<Rightarrow> store_error + int" where
  "sum_bigint xs = (let s = sum_list xs in if - (2 ^ 63) \<le> s \<and> s < 2 ^ 63 then Inr s else Inl Db)"

definition reserved_on :: "worker_id \<Rightarrow> db \<Rightarrow> store_error + reserved_resources" where
  "reserved_on worker d =
     (let mine = filter (\<lambda>r. rn_worker_id r = worker) (reservations d) in
      and_then (sum_bigint (map rn_cpu mine)) (\<lambda>cpu.
      and_then (sum_bigint (map rn_memory_mib mine)) (\<lambda>memory.
      and_then (sum_bigint (map rn_disk_gib mine)) (\<lambda>disk.
      and_then (ok_or (u32_try_from (int (length mine))) (Conflict ''invalid reservation count'')) (\<lambda>slots.
      and_then (ok_or (u32_try_from cpu) (Conflict ''invalid reserved cpu'')) (\<lambda>used_cpu.
      and_then (ok_or (u64_try_from memory) (Conflict ''invalid reserved memory'')) (\<lambda>used_memory.
      and_then (ok_or (u64_try_from disk) (Conflict ''invalid reserved disk'')) (\<lambda>used_disk.
        Inr \<lparr>rv_slots = slots, rv_cpu = used_cpu, rv_memory_mib = used_memory,
             rv_disk_gib = used_disk\<rparr>))))))))"

definition claimable :: "db \<Rightarrow> exec_row \<Rightarrow> bool" where
  "claimable d e \<longleftrightarrow>
     ex_state e = Queued \<and> \<not> cancellation_pending d (ex_id e)
     \<and> \<not> sql_exists (\<lambda>c. ca_execution_id c = ex_id e \<and> ca_phase c \<noteq> ''RESOLVED'') (cleanups d)"

definition queue_order :: "(string \<Rightarrow> string) \<Rightarrow> (exec_row \<Rightarrow> bool) \<Rightarrow> db \<Rightarrow> exec_row list" where
  "queue_order coll skipped d =
     sort_key ex_created_at (sort_key (\<lambda>e. coll (ex_id e))
       (filter (\<lambda>e. claimable d e \<and> \<not> skipped e) (executions d)))"

text \<open>The three writes of a claim that have constraints of their own.\<close>

definition insert_reservation :: "reservation_row \<Rightarrow> unit tx" where
  "insert_reservation r d =
     (if sql_exists (\<lambda>s. rn_execution_id s = rn_execution_id r \<or> rn_attempt_id s = rn_attempt_id r)
           (reservations d)
         \<or> \<not> 0 < rn_cpu r \<or> \<not> 0 < rn_memory_mib r \<or> \<not> 0 \<le> rn_disk_gib r
      then Inl Db
      else Inr ((), d\<lparr>reservations := reservations d @ [r]\<rparr>))"

definition insert_attempt :: "attempt_row \<Rightarrow> unit tx" where
  "insert_attempt a d =
     (if sql_exists (\<lambda>b. at_attempt_id b = at_attempt_id a) (attempts d)
         \<or> at_finished_at a = None \<and> sql_exists (\<lambda>b. at_execution_id b = at_execution_id a
             \<and> at_finished_at b = None) (attempts d)
      then Inl Db
      else Inr ((), d\<lparr>attempts := attempts d @ [a]\<rparr>))"

definition take_slot :: "time \<Rightarrow> worker_id \<Rightarrow> unit tx" where
  "take_slot dbnow worker d =
     (if sql_exists (\<lambda>r. wk_id r = worker \<and> 2 ^ 31 - 1 \<le> wk_running r) (workers d) then Inl Db
      else Inr ((), d\<lparr>workers := sql_update (\<lambda>r. wk_id r = worker)
             (\<lambda>r. r\<lparr>wk_running := wk_running r + 1, wk_updated_at := dbnow\<rparr>) (workers d)\<rparr>))"

definition reserve_next ::
  "clock \<Rightarrow> (string \<Rightarrow> string) \<Rightarrow> (exec_row \<Rightarrow> bool) \<Rightarrow> string \<Rightarrow> worker_id \<Rightarrow> reservation option tx" where
  "reserve_next ck coll skipped uuid worker d =
     and_then (ok_or (find_worker d worker) (NotFound worker)) (\<lambda>worker_row.
     and_then (decode_worker worker_row) (\<lambda>w.
     and_then (reserved_on worker d) (\<lambda>reserved.
     if wr_state w \<noteq> Ready \<or> \<not> has_complete_proof w
        \<or> wc_max_concurrent (wr_capabilities w) \<le> rv_slots reserved
     then Inr (None, d)
     else case find (\<lambda>e. worker_fits_with_reservations w (mf_runtime (ex_manifest e)) reserved)
                 (map decode_execution (queue_order coll skipped d)) of
       None \<Rightarrow> Inr (None, d)
     | Some execution \<Rightarrow>
         let attempt = ''attempt-'' @ uuid;
             runtime = mf_runtime (ex_manifest execution) in
         and_then (ok_or (i32_try_from (rq_cpu runtime))
             (Conflict ''execution cpu exceeds PostgreSQL INTEGER'')) (\<lambda>cpu.
         and_then (ok_or (i64_try_from (rq_memory_mib runtime))
             (Conflict ''execution memory exceeds PostgreSQL BIGINT'')) (\<lambda>memory.
         and_then (ok_or (i64_try_from (rq_disk_gib runtime))
             (Conflict ''execution disk exceeds PostgreSQL BIGINT'')) (\<lambda>disk.
         and_then (insert_reservation
             \<lparr>rn_execution_id = ex_id execution, rn_worker_id = worker, rn_attempt_id = attempt,
              rn_cpu = cpu, rn_memory_mib = memory, rn_disk_gib = disk, rn_created_at = ck_db ck\<rparr> d)
           (\<lambda>(_, d1).
         case execution_transition (ck_utc ck) WorkerAssigned execution of
           Inl _ \<Rightarrow> Inl (IllegalTransition Queued WorkerAssigned)
         | Inr moved \<Rightarrow>
             let assigned = moved\<lparr>ex_worker_id := Some worker, ex_attempt_id := Some attempt,
                   ex_labels := (ex_labels moved)\<lparr>ol_worker_id := worker\<rparr>\<rparr>;
                 d2 = update_execution (ex_id assigned)
                   (\<lambda>r. r\<lparr>ex_state := WorkerAssigned, ex_worker_id := Some worker,
                          ex_attempt_id := Some attempt, ex_updated_at := ex_updated_at assigned,
                          ex_labels := ex_labels assigned, ex_version := ex_version r + 1\<rparr>) d1 in
             and_then (insert_attempt
                 \<lparr>at_attempt_id = attempt, at_execution_id = ex_id assigned, at_worker_id = worker,
                  at_state = WorkerAssigned, at_worktree_path = None, at_session_id = None,
                  at_result = None, at_started_at = ck_db ck, at_updated_at = ck_db ck,
                  at_finished_at = None\<rparr> d2) (\<lambda>(_, d3).
             and_then (take_slot (ck_db ck) worker d3) (\<lambda>(_, d4).
               Inr (Some \<lparr>rz_execution = assigned, rz_worker_id = worker, rz_attempt_id = attempt,
                          rz_cpu = rq_cpu runtime, rz_memory_mib = rq_memory_mib runtime\<rparr>, d4))))))))))"

section \<open>Giving capacity back\<close>

text \<open>\<open>running_executions = GREATEST(running_executions - 1, 0)\<close>\<close>

definition free_slot :: "time \<Rightarrow> worker_id \<Rightarrow> db \<Rightarrow> db" where
  "free_slot dbnow worker d =
     d\<lparr>workers := sql_update (\<lambda>r. wk_id r = worker)
         (\<lambda>r. r\<lparr>wk_running := max (wk_running r - 1) 0, wk_updated_at := dbnow\<rparr>) (workers d)\<rparr>"

definition delete_reservations :: "(reservation_row \<Rightarrow> bool) \<Rightarrow> db \<Rightarrow> db" where
  "delete_reservations p d = d\<lparr>reservations := sql_delete p (reservations d)\<rparr>"

definition release :: "time \<Rightarrow> execution_id \<Rightarrow> unit tx" where
  "release dbnow i d =
     (let d1 = delete_reservations (\<lambda>r. rn_execution_id r = i) d in
      case find (\<lambda>r. rn_execution_id r = i) (reservations d) of
        Some r \<Rightarrow> Inr ((), free_slot dbnow (rn_worker_id r) d1)
      | None \<Rightarrow> Inr ((), d1))"

definition release_attempt :: "time \<Rightarrow> execution_id \<Rightarrow> attempt_id \<Rightarrow> bool tx" where
  "release_attempt dbnow i attempt d =
     (let p = (\<lambda>r. rn_execution_id r = i \<and> rn_attempt_id r = attempt);
          d1 = delete_reservations p d in
      case find p (reservations d) of
        Some r \<Rightarrow> Inr (True, free_slot dbnow (rn_worker_id r) d1)
      | None \<Rightarrow> Inr (False, d1))"

definition commit_retained_and_release_capacity ::
  "time \<Rightarrow> execution_id \<Rightarrow> attempt_id \<Rightarrow> unit tx" where
  "commit_retained_and_release_capacity dbnow i attempt d =
     and_then (ok_or (find_execution d i) (NotFound i)) (\<lambda>row.
     let execution = decode_execution row in
     if cancellation_pending d i then Inl (Conflict (pending_message i))
     else if ex_state execution \<noteq> ReviewReady \<or> mf_persistence (ex_manifest execution) \<noteq> Resumable
             \<or> ex_attempt_id execution \<noteq> Some attempt
     then Inl (Conflict (''execution '' @ i @ '' is not resumable ReviewReady authority for '' @ attempt))
     else
       and_then (ok_or (find (\<lambda>c. ca_execution_id c = i \<and> ca_attempt_id c = attempt) (cleanups d))
           (NotFound i)) (\<lambda>authority.
       let phase = ca_phase authority; worker = ca_worker_id authority in
       if phase \<noteq> ''RETAIN_REQUESTED'' \<and> phase \<noteq> ''RETAINED''
       then Inl (Conflict (''cleanup authority is '' @ phase @ '', expected RETAIN_REQUESTED or RETAINED''))
       else if \<not> sql_exists (\<lambda>a. at_attempt_id a = attempt \<and> at_execution_id a = i
                 \<and> at_worker_id a = worker) (attempts d)
       then Inl (Conflict (''attempt '' @ attempt @ '' authority is absent''))
       else if find_worker d worker = None then Inl (NotFound worker)
       else
         let p = (\<lambda>r. rn_execution_id r = i \<and> rn_attempt_id r = attempt);
             reservation = find p (reservations d);
             d1 = delete_reservations p d;
             retain = (\<lambda>d. d\<lparr>cleanups := sql_update
               (\<lambda>c. ca_execution_id c = i \<and> ca_attempt_id c = attempt
                  \<and> ca_phase c \<in> set [''RETAIN_REQUESTED'', ''RETAINED''])
               (\<lambda>c. c\<lparr>ca_phase := ''RETAINED'', ca_updated_at := dbnow\<rparr>) (cleanups d)\<rparr>) in
         if phase = ''RETAIN_REQUESTED'' \<and> reservation = None
         then Inl (Conflict ''retention request lost its reservation before atomic commit'')
         else case reservation of
           Some r \<Rightarrow>
             if rn_worker_id r \<noteq> worker
             then Inl (Conflict ''retention reservation belongs to another worker'')
             else Inr ((), retain (free_slot dbnow worker d1))
         | None \<Rightarrow> Inr ((), retain d1)))"

text \<open>
  The query of \<open>list_for_worker\<close> and \<open>recover_unreachable\<close>: the reservations of a worker with
  their executions, oldest first.
\<close>

definition worker_reservations ::
  "(string \<Rightarrow> string) \<Rightarrow> worker_id \<Rightarrow> db \<Rightarrow> (reservation_row \<times> exec_row) list" where
  "worker_reservations coll worker d =
     sort_key (\<lambda>(r, e). rn_created_at r) (sort_key (\<lambda>(r, e). coll (rn_execution_id r))
       [(r, e). r \<leftarrow> reservations d, e \<leftarrow> executions d,
                rn_worker_id r = worker \<and> ex_id e = rn_execution_id r])"

definition reservations_for_worker ::
  "(string \<Rightarrow> string) \<Rightarrow> worker_id \<Rightarrow> db \<Rightarrow> store_error + reservation list" where
  "reservations_for_worker coll worker d =
     try_map (\<lambda>(r, e).
         and_then (ok_or (u32_try_from (rn_cpu r)) (Conflict ''invalid reserved cpu'')) (\<lambda>cpu.
         and_then (ok_or (u64_try_from (rn_memory_mib r)) (Conflict ''invalid reserved memory'')) (\<lambda>memory.
           Inr \<lparr>rz_execution = decode_execution e, rz_worker_id = rn_worker_id r,
                rz_attempt_id = rn_attempt_id r, rz_cpu = cpu, rz_memory_mib = memory\<rparr>)))
       (worker_reservations coll worker d)"

text \<open>
  \<open>reconcile\<close> reads the reserved executions (\<open>seen\<close>) and then releases, one transaction each,
  those that are not live.
\<close>

definition reconcile :: "time \<Rightarrow> db \<Rightarrow> execution_id list \<Rightarrow> execution_id list tx" where
  "reconcile dbnow seen live d =
     (let dead = filter (\<lambda>i. i \<notin> set live) (map rn_execution_id (reservations seen)) in
      and_then (fold (\<lambda>i acc. and_then acc (\<lambda>(_, d). release dbnow i d)) dead (Inr ((), d)))
        (\<lambda>(_, d'). Inr (dead, d')))"

section \<open>Lost workers\<close>

definition worker_state_text :: "worker_state \<Rightarrow> string" where
  "worker_state_text s = (case s of Ready \<Rightarrow> ''READY'' | Draining \<Rightarrow> ''DRAINING''
     | Unreachable \<Rightarrow> ''UNREACHABLE'' | Offline \<Rightarrow> ''OFFLINE'')"

text \<open>The attempt is finished as lost, if it is still open; the number of rows it hits.\<close>

definition lost_attempt :: "execution_id \<Rightarrow> attempt_id \<Rightarrow> worker_id \<Rightarrow> attempt_row \<Rightarrow> bool" where
  "lost_attempt i attempt worker a \<longleftrightarrow>
     at_attempt_id a = attempt \<and> at_execution_id a = i \<and> at_worker_id a = worker
     \<and> at_finished_at a = None"

definition fence_attempt ::
  "time \<Rightarrow> execution_id \<Rightarrow> attempt_id \<Rightarrow> worker_id \<Rightarrow> db \<Rightarrow> nat \<times> db" where
  "fence_attempt dbnow i attempt worker d =
     (rows_affected (lost_attempt i attempt worker) (attempts d),
      d\<lparr>attempts := sql_update (lost_attempt i attempt worker)
          (\<lambda>a. a\<lparr>at_state := Failed, at_result := Some (lost_result i), at_updated_at := dbnow,
                 at_finished_at := Some dbnow\<rparr>) (attempts d)\<rparr>)"

text \<open>
  \<open>INSERT INTO cleanup_authorities ... ON CONFLICT (execution_id) DO UPDATE ... WHERE\<close>: the
  authority of the same attempt falls back to cleanup pending unless its cleanup has begun.
\<close>

definition upsert_cleanup_pending ::
  "time \<Rightarrow> execution_id \<Rightarrow> attempt_id \<Rightarrow> worker_id \<Rightarrow> db \<Rightarrow> db" where
  "upsert_cleanup_pending dbnow i attempt worker d =
     (if sql_exists (\<lambda>c. ca_execution_id c = i) (cleanups d)
      then d\<lparr>cleanups := sql_update
             (\<lambda>c. ca_execution_id c = i \<and> ca_attempt_id c = attempt \<and> ca_worker_id c = worker
                \<and> ca_phase c \<notin> set [''RUNTIME_STOPPED'', ''RUNTIME_DESTROYED'', ''GIT_RECOVERED_CLEANED'',
                    ''STORAGE_RELEASED'', ''RESERVATION_RELEASED'', ''RESOLVED''])
             (\<lambda>c. c\<lparr>ca_phase := ''CLEANUP_PENDING'', ca_updated_at := dbnow\<rparr>) (cleanups d)\<rparr>
      else d\<lparr>cleanups := cleanups d @
             [\<lparr>ca_execution_id = i, ca_attempt_id = attempt, ca_worker_id = worker,
               ca_phase = ''CLEANUP_PENDING'', ca_handles = JObject [],
               ca_created_at = dbnow, ca_updated_at = dbnow\<rparr>]\<rparr>)"

fun recover_rows ::
  "time \<Rightarrow> worker_id \<Rightarrow> (reservation_row \<times> exec_row) list \<Rightarrow> db \<Rightarrow> lost_worker_recovery list \<times> db" where
  "recover_rows dbnow worker [] d = ([], d)"
| "recover_rows dbnow worker ((r, e) # rows) d =
     (let (hit, d1) = fence_attempt dbnow (ex_id e) (rn_attempt_id r) worker d in
      if hit \<noteq> 1 then recover_rows dbnow worker rows d1
      else
        let (recovered, d2) = recover_rows dbnow worker rows
              (upsert_cleanup_pending dbnow (ex_id e) (rn_attempt_id r) worker d1) in
        (RecoveryCleanupPending (ex_id e) # recovered, d2))"

definition recover_unreachable ::
  "time \<Rightarrow> (string \<Rightarrow> string) \<Rightarrow> worker_id \<Rightarrow> lost_worker_recovery list tx" where
  "recover_unreachable dbnow coll worker d =
     and_then (ok_or (find_worker d worker) (NotFound worker)) (\<lambda>row.
       if wk_state row \<noteq> Unreachable
       then Inl (Conflict (''worker '' @ worker @ '' is '' @ worker_state_text (wk_state row)
              @ '', not UNREACHABLE''))
       else Inr (recover_rows dbnow worker (worker_reservations coll worker d) d))"

definition fence_lost_attempt ::
  "time \<Rightarrow> execution_id \<Rightarrow> attempt_id \<Rightarrow> lost_worker_recovery tx" where
  "fence_lost_attempt dbnow i attempt d =
     (let changed = Conflict (''startup authority changed for '' @ i @ ''/'' @ attempt) in
      and_then (ok_or (find_execution d i) changed) (\<lambda>execution.
      if ex_attempt_id execution \<noteq> Some attempt
         \<or> \<not> sql_exists (\<lambda>r. rn_execution_id r = i \<and> rn_attempt_id r = attempt) (reservations d)
      then Inl changed
      else and_then (ok_or (ex_worker_id execution)
             (Conflict ''startup-fenced execution lacks worker authority'')) (\<lambda>worker.
        let (hit, d1) = fence_attempt dbnow i attempt worker d in
        if hit \<noteq> 1 then
          (let phase = map_option ca_phase (find (\<lambda>c. ca_execution_id c = i \<and> ca_attempt_id c = attempt
                 \<and> ca_worker_id c = worker
                 \<and> sql_exists (\<lambda>a. at_attempt_id a = ca_attempt_id c \<and> at_finished_at a \<noteq> None)
                     (attempts d1)) (cleanups d1)) in
           if phase \<in> Some ` set [''CLEANUP_PENDING'', ''RUNTIME_STOPPED'', ''RUNTIME_DESTROYED'',
                 ''GIT_RECOVERED_CLEANED'', ''STORAGE_RELEASED'', ''RESERVATION_RELEASED'', ''RESOLVED'']
           then Inr (RecoveryCleanupPending i, d1)
           else Inl (Conflict (''attempt '' @ attempt
                  @ '' was already fenced without exact cleanup authority'')))
        else Inr (RecoveryCleanupPending i, upsert_cleanup_pending dbnow i attempt worker d1))))"

section \<open>Finalising a cleanup\<close>

definition cleanup_outcome :: "execution \<Rightarrow> lost_worker_recovery" where
  "cleanup_outcome e =
     (if ex_state e = ReviewReady then RecoveryReviewReady (ex_id e)
      else if \<not> is_terminal (ex_state e) \<and> mf_persistence (ex_manifest e) = Resumable
      then RecoveryRequeued (ex_id e)
      else RecoveryFailed (ex_id e))"

text \<open>The state a finalised execution is left in, its result, and the event of the change.\<close>

definition finalize_lost :: "bool \<Rightarrow> execution \<Rightarrow> bool" where
  "finalize_lost pending e \<longleftrightarrow> \<not> is_terminal (ex_state e) \<and> \<not> pending"

definition finalize_resumable :: "bool \<Rightarrow> execution \<Rightarrow> bool" where
  "finalize_resumable pending e \<longleftrightarrow>
     finalize_lost pending e \<and> ex_state e \<noteq> ReviewReady \<and> mf_persistence (ex_manifest e) = Resumable"

definition finalize_next :: "bool \<Rightarrow> execution \<Rightarrow> execution_state" where
  "finalize_next pending e =
     (if ex_state e = ReviewReady then ReviewReady
      else if finalize_resumable pending e then Queued
      else if finalize_lost pending e then Failed
      else ex_state e)"

definition finalize_result :: "bool \<Rightarrow> execution \<Rightarrow> execution_result option" where
  "finalize_result pending e =
     (if ex_state e = ReviewReady then ex_result e
      else if finalize_resumable pending e then None
      else if finalize_lost pending e then Some (lost_result (ex_id e))
      else ex_result e)"

definition finalize_kind :: "execution_state \<Rightarrow> execution \<Rightarrow> store_error + event_kind" where
  "finalize_kind nxt e = (case nxt of
     Queued \<Rightarrow> Inr (ExecutionRequeued WorkerLost)
   | ReviewReady \<Rightarrow> Inr ReviewReadyEvent
   | Failed \<Rightarrow> Inr (ExecutionFailed
        (case Option.bind (ex_result e) rs_failure of Some f \<Rightarrow> f | None \<Rightarrow> WorkerLost))
   | Cancelled \<Rightarrow> Inr ExecutionCancelled
   | Completed \<Rightarrow> Inr ExecutionCompleted
   | other \<Rightarrow> Inl (Conflict (''cleanup finalization cannot publish state '' @ state_debug other)))"

definition finalize_cleanup ::
  "clock \<Rightarrow> execution_id \<Rightarrow> attempt_id \<Rightarrow> lost_worker_recovery tx" where
  "finalize_cleanup ck i attempt d =
     and_then (ok_or (find_execution d i) (NotFound i)) (\<lambda>row.
     let execution = decode_execution row in
     and_then (ok_or (find (\<lambda>c. ca_execution_id c = i \<and> ca_attempt_id c = attempt
           \<and> ca_phase c \<in> set [''STORAGE_RELEASED'', ''RESERVATION_RELEASED'']) (cleanups d))
         (Conflict (''lost cleanup is not ready to finalize for '' @ i @ ''/'' @ attempt))) (\<lambda>authority.
     let outcome = cleanup_outcome execution in
     and_then (ok_or (find (\<lambda>a. at_attempt_id a = attempt \<and> at_execution_id a = i) (attempts d))
         (Conflict (''attempt '' @ attempt @ '' authority is absent''))) (\<lambda>attempt_row.
     if at_worker_id attempt_row \<noteq> ca_worker_id authority
     then Inl (Conflict ''cleanup authority and attempt worker differ'')
     else if ca_phase authority = ''RESERVATION_RELEASED'' then Inr (outcome, d)
     else
       let mine = (\<lambda>r. rn_execution_id r = i \<and> rn_attempt_id r = attempt);
           reservation = find mine (reservations d) in
       if reservation = None \<and> at_finished_at attempt_row = None
          \<and> ex_state execution \<noteq> ReviewReady \<and> \<not> is_terminal (ex_state execution)
       then Inl (Conflict ''cleanup has neither an exact reservation nor fenced attempt evidence'')
       else if (case reservation of None \<Rightarrow> False | Some r \<Rightarrow> rn_worker_id r \<noteq> ca_worker_id authority)
       then Inl (Conflict ''cleanup reservation belongs to another worker'')
       else if (case reservation of None \<Rightarrow> False | Some r \<Rightarrow> find_worker d (rn_worker_id r) = None)
       then Inl Db
       else
         let pending = cancellation_pending d i;
             resumable = finalize_resumable pending execution;
             nxt = finalize_next pending execution;
             d1 = d\<lparr>executions := sql_update
                (\<lambda>r. ex_id r = i \<and> ex_attempt_id r = Some attempt)
                (\<lambda>r. r\<lparr>ex_state := nxt, ex_worker_id := None, ex_attempt_id := None,
                       ex_session_id := None, ex_worktree_path := None,
                       ex_result := finalize_result pending execution,
                       ex_updated_at := ck_db ck, ex_version := ex_version r + 1\<rparr>) (executions d)\<rparr>;
             d2 = d1\<lparr>attempts := sql_update
                (\<lambda>a. at_attempt_id a = attempt \<and> at_execution_id a = i)
                (\<lambda>a. a\<lparr>at_state := (if resumable then Failed else nxt),
                       at_result := (if resumable then Some (lost_result i) else at_result a),
                       at_updated_at := ck_db ck,
                       at_finished_at := (case at_finished_at a of
                          Some t \<Rightarrow> Some t | None \<Rightarrow> Some (ck_db ck))\<rparr>) (attempts d1)\<rparr>;
             d3 = delete_reservations mine d2;
             d4 = (if rows_affected mine (reservations d) = 1
                   then free_slot (ck_db ck) (ca_worker_id authority) d3 else d3);
             d5 = d4\<lparr>cleanups := sql_update
                (\<lambda>c. ca_execution_id c = i \<and> ca_attempt_id c = attempt \<and> ca_phase c = ''STORAGE_RELEASED'')
                (\<lambda>c. c\<lparr>ca_phase := ''RESERVATION_RELEASED'', ca_updated_at := ck_db ck\<rparr>) (cleanups d4)\<rparr> in
         if nxt \<noteq> ex_state execution
         then and_then (finalize_kind nxt execution) (\<lambda>kind.
              and_then (append_in_transaction
                \<lparr>ev_execution_id = i, ev_attempt_id = Some attempt, ev_sequence = 0,
                 ev_at = ck_utc ck, ev_state = nxt, ev_kind = kind\<rparr> d5) (\<lambda>(_, d6).
                Inr (outcome, d6)))
         else Inr (outcome, d5))))"

section \<open>What giving capacity back keeps\<close>

lemma free_slot_frame [simp]:
  "executions (free_slot t w d) = executions d" "events (free_slot t w d) = events d"
  "reservations (free_slot t w d) = reservations d" "attempts (free_slot t w d) = attempts d"
  "cleanups (free_slot t w d) = cleanups d" "cancellations (free_slot t w d) = cancellations d"
  "workers (free_slot t w d) = sql_update (\<lambda>r. wk_id r = w)
     (\<lambda>r. r\<lparr>wk_running := max (wk_running r - 1) 0, wk_updated_at := t\<rparr>) (workers d)"
  by (simp_all add: free_slot_def)

lemma delete_reservations_frame [simp]:
  "executions (delete_reservations p d) = executions d" "events (delete_reservations p d) = events d"
  "workers (delete_reservations p d) = workers d" "attempts (delete_reservations p d) = attempts d"
  "cleanups (delete_reservations p d) = cleanups d" "cancellations (delete_reservations p d) = cancellations d"
  "reservations (delete_reservations p d) = sql_delete p (reservations d)"
  by (simp_all add: delete_reservations_def)

lemma links_fewer_reservations:
  assumes "links_ok d" and "executions d' = executions d" "attempts d' = attempts d"
    and "set (reservations d') \<subseteq> set (reservations d)"
  shows "links_ok d'"
  using assms by (auto simp: links_ok_def current_attempt_def)

lemma good_release:
  assumes ok: "store_ok d" and p: "\<And>s. p s \<Longrightarrow> rn_execution_id s = i"
    and res: "reservations d' = sql_delete p (reservations d)"
    and wk: "workers d' = (case find p (reservations d) of
        None \<Rightarrow> workers d
      | Some r \<Rightarrow> sql_update (\<lambda>w. wk_id w = rn_worker_id r)
               (\<lambda>w. w\<lparr>wk_running := max (wk_running w - 1) 0, wk_updated_at := t\<rparr>) (workers d))"
    and same: "executions d' = executions d" "attempts d' = attempts d"
    and log: "log_step d d'" and cl: "cleanup_step d d'"
  shows "good_step d d'"
proof (rule good_stepI [OF ok log cl])
  show "capacity_ok d'" if cap: "capacity_ok d"
  proof (cases "find p (reservations d)")
    case None
    then show ?thesis using cap res wk by (auto intro: capacity_same simp: delete_absent)
  next
    case (Some r)
    then show ?thesis using capacity_release [OF cap Some p res] wk by simp
  qed
  show "links_ok d'" if "links_ok d"
    by (rule links_fewer_reservations [OF that same]) (auto simp: res)
  show "executions_step d d'" by (rule executions_step_same [OF same(1)])
qed

lemma release_good:
  assumes "release t i d = Inr (u, d')" and ok: "store_ok d"
  shows "good_step d d'"
  by (rule good_release [OF ok, where p = "\<lambda>r. rn_execution_id r = i" and t = t])
    (use assms(1) in \<open>auto simp: release_def Let_def same_rules split: option.splits\<close>)

lemma release_attempt_good:
  assumes "release_attempt t i a d = Inr (u, d')" and ok: "store_ok d"
  shows "good_step d d'"
  by (rule good_release [OF ok, where p = "\<lambda>r. rn_execution_id r = i \<and> rn_attempt_id r = a" and t = t])
    (use assms(1) in \<open>auto simp: release_attempt_def Let_def same_rules split: option.splits\<close>)

lemma commit_retained_shape:
  assumes "commit_retained_and_release_capacity t i attempt d = Inr (u, d')"
  obtains row c where "find_execution d i = Some row" "\<not> cancellation_pending d i"
    "ex_state row = ReviewReady" "ex_attempt_id row = Some attempt"
    "mf_persistence (ex_manifest row) = Resumable"
    "find (\<lambda>c. ca_execution_id c = i \<and> ca_attempt_id c = attempt) (cleanups d) = Some c"
    "ca_phase c = ''RETAIN_REQUESTED'' \<or> ca_phase c = ''RETAINED''"
    "reservations d' = sql_delete (\<lambda>r. rn_execution_id r = i \<and> rn_attempt_id r = attempt) (reservations d)"
    "workers d' = (case find (\<lambda>r. rn_execution_id r = i \<and> rn_attempt_id r = attempt) (reservations d) of
        None \<Rightarrow> workers d
      | Some r \<Rightarrow> sql_update (\<lambda>w. wk_id w = rn_worker_id r)
               (\<lambda>w. w\<lparr>wk_running := max (wk_running w - 1) 0, wk_updated_at := t\<rparr>) (workers d))"
    "executions d' = executions d" "attempts d' = attempts d" "events d' = events d"
    "cleanups d' = sql_update (\<lambda>c. ca_execution_id c = i \<and> ca_attempt_id c = attempt
         \<and> ca_phase c \<in> {''RETAIN_REQUESTED'', ''RETAINED''})
       (\<lambda>c. c\<lparr>ca_phase := ''RETAINED'', ca_updated_at := t\<rparr>) (cleanups d)"
proof -
  obtain row where row: "find_execution d i = Some row"
    using assms by (auto simp: commit_retained_and_release_capacity_def and_then_Inr_iff ok_or_Inr_iff)
  obtain c where c: "find (\<lambda>c. ca_execution_id c = i \<and> ca_attempt_id c = attempt) (cleanups d) = Some c"
    using assms row
    by (auto simp: commit_retained_and_release_capacity_def ok_or_Inr_iff and_then_Inr_iff Let_def
        split: if_splits)
  note main = assms [unfolded commit_retained_and_release_capacity_def, simplified row c ok_or_def
      and_then_simps option.case Let_def decode_execution_sel]
  show ?thesis
  proof (cases "find (\<lambda>r. rn_execution_id r = i \<and> rn_attempt_id r = attempt) (reservations d)")
    case None
    show ?thesis
      by (rule that [OF row _ _ _ _ c]) (use main None in \<open>auto split: if_splits\<close>)
  next
    case (Some r)
    show ?thesis
      by (rule that [OF row _ _ _ _ c]) (use main Some in \<open>auto split: if_splits\<close>)
  qed
qed

lemma commit_retained_good:
  assumes "commit_retained_and_release_capacity t i attempt d = Inr (u, d')" and ok: "store_ok d"
  shows "good_step d d'"
proof (rule commit_retained_shape [OF assms(1)])
  assume tabs: "reservations d' = sql_delete (\<lambda>r. rn_execution_id r = i \<and> rn_attempt_id r = attempt) (reservations d)"
    "workers d' = (case find (\<lambda>r. rn_execution_id r = i \<and> rn_attempt_id r = attempt) (reservations d) of
        None \<Rightarrow> workers d
      | Some r \<Rightarrow> sql_update (\<lambda>w. wk_id w = rn_worker_id r)
               (\<lambda>w. w\<lparr>wk_running := max (wk_running w - 1) 0, wk_updated_at := t\<rparr>) (workers d))"
    "executions d' = executions d" "attempts d' = attempts d" "events d' = events d"
    "cleanups d' = sql_update (\<lambda>c. ca_execution_id c = i \<and> ca_attempt_id c = attempt
         \<and> ca_phase c \<in> {''RETAIN_REQUESTED'', ''RETAINED''})
       (\<lambda>c. c\<lparr>ca_phase := ''RETAINED'', ca_updated_at := t\<rparr>) (cleanups d)"
  have "cleanup_step d d'"
  proof (rule cleanup_step_phase [where s = Retained and t = t])
    show "cleanups d' = sql_update (\<lambda>c. ca_execution_id c = i \<and> ca_attempt_id c = attempt
         \<and> ca_phase c \<in> {''RETAIN_REQUESTED'', ''RETAINED''})
       (\<lambda>c. c\<lparr>ca_phase := disposition_text Retained, ca_updated_at := t\<rparr>) (cleanups d)"
      using tabs(6) by simp
  next
    fix c x
    assume "ca_execution_id c = i \<and> ca_attempt_id c = attempt
         \<and> ca_phase c \<in> {''RETAIN_REQUESTED'', ''RETAINED''}" and "ca_phase c = disposition_text x"
    then have "x = RetainRequested \<or> x = Retained"
      by (auto simp: text_constants cleanup_text.enc_eq_iff simp del: disposition_text.simps)
    then show "disposition_rank x \<le> disposition_rank Retained" by auto
  qed
  then show ?thesis
    by (intro good_release [OF ok _ tabs(1,2,3,4) log_step_same [OF tabs(5)]]) auto
qed

end
