(* ===== verification/Reservation_Invariants.thy ===== *)
theory Reservation_Invariants
  imports Reservation_Store
begin

text \<open>
  What the operations on reservations keep: fencing lost attempts, finalising a cleanup, and
  claiming work.
\<close>

section \<open>Fencing\<close>

lemma upsert_frame [simp]:
  "executions (upsert_cleanup_pending t i a w d) = executions d"
  "events (upsert_cleanup_pending t i a w d) = events d"
  "workers (upsert_cleanup_pending t i a w d) = workers d"
  "reservations (upsert_cleanup_pending t i a w d) = reservations d"
  "attempts (upsert_cleanup_pending t i a w d) = attempts d"
  "cancellations (upsert_cleanup_pending t i a w d) = cancellations d"
  by (simp_all add: upsert_cleanup_pending_def)

lemma early_phase_rank:
  assumes "v \<notin> {''RUNTIME_STOPPED'', ''RUNTIME_DESTROYED'', ''GIT_RECOVERED_CLEANED'',
      ''STORAGE_RELEASED'', ''RESERVATION_RELEASED'', ''RESOLVED''}" and "v = disposition_text x"
  shows "disposition_rank x \<le> 9"
proof (cases x)
  case (Active st)
  then show ?thesis by (cases st) simp_all
qed (use assms in simp_all)

lemma upsert_cleanup_step: "cleanup_step d (upsert_cleanup_pending t i a w d)"
proof (cases "find_cleanup d i")
  case None
  then have new: "i \<notin> ca_execution_id ` set (cleanups d)" by (simp add: sql_lookup_None_iff)
  have "\<exists>s. ''CLEANUP_PENDING'' = disposition_text s" by (rule exI [of _ CleanupPending]) simp
  with None new show ?thesis
    by (auto simp: cleanup_step_def upsert_cleanup_pending_def sql_exists_key cleanups_ok_def
        cleanups_le_def sql_lookup_append)
next
  case (Some c)
  let ?p = "\<lambda>c. ca_execution_id c = i \<and> ca_attempt_id c = a \<and> ca_worker_id c = w
      \<and> ca_phase c \<notin> set [''RUNTIME_STOPPED'', ''RUNTIME_DESTROYED'', ''GIT_RECOVERED_CLEANED'',
          ''STORAGE_RELEASED'', ''RESERVATION_RELEASED'', ''RESOLVED'']"
  show ?thesis
  proof (rule cleanup_step_phase [where s = CleanupPending and t = t and p = ?p])
    show "cleanups (upsert_cleanup_pending t i a w d) = sql_update ?p
        (\<lambda>c. c\<lparr>ca_phase := disposition_text CleanupPending, ca_updated_at := t\<rparr>) (cleanups d)"
      using Some by (simp add: upsert_cleanup_pending_def sql_exists_key)
    show "disposition_rank x \<le> disposition_rank CleanupPending"
      if "?p c" "ca_phase c = disposition_text x" for c x
      using early_phase_rank [of "ca_phase c" x] that by simp
  qed
qed

lemma fence_attempt_frame [simp]:
  "fst (fence_attempt t i a w d) = rows_affected (lost_attempt i a w) (attempts d)"
  "executions (snd (fence_attempt t i a w d)) = executions d"
  "events (snd (fence_attempt t i a w d)) = events d"
  "workers (snd (fence_attempt t i a w d)) = workers d"
  "reservations (snd (fence_attempt t i a w d)) = reservations d"
  "cleanups (snd (fence_attempt t i a w d)) = cleanups d"
  "cancellations (snd (fence_attempt t i a w d)) = cancellations d"
  by (simp_all add: fence_attempt_def)

lemma fence_attempt_links: "links_ok d \<Longrightarrow> links_ok (snd (fence_attempt t i a w d))"
  by (auto simp: links_ok_def current_attempt_def fence_attempt_def set_sql_update map_key_update)

text \<open>A step that only finishes attempts and moves cleanup authorities forward.\<close>

definition fencing :: "db \<Rightarrow> db \<Rightarrow> bool" where
  "fencing d d' \<longleftrightarrow> executions d' = executions d \<and> events d' = events d \<and> workers d' = workers d
     \<and> reservations d' = reservations d \<and> (links_ok d \<longrightarrow> links_ok d') \<and> cleanup_step d d'"

lemma fencing_trans: "fencing a b \<Longrightarrow> fencing b c \<Longrightarrow> fencing a c"
  by (auto simp: fencing_def intro: cleanup_step_trans)

lemma fencing_attempt: "fencing d (snd (fence_attempt t i a w d))"
  by (simp add: fencing_def fence_attempt_links same_rules)

lemma fencing_upsert: "fencing d (upsert_cleanup_pending t i a w d)"
  by (auto simp: fencing_def upsert_cleanup_step intro: links_same)

lemma fencing_recover_rows: "fencing d (snd (recover_rows t w rows d))"
proof (induction rows arbitrary: d)
  case Nil
  then show ?case by (simp add: fencing_def same_rules)
next
  case (Cons row rows)
  obtain r e where row: "row = (r, e)" by fastforce
  let ?d1 = "snd (fence_attempt t (ex_id e) (rn_attempt_id r) w d)"
  have "fencing ?d1 (snd (recover_rows t w rows ?d1))"
    "fencing ?d1 (snd (recover_rows t w rows (upsert_cleanup_pending t (ex_id e) (rn_attempt_id r) w ?d1)))"
    using Cons.IH fencing_upsert fencing_trans by blast+
  with fencing_attempt [of d t "ex_id e" "rn_attempt_id r" w] fencing_trans show ?case
    by (auto simp: row split_beta Let_def simp del: fence_attempt_frame)
qed

lemma fencing_good:
  assumes "fencing d d'" and ok: "store_ok d"
  shows "good_step d d'"
proof (rule good_stepI [OF ok])
  show "log_step d d'" "cleanup_step d d'" "executions_step d d'"
    using assms(1) by (simp_all add: fencing_def same_rules)
  show "capacity_ok d \<Longrightarrow> capacity_ok d'"
    using assms(1) by (auto simp: fencing_def intro: capacity_same)
  show "links_ok d \<Longrightarrow> links_ok d'" using assms(1) by (simp add: fencing_def)
qed

lemma recover_unreachable_good:
  assumes "recover_unreachable t coll w d = Inr (rs, d')" and "store_ok d"
  shows "good_step d d'"
proof -
  have "d' = snd (recover_rows t w (worker_reservations coll w d) d)"
    using assms(1) by (auto simp: recover_unreachable_def and_then_Inr_iff split: if_splits)
  with fencing_good [OF fencing_recover_rows assms(2)] show ?thesis by simp
qed

lemma fence_lost_attempt_shape:
  assumes "fence_lost_attempt t i a d = Inr (res, d')"
  shows "\<exists>w. d' = snd (fence_attempt t i a w d)
     \<or> d' = upsert_cleanup_pending t i a w (snd (fence_attempt t i a w d))"
  using assms
  by (auto simp: fence_lost_attempt_def Let_def and_then_Inr_iff split_beta split: if_splits)

lemma fence_lost_attempt_good:
  assumes "fence_lost_attempt t i a d = Inr (res, d')" and "store_ok d"
  shows "good_step d d'"
proof -
  have "fencing d d'"
    using fence_lost_attempt_shape [OF assms(1)] fencing_attempt fencing_upsert fencing_trans by metis
  then show ?thesis by (rule fencing_good [OF _ assms(2)])
qed

section \<open>Finalising\<close>

lemma finalize_change:
  assumes "ex_state e' = finalize_next pending e" and "ex_state r = ex_state e"
    and "ex_manifest r = ex_manifest e"
  shows "state_change_ok r (e' :: exec_row)"
  using assms
  by (auto simp: state_change_ok_def finalize_next_def finalize_resumable_def finalize_lost_def)

definition finalized_row :: "time \<Rightarrow> bool \<Rightarrow> execution \<Rightarrow> exec_row \<Rightarrow> exec_row" where
  "finalized_row t pending e r =
     r\<lparr>ex_state := finalize_next pending e, ex_worker_id := None, ex_attempt_id := None,
       ex_session_id := None, ex_worktree_path := None, ex_result := finalize_result pending e,
       ex_updated_at := t, ex_version := ex_version r + 1\<rparr>"

definition finalized_attempt :: "time \<Rightarrow> bool \<Rightarrow> execution \<Rightarrow> attempt_row \<Rightarrow> attempt_row" where
  "finalized_attempt t pending e a =
     a\<lparr>at_state := (if finalize_resumable pending e then Failed else finalize_next pending e),
       at_result := (if finalize_resumable pending e then Some (lost_result (ex_id e)) else at_result a),
       at_updated_at := t,
       at_finished_at := (case at_finished_at a of Some u \<Rightarrow> Some u | None \<Rightarrow> Some t)\<rparr>"

lemma finalized_sel [simp]:
  "ex_id (finalized_row t q e r) = ex_id r" "ex_attempt_id (finalized_row t q e r) = None"
  "ex_worker_id (finalized_row t q e r) = None" "ex_state (finalized_row t q e r) = finalize_next q e"
  "unassigned (finalized_row t q e r)"
  "at_attempt_id (finalized_attempt t q e a) = at_attempt_id a"
  "at_execution_id (finalized_attempt t q e a) = at_execution_id a"
  "at_finished_at (finalized_attempt t q e a) \<noteq> None"
  by (simp_all add: finalized_row_def finalized_attempt_def unassigned_def split: option.split)

lemma finalize_cleanup_shape:
  assumes "finalize_cleanup ck i attempt d = Inr (res, d')"
  obtains row c where "find_execution d i = Some row" "res = cleanup_outcome (decode_execution row)"
      "find (\<lambda>c. ca_execution_id c = i \<and> ca_attempt_id c = attempt
           \<and> ca_phase c \<in> set [''STORAGE_RELEASED'', ''RESERVATION_RELEASED'']) (cleanups d) = Some c"
      "ca_phase c = ''RESERVATION_RELEASED''" "d' = d"
  | row c a d5 where "find_execution d i = Some row" "res = cleanup_outcome (decode_execution row)"
      "find (\<lambda>c. ca_execution_id c = i \<and> ca_attempt_id c = attempt
           \<and> ca_phase c \<in> set [''STORAGE_RELEASED'', ''RESERVATION_RELEASED'']) (cleanups d) = Some c"
      "ca_phase c = ''STORAGE_RELEASED''"
      "find (\<lambda>a. at_attempt_id a = attempt \<and> at_execution_id a = i) (attempts d) = Some a"
      "\<And>r. find (\<lambda>r. rn_execution_id r = i \<and> rn_attempt_id r = attempt) (reservations d) = Some r
         \<Longrightarrow> rn_worker_id r = ca_worker_id c"
      "executions d5 = sql_update (\<lambda>r. ex_id r = i \<and> ex_attempt_id r = Some attempt)
         (finalized_row (ck_db ck) (cancellation_pending d i) (decode_execution row)) (executions d)"
      "attempts d5 = sql_update (\<lambda>a. at_attempt_id a = attempt \<and> at_execution_id a = i)
         (finalized_attempt (ck_db ck) (cancellation_pending d i) (decode_execution row)) (attempts d)"
      "reservations d5 = sql_delete (\<lambda>r. rn_execution_id r = i \<and> rn_attempt_id r = attempt) (reservations d)"
      "workers d5 = (if rows_affected (\<lambda>r. rn_execution_id r = i \<and> rn_attempt_id r = attempt) (reservations d) = 1
         then sql_update (\<lambda>r. wk_id r = ca_worker_id c)
           (\<lambda>r. r\<lparr>wk_running := max (wk_running r - 1) 0, wk_updated_at := ck_db ck\<rparr>) (workers d)
         else workers d)"
      "cleanups d5 = sql_update (\<lambda>c. ca_execution_id c = i \<and> ca_attempt_id c = attempt
            \<and> ca_phase c = ''STORAGE_RELEASED'')
         (\<lambda>c. c\<lparr>ca_phase := ''RESERVATION_RELEASED'', ca_updated_at := ck_db ck\<rparr>) (cleanups d)"
      "events d5 = events d" "cancellations d5 = cancellations d"
      "if finalize_next (cancellation_pending d i) (decode_execution row) = ex_state row then d' = d5
       else \<exists>kind n. append_in_transaction \<lparr>ev_execution_id = i, ev_attempt_id = Some attempt,
           ev_sequence = 0, ev_at = ck_utc ck,
           ev_state = finalize_next (cancellation_pending d i) (decode_execution row),
           ev_kind = kind\<rparr> d5 = Inr (n, d')"
proof -
  let ?ready = "\<lambda>c. ca_execution_id c = i \<and> ca_attempt_id c = attempt
           \<and> ca_phase c \<in> set [''STORAGE_RELEASED'', ''RESERVATION_RELEASED'']"
  obtain row where row: "find_execution d i = Some row"
    using assms by (auto simp: finalize_cleanup_def and_then_Inr_iff ok_or_Inr_iff)
  obtain c where c: "find ?ready (cleanups d) = Some c"
    using assms row by (auto simp: finalize_cleanup_def Let_def and_then_Inr_iff ok_or_Inr_iff)
  obtain a where a: "find (\<lambda>a. at_attempt_id a = attempt \<and> at_execution_id a = i) (attempts d) = Some a"
    using assms row c by (auto simp: finalize_cleanup_def Let_def and_then_Inr_iff ok_or_Inr_iff)
  have id: "ex_id row = i" using sql_lookup_SomeD [OF row] by simp
  have phase: "ca_phase c = ''STORAGE_RELEASED'' \<or> ca_phase c = ''RESERVATION_RELEASED''"
    using find_SomeD [OF c] by simp
  note main = assms [unfolded finalize_cleanup_def, simplified row c a ok_or_def option.case
      and_then_simps, unfolded Let_def, simplified row c a ok_or_def option.case and_then_simps]
  show ?thesis
  proof (cases "ca_phase c = ''RESERVATION_RELEASED''")
    case True
    then show ?thesis using main that(1) [OF row _ c] by (auto split: if_splits)
  next
    case False
    define d5 where "d5 = (let
        mine = (\<lambda>r. rn_execution_id r = i \<and> rn_attempt_id r = attempt);
        d1 = d\<lparr>executions := sql_update (\<lambda>r. ex_id r = i \<and> ex_attempt_id r = Some attempt)
          (finalized_row (ck_db ck) (cancellation_pending d i) (decode_execution row)) (executions d)\<rparr>;
        d2 = d1\<lparr>attempts := sql_update (\<lambda>a. at_attempt_id a = attempt \<and> at_execution_id a = i)
          (finalized_attempt (ck_db ck) (cancellation_pending d i) (decode_execution row)) (attempts d1)\<rparr>;
        d3 = delete_reservations mine d2;
        d4 = (if rows_affected mine (reservations d) = 1
              then free_slot (ck_db ck) (ca_worker_id c) d3 else d3)
      in d4\<lparr>cleanups := sql_update (\<lambda>c. ca_execution_id c = i \<and> ca_attempt_id c = attempt
                \<and> ca_phase c = ''STORAGE_RELEASED'')
             (\<lambda>c. c\<lparr>ca_phase := ''RESERVATION_RELEASED'', ca_updated_at := ck_db ck\<rparr>) (cleanups d4)\<rparr>)"
    have frow: "finalized_row t q (decode_execution row) = (\<lambda>r. r\<lparr>ex_state := finalize_next q (decode_execution row),
        ex_worker_id := None, ex_attempt_id := None, ex_session_id := None, ex_worktree_path := None,
        ex_result := finalize_result q (decode_execution row),
        ex_updated_at := t, ex_version := ex_version r + 1\<rparr>)" for t q
      by (simp add: fun_eq_iff finalized_row_def)
    have fatt: "finalized_attempt t q (decode_execution row) = (\<lambda>a. a\<lparr>at_state :=
          (if finalize_resumable q (decode_execution row) then Failed else finalize_next q (decode_execution row)),
        at_result := (if finalize_resumable q (decode_execution row) then Some (lost_result i) else at_result a),
        at_updated_at := t,
        at_finished_at := (case at_finished_at a of Some u \<Rightarrow> Some u | None \<Rightarrow> Some t)\<rparr>)" for t q
      by (simp add: fun_eq_iff finalized_attempt_def id)
    note main' = main [folded frow fatt]
    have res: "res = cleanup_outcome (decode_execution row)"
      using main' False by (auto simp: and_then_Inr_iff split: if_splits option.splits)
    have wk: "rn_worker_id r = ca_worker_id c"
      if "find (\<lambda>r. rn_execution_id r = i \<and> rn_attempt_id r = attempt) (reservations d) = Some r" for r
      using main' False that by (auto split: if_splits)
    have fin: "if finalize_next (cancellation_pending d i) (decode_execution row) = ex_state row then d' = d5
       else \<exists>kind n. append_in_transaction \<lparr>ev_execution_id = i, ev_attempt_id = Some attempt,
           ev_sequence = 0, ev_at = ck_utc ck,
           ev_state = finalize_next (cancellation_pending d i) (decode_execution row),
           ev_kind = kind\<rparr> d5 = Inr (n, d')"
      using main' False
      by (auto simp: d5_def Let_def and_then_Inr_iff split: if_splits option.splits)
    show ?thesis
      by (rule that(2) [OF row res c _ a wk _ _ _ _ _ _ _ fin])
        (use phase False in \<open>simp_all add: d5_def Let_def\<close>)
  qed
qed

lemma finalized_row_step:
  assumes "find_execution d i = Some row"
  shows "row_step row (finalized_row t q (decode_execution row) row)"
  unfolding row_step_def
  by (rule disjI2, intro conjI finalize_change [where e = "decode_execution row"])
    (simp_all add: finalized_row_def)

lemma finalized_links:
  assumes links: "links_ok d" and row: "find_execution d i = Some row"
    and ex: "executions d' = sql_update (\<lambda>r. ex_id r = i \<and> ex_attempt_id r = Some attempt)
         (finalized_row t q e) (executions d)"
    and at: "attempts d' = sql_update (\<lambda>a. at_attempt_id a = attempt \<and> at_execution_id a = i)
         (finalized_attempt t q e) (attempts d)"
    and res: "reservations d' = sql_delete (\<lambda>r. rn_execution_id r = i \<and> rn_attempt_id r = attempt) (reservations d)"
  shows "links_ok d'"
proof -
  have cur: "current_attempt d' j = current_attempt d j"
    if "\<not> (j = i \<and> current_attempt d i = Some attempt)" for j
    using that sql_lookup_SomeD [of ex_id j "executions d"]
    by (cases "find_execution d j") (auto simp: current_attempt_def ex sql_lookup_update)
  show ?thesis unfolding links_ok_def
  proof (intro conjI ballI impI)
    show "distinct (map ex_id (executions d'))"
      using links by (simp add: links_ok_def ex map_key_update)
    show "distinct (map at_attempt_id (attempts d'))"
      using links by (simp add: links_ok_def at map_key_update)
    show "current_attempt d' (rn_execution_id r) = Some (rn_attempt_id r)" if r: "r \<in> set (reservations d')" for r
    proof -
      have old: "current_attempt d (rn_execution_id r) = Some (rn_attempt_id r)"
        and out: "\<not> (rn_execution_id r = i \<and> rn_attempt_id r = attempt)"
        using links r by (auto simp: links_ok_def res)
      have "current_attempt d' (rn_execution_id r) = current_attempt d (rn_execution_id r)"
        by (rule cur) (use old out in auto)
      with old show ?thesis by simp
    qed
    show "current_attempt d' (at_execution_id a) = Some (at_attempt_id a)"
      if a: "a \<in> set (attempts d')" "at_finished_at a = None" for a
    proof -
      obtain b where b: "b \<in> set (attempts d)"
        "a = (if at_attempt_id b = attempt \<and> at_execution_id b = i then finalized_attempt t q e b else b)"
        using a(1) by (auto simp: at set_sql_update)
      with a(2) have same: "a = b" "\<not> (at_attempt_id a = attempt \<and> at_execution_id a = i)"
        using finalized_sel(8) [of t q e b] by (auto split: if_splits simp del: finalized_sel(8))
      have old: "current_attempt d (at_execution_id a) = Some (at_attempt_id a)"
        using links b(1) same(1) a(2) by (simp add: links_ok_def)
      have "current_attempt d' (at_execution_id a) = current_attempt d (at_execution_id a)"
        by (rule cur) (use old same(2) in auto)
      with old show ?thesis by simp
    qed
    show "unassigned r" if "r \<in> set (executions d')" "ex_state r = Queued" for r
      using that links by (auto simp: ex set_sql_update links_ok_def split: if_splits)
  qed
qed

lemma finalize_cleanup_good:
  assumes "finalize_cleanup ck i attempt d = Inr (res, d')" and ok: "store_ok d"
  shows "good_step d d'"
proof (rule finalize_cleanup_shape [OF assms(1)])
  assume "d' = d"
  then show ?thesis by (intro good_other [OF ok]) (simp_all add: same_rules)
next
  fix row c a d5
  let ?mine = "\<lambda>r. rn_execution_id r = i \<and> rn_attempt_id r = attempt"
  let ?f = "finalized_row (ck_db ck) (cancellation_pending d i) (decode_execution row)"
  let ?g = "finalized_attempt (ck_db ck) (cancellation_pending d i) (decode_execution row)"
  assume row: "find_execution d i = Some row"
    and wk: "\<And>r. find ?mine (reservations d) = Some r \<Longrightarrow> rn_worker_id r = ca_worker_id c"
    and ex: "executions d5 = sql_update (\<lambda>r. ex_id r = i \<and> ex_attempt_id r = Some attempt) ?f (executions d)"
    and at: "attempts d5 = sql_update (\<lambda>a. at_attempt_id a = attempt \<and> at_execution_id a = i) ?g (attempts d)"
    and res: "reservations d5 = sql_delete ?mine (reservations d)"
    and workers: "workers d5 = (if rows_affected ?mine (reservations d) = 1
         then sql_update (\<lambda>r. wk_id r = ca_worker_id c)
           (\<lambda>r. r\<lparr>wk_running := max (wk_running r - 1) 0, wk_updated_at := ck_db ck\<rparr>) (workers d)
         else workers d)"
    and cl: "cleanups d5 = sql_update (\<lambda>c. ca_execution_id c = i \<and> ca_attempt_id c = attempt
            \<and> ca_phase c = ''STORAGE_RELEASED'')
         (\<lambda>c. c\<lparr>ca_phase := ''RESERVATION_RELEASED'', ca_updated_at := ck_db ck\<rparr>) (cleanups d)"
    and ev: "events d5 = events d"
    and fin: "if finalize_next (cancellation_pending d i) (decode_execution row) = ex_state row then d' = d5
       else \<exists>kind n. append_in_transaction \<lparr>ev_execution_id = i, ev_attempt_id = Some attempt,
           ev_sequence = 0, ev_at = ck_utc ck,
           ev_state = finalize_next (cancellation_pending d i) (decode_execution row),
           ev_kind = kind\<rparr> d5 = Inr (n, d')"
  have links: "links_ok d" and cap: "capacity_ok d" using ok by (simp_all add: store_ok_def)
  have cleanup: "cleanup_step d d5"
  proof (rule cleanup_step_phase [where s = ReservationReleased and t = "ck_db ck"
        and p = "\<lambda>c. ca_execution_id c = i \<and> ca_attempt_id c = attempt \<and> ca_phase c = ''STORAGE_RELEASED''"])
    show "disposition_rank x \<le> disposition_rank ReservationReleased"
      if "ca_phase c = disposition_text x" "ca_execution_id c = i \<and> ca_attempt_id c = attempt
        \<and> ca_phase c = ''STORAGE_RELEASED''" for c x
      using that by (simp add: text_constants cleanup_text.enc_eq_iff del: disposition_text.simps)
  qed (simp add: cl)
  have "capacity_ok d5"
  proof (cases "find ?mine (reservations d)")
    case None
    then have "filter ?mine (reservations d) = []" by (simp add: find_None_iff filter_empty_conv)
    then have "workers d5 = workers d" by (simp add: workers rows_affected_def)
    then show ?thesis using None res by (intro capacity_same [OF _ _ cap]) (simp_all add: delete_absent)
  next
    case (Some r)
    have "distinct (map rn_execution_id (reservations d))" using cap by (simp add: capacity_ok_def)
    then have "filter ?mine (reservations d) = [r]" by (rule delete_found [OF _ Some]) simp
    then have one: "rows_affected ?mine (reservations d) = 1" by (simp add: rows_affected_def)
    show ?thesis
      by (rule capacity_release [OF cap Some _ res, of i "ck_db ck"]) (simp_all add: workers one wk [OF Some])
  qed
  moreover have "links_ok d5" by (rule finalized_links [OF links row ex at res])
  moreover have "executions_step d d5"
    by (rule executions_step_update [OF ex])
      (use unique_row [OF links row] finalized_row_step [OF row] in auto)
  ultimately have good: "good_step d d5"
    using cleanup ev by (simp add: good_step_def same_rules)
  show ?thesis
  proof (cases "finalize_next (cancellation_pending d i) (decode_execution row) = ex_state row")
    case True
    with fin good show ?thesis by simp
  next
    case False
    with fin obtain e n where app: "append_in_transaction e d5 = Inr (n, d')" by auto
    note tables = append_frame [OF app]
    have "log_step d d'" by (rule log_step_append [OF app ev])
    moreover have "cleanup_step d d'" "executions_step d d'"
      using good by (simp_all add: good_step_def cleanup_step_def cleanups_ok_def cleanups_le_def
          executions_step_def tables)
    moreover have "capacity_ok d'" "links_ok d'"
      using good tables by (auto simp: good_step_def intro: capacity_same links_same)
    ultimately show ?thesis by (simp add: good_step_def)
  qed
qed

section \<open>Claiming\<close>

definition assigned_row ::
  "time \<Rightarrow> worker_id \<Rightarrow> attempt_id \<Rightarrow> exec_row \<Rightarrow> exec_row \<Rightarrow> exec_row" where
  "assigned_row t worker attempt e r =
     r\<lparr>ex_state := WorkerAssigned, ex_worker_id := Some worker, ex_attempt_id := Some attempt,
       ex_updated_at := t, ex_labels := (ex_labels e)\<lparr>ol_worker_id := worker\<rparr>,
       ex_version := ex_version r + 1\<rparr>"

lemma assigned_row_sel [simp]:
  "ex_id (assigned_row t w a e r) = ex_id r" "ex_state (assigned_row t w a e r) = WorkerAssigned"
  "ex_attempt_id (assigned_row t w a e r) = Some a"
  "ex_worker_id (assigned_row t w a e r) = Some w"
  by (simp_all add: assigned_row_def)

lemma queue_order_set: "e \<in> set (queue_order coll skipped d) \<longleftrightarrow> e \<in> set (executions d) \<and> claimable d e \<and> \<not> skipped e"
  by (simp add: queue_order_def)

lemma find_map: "find p (map f xs) = Some y \<Longrightarrow> \<exists>x. find (p \<circ> f) xs = Some x \<and> y = f x"
  by (induction xs) auto

lemma reserve_next_shape:
  assumes "reserve_next ck coll skipped uuid worker d = Inr (res, d')"
  obtains "res = None" "d' = d"
  | wrow w reserved e cpu memory disk where
      "find_worker d worker = Some wrow" "decode_worker wrow = Inr w" "reserved_on worker d = Inr reserved"
      "find (\<lambda>e. worker_fits_with_reservations w (mf_runtime (ex_manifest e)) reserved)
         (queue_order coll skipped d) = Some e"
      "i32_try_from (rq_cpu (mf_runtime (ex_manifest e))) = Some cpu"
      "i64_try_from (rq_memory_mib (mf_runtime (ex_manifest e))) = Some memory"
      "i64_try_from (rq_disk_gib (mf_runtime (ex_manifest e))) = Some disk"
      "\<not> sql_exists (\<lambda>s. rn_execution_id s = ex_id e \<or> rn_attempt_id s = ''attempt-'' @ uuid) (reservations d)"
      "0 < cpu" "0 < memory" "0 \<le> disk"
      "\<not> sql_exists (\<lambda>b. at_attempt_id b = ''attempt-'' @ uuid) (attempts d)"
      "reservations d' = reservations d @ [\<lparr>rn_execution_id = ex_id e, rn_worker_id = worker,
          rn_attempt_id = ''attempt-'' @ uuid, rn_cpu = cpu, rn_memory_mib = memory, rn_disk_gib = disk,
          rn_created_at = ck_db ck\<rparr>]"
      "executions d' = sql_update (\<lambda>r. ex_id r = ex_id e)
          (assigned_row (ck_utc ck) worker (''attempt-'' @ uuid) e) (executions d)"
      "attempts d' = attempts d @ [\<lparr>at_attempt_id = ''attempt-'' @ uuid, at_execution_id = ex_id e,
          at_worker_id = worker, at_state = WorkerAssigned, at_worktree_path = None, at_session_id = None,
          at_result = None, at_started_at = ck_db ck, at_updated_at = ck_db ck, at_finished_at = None\<rparr>]"
      "workers d' = sql_update (\<lambda>r. wk_id r = worker)
          (\<lambda>r. r\<lparr>wk_running := wk_running r + 1, wk_updated_at := ck_db ck\<rparr>) (workers d)"
      "events d' = events d" "cleanups d' = cleanups d" "cancellations d' = cancellations d"
      "\<exists>z. res = Some z \<and> rz_worker_id z = worker \<and> rz_attempt_id z = ''attempt-'' @ uuid
          \<and> ex_id (rz_execution z) = ex_id e"
proof -
  obtain wrow w reserved where w: "find_worker d worker = Some wrow" "decode_worker wrow = Inr w"
      "reserved_on worker d = Inr reserved"
    using assms by (auto simp: reserve_next_def and_then_Inr_iff ok_or_Inr_iff)
  note main = assms [unfolded reserve_next_def, simplified w ok_or_def option.case and_then_simps]
  let ?fits = "\<lambda>e. worker_fits_with_reservations w (mf_runtime (ex_manifest e)) reserved"
  show ?thesis
  proof (cases "find ?fits (map decode_execution (queue_order coll skipped d))")
    case None
    with main that(1) show ?thesis by (auto split: if_splits)
  next
    case (Some x)
    from find_map [OF Some] obtain e where e: "find ?fits (queue_order coll skipped d) = Some e"
      and x: "x = decode_execution e" by (auto simp: comp_def)
    show ?thesis
    proof (cases "wr_state w \<noteq> Ready \<or> \<not> has_complete_proof w
        \<or> wc_max_concurrent (wr_capabilities w) \<le> rv_slots reserved")
      case True
      with main that(1) show ?thesis by auto
    next
      case False
      note main' = main [simplified Some x option.case Let_def decode_execution_sel]
      obtain cpu memory disk where amounts:
        "i32_try_from (rq_cpu (mf_runtime (ex_manifest e))) = Some cpu"
        "i64_try_from (rq_memory_mib (mf_runtime (ex_manifest e))) = Some memory"
        "i64_try_from (rq_disk_gib (mf_runtime (ex_manifest e))) = Some disk"
        using main' False by (auto simp: and_then_Inr_iff split: option.splits)
      show ?thesis
        by (rule that(2) [OF w e amounts])
          (use main' False amounts in \<open>auto simp: and_then_Inr_iff insert_reservation_def
             insert_attempt_def take_slot_def execution_transition_def assigned_row_def [abs_def]
             split: if_splits\<close>)
    qed
  qed
qed

lemma claim_links:
  assumes links: "links_ok d" and e: "e \<in> set (executions d)" "ex_state e = Queued"
    and new: "\<not> sql_exists (\<lambda>b. at_attempt_id b = attempt) (attempts d)"
    and ex: "executions d' = sql_update (\<lambda>r. ex_id r = ex_id e) (assigned_row t worker attempt e) (executions d)"
    and at: "attempts d' = attempts d @ [a]" "at_attempt_id a = attempt" "at_execution_id a = ex_id e"
    and res: "reservations d' = reservations d @ [r]" "rn_execution_id r = ex_id e" "rn_attempt_id r = attempt"
  shows "links_ok d'"
proof -
  have row: "find_execution d (ex_id e) = Some e"
    by (rule sql_lookup_in_set [OF links_distinct [OF links] e(1)])
  have none: "current_attempt d (ex_id e) = None"
    using queued_unassigned [OF links row e(2)] row by (simp add: current_attempt_def unassigned_def)
  have cur: "current_attempt d' j = (if j = ex_id e then Some attempt else current_attempt d j)" for j
    using row sql_lookup_SomeD [of ex_id j "executions d"]
    by (cases "find_execution d j") (auto simp: current_attempt_def ex sql_lookup_update)
  show ?thesis unfolding links_ok_def
  proof (intro conjI ballI impI)
    show "distinct (map ex_id (executions d'))" using links by (simp add: links_ok_def ex map_key_update)
    show "distinct (map at_attempt_id (attempts d'))"
      using links new by (auto simp: links_ok_def at sql_exists_iff)
    show "current_attempt d' (rn_execution_id s) = Some (rn_attempt_id s)" if "s \<in> set (reservations d')" for s
      using that links none by (auto simp: res cur links_ok_def)
    show "current_attempt d' (at_execution_id b) = Some (at_attempt_id b)"
      if "b \<in> set (attempts d')" "at_finished_at b = None" for b
      using that links none by (auto simp: at cur links_ok_def)
    show "unassigned x" if "x \<in> set (executions d')" "ex_state x = Queued" for x
      using that links by (auto simp: ex set_sql_update links_ok_def split: if_splits)
  qed
qed

lemma claim_capacity:
  assumes cap: "capacity_ok d" and w: "worker \<in> wk_id ` set (workers d)"
    and new: "\<not> sql_exists (\<lambda>s. rn_execution_id s = rn_execution_id r \<or> rn_attempt_id s = b) (reservations d)"
    and r: "rn_worker_id r = worker" "0 < rn_cpu r" "0 < rn_memory_mib r" "0 \<le> rn_disk_gib r"
    and res: "reservations d' = reservations d @ [r]"
    and wk: "workers d' = sql_update (\<lambda>r. wk_id r = worker)
          (\<lambda>r. r\<lparr>wk_running := wk_running r + 1, wk_updated_at := t\<rparr>) (workers d)"
  shows "capacity_ok d'"
proof -
  have ids: "map wk_id (workers d') = map wk_id (workers d)" by (simp add: wk map_key_update)
  then have img: "wk_id ` set (workers d') = wk_id ` set (workers d)" by (metis list.set_map)
  show ?thesis unfolding capacity_ok_def
  proof (intro conjI)
    show "workers_ok d'"
      using cap ids by (auto simp: capacity_ok_def workers_ok_def wk set_sql_update worker_row_ok_def)
    show "distinct (map rn_execution_id (reservations d'))"
      using cap new by (auto simp: capacity_ok_def res sql_exists_iff)
    show "\<forall>r \<in> set (reservations d'). rn_worker_id r \<in> wk_id ` set (workers d')
          \<and> 0 < rn_cpu r \<and> 0 < rn_memory_mib r \<and> 0 \<le> rn_disk_gib r"
      using cap w r unfolding img by (auto simp: capacity_ok_def res)
    show "\<forall>v \<in> set (workers d'). wk_running v = reserved_count (wk_id v) (reservations d')"
      using cap r(1) by (auto simp: capacity_ok_def wk set_sql_update res reserved_count_def)
  qed
qed

lemma reserve_next_good:
  assumes "reserve_next ck coll skipped uuid worker d = Inr (res, d')" and ok: "store_ok d"
  shows "good_step d d'"
proof (rule reserve_next_shape [OF assms(1)])
  assume "d' = d"
  then show ?thesis by (intro good_other [OF ok]) (simp_all add: same_rules)
next
  fix wrow w reserved e cpu memory disk
  let ?a = "''attempt-'' @ uuid"
  assume wrow: "find_worker d worker = Some wrow"
    and e: "find (\<lambda>e. worker_fits_with_reservations w (mf_runtime (ex_manifest e)) reserved)
         (queue_order coll skipped d) = Some e"
    and new: "\<not> sql_exists (\<lambda>s. rn_execution_id s = ex_id e \<or> rn_attempt_id s = ?a) (reservations d)"
    and amounts: "0 < cpu" "0 < memory" "0 \<le> disk"
    and newa: "\<not> sql_exists (\<lambda>b. at_attempt_id b = ?a) (attempts d)"
    and tabs: "reservations d' = reservations d @ [\<lparr>rn_execution_id = ex_id e, rn_worker_id = worker,
          rn_attempt_id = ?a, rn_cpu = cpu, rn_memory_mib = memory, rn_disk_gib = disk,
          rn_created_at = ck_db ck\<rparr>]"
      "executions d' = sql_update (\<lambda>r. ex_id r = ex_id e) (assigned_row (ck_utc ck) worker ?a e) (executions d)"
      "attempts d' = attempts d @ [\<lparr>at_attempt_id = ?a, at_execution_id = ex_id e,
          at_worker_id = worker, at_state = WorkerAssigned, at_worktree_path = None, at_session_id = None,
          at_result = None, at_started_at = ck_db ck, at_updated_at = ck_db ck, at_finished_at = None\<rparr>]"
      "workers d' = sql_update (\<lambda>r. wk_id r = worker)
          (\<lambda>r. r\<lparr>wk_running := wk_running r + 1, wk_updated_at := ck_db ck\<rparr>) (workers d)"
      "events d' = events d" "cleanups d' = cleanups d"
  have e': "e \<in> set (executions d)" "ex_state e = Queued"
    using find_SomeD [OF e] by (simp_all add: queue_order_set claimable_def)
  have links: "links_ok d" using ok by (simp add: store_ok_def)
  have row: "find_execution d (ex_id e) = Some e"
    by (rule sql_lookup_in_set [OF links_distinct [OF links] e'(1)])
  show ?thesis
  proof (rule good_stepI [OF ok log_step_same [OF tabs(5)] cleanup_step_same [OF tabs(6)]])
    show "capacity_ok d'" if "capacity_ok d"
      by (rule claim_capacity [OF that _ _ _ _ _ _ tabs(1,4), of ?a])
        (use sql_lookup_SomeD [OF wrow] new amounts in auto)
    show "links_ok d'"
      by (rule claim_links [OF links e' newa tabs(2,3) _ _ tabs(1)]) simp_all
    show "executions_step d d'"
    proof (rule executions_step_update [OF tabs(2)])
      fix r assume "r \<in> set (executions d)" "ex_id r = ex_id e"
      then have "r = e" using unique_row [OF links row] by blast
      then show "row_step r (assigned_row (ck_utc ck) worker ?a e r)"
        using e'(2) by (simp add: row_step_def state_change_ok_def assigned_row_def can_transition_to_def)
    qed simp
  qed
qed

lemma good_step_trans_release:
  assumes "good_step a b" and "executions b = executions a" and "good_step b c"
  shows "good_step a c"
  using assms
  by (auto simp: good_step_def log_step_def executions_step_def
      intro: cleanup_step_trans prefix_order.trans)

lemma release_frame:
  "release t i d = Inr (u, d') \<Longrightarrow> executions d' = executions d"
  by (auto simp: release_def Let_def split: option.splits)

lemma release_total: "\<exists>d'. release t i d = Inr ((), d')"
  by (simp add: release_def Let_def split: option.split)

lemma release_fold_good:
  assumes "fold (\<lambda>i acc. and_then acc (\<lambda>(_, d). release t i d)) is (Inr ((), d)) = Inr (u, d')"
    and "store_ok d"
  shows "good_step d d' \<and> executions d' = executions d"
  using assms
proof (induction "is" arbitrary: d)
  case Nil
  then show ?case by (auto intro!: good_other simp: same_rules)
next
  case (Cons i "is")
  obtain d1 where d1: "release t i d = Inr ((), d1)" using release_total by blast
  note good = release_good [OF d1 Cons.prems(2)]
  have "good_step d1 d' \<and> executions d' = executions d1"
    by (rule Cons.IH) (use Cons.prems d1 good_step_ok [OF _ good] in simp_all)
  with good_step_trans_release [OF good release_frame [OF d1]] release_frame [OF d1] show ?case by simp
qed

lemma reconcile_good:
  assumes "reconcile t seen live d = Inr (dead, d')" and "store_ok d"
  shows "good_step d d'"
  using assms(1) release_fold_good [OF _ assms(2)]
  by (auto simp: reconcile_def Let_def and_then_Inr_iff)

section \<open>Reserved totals\<close>

definition reserved_total :: "(reservation_row \<Rightarrow> int) \<Rightarrow> worker_id \<Rightarrow> db \<Rightarrow> int" where
  "reserved_total f worker d = sum_list (map f (filter (\<lambda>r. rn_worker_id r = worker) (reservations d)))"

lemma reserved_on_Inr:
  assumes "reserved_on worker d = Inr reserved"
  shows "uint (rv_slots reserved) = reserved_count worker (reservations d)"
    and "uint (rv_cpu reserved) = reserved_total rn_cpu worker d"
    and "uint (rv_memory_mib reserved) = reserved_total rn_memory_mib worker d"
    and "uint (rv_disk_gib reserved) = reserved_total rn_disk_gib worker d"
  using assms
  by (auto simp: reserved_on_def Let_def and_then_Inr_iff ok_or_Inr_iff sum_bigint_def reserved_total_def
      reserved_count_def dest!: u32_try_from_SomeD u64_try_from_SomeD split: if_splits)


text \<open>The running count of a worker is the number of slots its reservations take.\<close>

lemma claim_count:
  assumes cap: "capacity_ok d" and row: "find_worker d worker = Some row"
    and res: "reserved_on worker d = Inr reserved"
    and b: "r \<in> set (workers d)" "wk_id r = worker"
  shows "wk_running r = uint (rv_slots reserved)" and "uint (wc_max_concurrent (wk_capabilities r)) \<le> 64"
    and "r = row"
proof -
  have "distinct (map wk_id (workers d))" using cap by (simp add: capacity_ok_def workers_ok_def)
  from sql_lookup_in_set [OF this b(1)] b(2) row show "r = row" by simp
  show "wk_running r = uint (rv_slots reserved)"
    using cap b by (simp add: capacity_ok_def reserved_on_Inr [OF res])
  show "uint (wc_max_concurrent (wk_capabilities r)) \<le> 64"
    using cap b by (simp add: capacity_ok_def workers_ok_def worker_row_ok_def capabilities_ok_def)
qed

end
