(* ===== verification/Store_Machine.thy ===== *)
theory Store_Machine
  imports Control_Store Reservation_Invariants
begin

text \<open>
  The persistence layer as one state machine: a step is one committed transaction of one of
  the stores, issued by any controller or worker. Every transaction keeps the store's
  invariant, so every database reached from an empty one satisfies it.
\<close>

section \<open>The registry and the cleanup store\<close>

lemma reserved_count_unknown:
  "capacity_ok d \<Longrightarrow> w \<notin> wk_id ` set (workers d) \<Longrightarrow> reserved_count w (reservations d) = 0"
  by (auto simp: capacity_ok_def reserved_count_def filter_empty_conv)

lemma capacity_refresh:
  assumes cap: "capacity_ok d" and wk: "workers d' = sql_update p f (workers d)"
    and f: "\<And>r. wk_id (f r) = wk_id r" "\<And>r. wk_running (f r) = wk_running r"
    and res: "reservations d' = reservations d" and ok: "workers_ok d'"
  shows "capacity_ok d'"
proof -
  have "map wk_id (workers d') = map wk_id (workers d)" by (simp add: wk map_key_update f)
  then have "wk_id ` set (workers d') = wk_id ` set (workers d)" by (metis list.set_map)
  with cap ok show ?thesis
    unfolding capacity_ok_def by (auto simp: res wk set_sql_update f)
qed

lemma register_good:
  assumes "register t w d = Inr (u, d')" and ok: "store_ok d"
  shows "good_step d d'"
proof (rule good_stepI [OF ok])
  have same: "executions d' = executions d" "events d' = events d" "cleanups d' = cleanups d"
      "reservations d' = reservations d" "attempts d' = attempts d"
    using assms(1) by (auto simp: register_def and_then_Inr_iff split: if_splits)
  show "log_step d d'" "cleanup_step d d'" "executions_step d d'" by (simp_all add: same same_rules)
  show "links_ok d \<Longrightarrow> links_ok d'" by (rule links_same [OF same(1,5,4)])
  show "capacity_ok d'" if cap: "capacity_ok d"
  proof (cases "wr_id w \<in> wk_id ` set (workers d)")
    case True
    have wok: "workers_ok d'" using register_workers_ok [OF assms(1)] cap by (simp add: capacity_ok_def)
    have "sql_exists (\<lambda>r. wk_id r = wr_id w) (workers d)" using True by (auto simp: sql_exists_iff)
    then have "workers d' = sql_update (\<lambda>r. wk_id r = wr_id w) (refresh_row t w) (workers d)"
      using assms(1) by (auto simp: register_def and_then_Inr_iff)
    then show ?thesis by (rule capacity_refresh [OF cap _ _ _ same(4) wok]) simp_all
  next
    case False
    have wok: "workers_ok d'" using register_workers_ok [OF assms(1)] cap by (simp add: capacity_ok_def)
    have "\<not> sql_exists (\<lambda>r. wk_id r = wr_id w) (workers d)" using False by (force simp: sql_exists_iff)
    then obtain r where "workers d' = workers d @ [r]" "wk_id r = wr_id w" "wk_running r = 0"
      using assms(1) by (auto simp: register_def and_then_Inr_iff)
    with cap wok reserved_count_unknown [OF cap False] show ?thesis
      by (auto simp: capacity_ok_def same(4))
  qed
qed

lemma heartbeat_good:
  assumes "heartbeat t w d = Inr (u, d')" and ok: "store_ok d"
  shows "good_step d d'"
proof (rule good_stepI [OF ok])
  have same: "executions d' = executions d" "events d' = events d" "cleanups d' = cleanups d"
      "reservations d' = reservations d" "attempts d' = attempts d"
    and wk: "workers d' = sql_update (\<lambda>r. wk_id r = wr_id w) (refresh_row t w) (workers d)"
    using assms(1) by (auto simp: heartbeat_def Let_def and_then_Inr_iff)
  show "log_step d d'" "cleanup_step d d'" "executions_step d d'" by (simp_all add: same same_rules)
  show "links_ok d \<Longrightarrow> links_ok d'" by (rule links_same [OF same(1,5,4)])
  show "capacity_ok d'" if cap: "capacity_ok d"
    by (rule capacity_refresh [OF cap wk])
      (use cap heartbeat_workers_ok [OF assms(1)] in \<open>simp_all add: same capacity_ok_def\<close>)
qed

lemma mark_stale_good:
  assumes "mark_stale_before t dl d = Inr (ids, d')" and ok: "store_ok d"
  shows "good_step d d'"
proof (rule good_stepI [OF ok])
  let ?p = "\<lambda>r. wk_state r \<in> set [Ready, Draining] \<and> wk_last_heartbeat r < dl"
  have same: "executions d' = executions d" "events d' = events d" "cleanups d' = cleanups d"
      "reservations d' = reservations d" "attempts d' = attempts d"
    and wk: "workers d' = sql_update ?p (\<lambda>r. r\<lparr>wk_state := Unreachable, wk_updated_at := t\<rparr>) (workers d)"
    using assms(1) by (auto simp: mark_stale_before_def Let_def)
  show "log_step d d'" "cleanup_step d d'" "executions_step d d'" by (simp_all add: same same_rules)
  show "links_ok d \<Longrightarrow> links_ok d'" by (rule links_same [OF same(1,5,4)])
  show "capacity_ok d'" if cap: "capacity_ok d"
    by (rule capacity_refresh [OF cap wk])
      (use cap mark_stale_workers_ok [OF assms(1)] in \<open>simp_all add: same capacity_ok_def\<close>)
qed

text \<open>The operations of the cleanup store touch no other table.\<close>

definition cleanups_only :: "db \<Rightarrow> db \<Rightarrow> bool" where
  "cleanups_only d d' \<longleftrightarrow> (\<exists>cs. d' = d\<lparr>cleanups := cs\<rparr>)"

lemma cleanups_only_good:
  assumes "cleanups_only d d'" and "cleanup_step d d'" and ok: "store_ok d"
  shows "good_step d d'"
  using assms by (intro good_other [OF ok]) (auto simp: cleanups_only_def same_rules)

lemma cleanup_begin_good:
  assumes "cleanup_begin t i a w d = Inr (u, d')" and "store_ok d"
  shows "good_step d d'"
proof (rule cleanups_only_good [OF _ _ assms(2)])
  show "cleanups_only d d'"
    using assms(1) by (auto simp: cleanup_begin_def cleanups_only_def split: option.splits if_splits)
  show "cleanup_step d d'" using cleanup_begin_progress [OF assms(1)] by (simp add: cleanup_step_def)
qed

lemma cleanup_transition_good:
  assumes "cleanup_transition t i s s' h d = Inr (u, d')" and "store_ok d"
  shows "good_step d d'"
proof (rule cleanups_only_good [OF _ _ assms(2)])
  show "cleanups_only d d'"
    using cleanup_transition_Inr(2) [OF assms(1)] by (auto simp: cleanups_only_def)
  show "cleanup_step d d'" using cleanup_transition_progress [OF assms(1)] by (simp add: cleanup_step_def)
qed

lemma fence_for_cleanup_good:
  assumes "fence_for_cleanup t i h d = Inr (u, d')" and "store_ok d"
  shows "good_step d d'"
proof (rule cleanups_only_good [OF _ _ assms(2)])
  show "cleanups_only d d'"
    using assms(1) by (auto simp: fence_for_cleanup_def Let_def cleanups_only_def split: if_splits)
  show "cleanup_step d d'" using fence_for_cleanup_progress [OF assms(1)] by (simp add: cleanup_step_def)
qed

lemma cleanup_resolve_good:
  assumes "cleanup_resolve t i d = Inr (u, d')" and "store_ok d"
  shows "good_step d d'"
proof (rule cleanups_only_good [OF _ _ assms(2)])
  show "cleanups_only d d'"
    using assms(1) by (auto simp: cleanup_resolve_def Let_def cleanups_only_def split: if_splits)
  show "cleanup_step d d'" using cleanup_resolve_progress [OF assms(1)] by (simp add: cleanup_step_def)
qed

lemma append_event_good:
  assumes "append_event ev d = Inr (n, d')" and ok: "store_ok d"
  shows "good_step d d'"
proof -
  have app: "append_in_transaction ev d = Inr (n, d')" using assms(1) by (simp add: append_event_eq)
  show ?thesis
    by (rule good_other [OF ok]) (simp_all add: append_frame [OF app] log_step_append [OF app] same_rules)
qed

section \<open>The machine\<close>

text \<open>
  One rule per operation. The two operations that insert an execution are given one that is
  queued and unassigned: the API builds no other.
\<close>

inductive store_step :: "db \<Rightarrow> db \<Rightarrow> bool" where
  insert: "fresh_execution e \<Longrightarrow> insert_execution dbtext e d = Inr (u, d') \<Longrightarrow> store_step d d'"
| create: "fresh_execution e \<Longrightarrow> create_idempotent dbtext e ev key scope d = Inr (ie, d') \<Longrightarrow> store_step d d'"
| request_cancel: "request_cancellation ck i d = Inr (e, d') \<Longrightarrow> store_step d d'"
| complete_cancel: "complete_cancellation ck i a d = Inr (en, d') \<Longrightarrow> store_step d d'"
| transition: "store_transition t i nxt d = Inr (e, d') \<Longrightarrow> store_step d d'"
| transition_event: "transition_with_event t i nxt ev d = Inr (en, d') \<Longrightarrow> store_step d d'"
| progress: "record_progress t ret e ev d = Inr (n, d') \<Longrightarrow> store_step d d'"
| control_request: "request_control dbtext t i action key d = Inr (ic, d') \<Longrightarrow> store_step d d'"
| control_begin: "begin_control t n w a d = Inr (r, d') \<Longrightarrow> store_step d d'"
| control_mark: "mark_control_side_effect_applied t n s d = Inr (r, d') \<Longrightarrow> store_step d d'"
| control_complete: "complete_control t n e ev d = Inr (rn, d') \<Longrightarrow> store_step d d'"
| append: "append_event ev d = Inr (n, d') \<Longrightarrow> store_step d d'"
| register: "Worker_Store.register t w d = Inr (u, d') \<Longrightarrow> store_step d d'"
| heartbeat: "Worker_Store.heartbeat t w d = Inr (rw, d') \<Longrightarrow> store_step d d'"
| mark_stale: "mark_stale_before t dl d = Inr (ws, d') \<Longrightarrow> store_step d d'"
| cleanup_begin: "Cleanup_Store.cleanup_begin t i a w d = Inr (u, d') \<Longrightarrow> store_step d d'"
| cleanup_transition: "Cleanup_Store.cleanup_transition t i s s' h d = Inr (u, d') \<Longrightarrow> store_step d d'"
| cleanup_advance: "Cleanup_Store.cleanup_advance t seen i v d = Inr (u, d') \<Longrightarrow> store_step d d'"
| cleanup_checkpoint: "Cleanup_Store.cleanup_checkpoint t seen i v h d = Inr (u, d') \<Longrightarrow> store_step d d'"
| cleanup_fence: "fence_for_cleanup t i h d = Inr (u, d') \<Longrightarrow> store_step d d'"
| cleanup_resolve: "Cleanup_Store.cleanup_resolve t i d = Inr (u, d') \<Longrightarrow> store_step d d'"
| reserve: "reserve_next ck coll skipped uuid w d = Inr (z, d') \<Longrightarrow> store_step d d'"
| release: "Reservation_Store.release t i d = Inr (u, d') \<Longrightarrow> store_step d d'"
| release_attempt: "Reservation_Store.release_attempt t i a d = Inr (b, d') \<Longrightarrow> store_step d d'"
| retain: "commit_retained_and_release_capacity t i a d = Inr (u, d') \<Longrightarrow> store_step d d'"
| reconcile: "Reservation_Store.reconcile t seen live d = Inr (is, d') \<Longrightarrow> store_step d d'"
| recover: "recover_unreachable t coll w d = Inr (rs, d') \<Longrightarrow> store_step d d'"
| fence_lost: "fence_lost_attempt t i a d = Inr (l, d') \<Longrightarrow> store_step d d'"
| finalize: "finalize_cleanup ck i a d = Inr (l, d') \<Longrightarrow> store_step d d'"

lemmas operation_good =
  insert_execution_good create_idempotent_good request_cancellation_good complete_cancellation_good
  store_transition_good transition_with_event_good record_progress_good request_control_good
  begin_control_good mark_control_good complete_control_good append_event_good register_good
  heartbeat_good mark_stale_good cleanup_begin_good cleanup_transition_good fence_for_cleanup_good
  cleanup_resolve_good reserve_next_good release_good release_attempt_good commit_retained_good
  reconcile_good recover_unreachable_good fence_lost_attempt_good finalize_cleanup_good

lemma store_step_good:
  assumes "store_step d d'" and "store_ok d"
  shows "good_step d d'"
  using assms(1)
proof cases
  case cleanup_advance
  then show ?thesis
    using cleanup_advance_transition cleanup_transition_good assms(2) by blast
next
  case cleanup_checkpoint
  then show ?thesis
    using cleanup_checkpoint_transition cleanup_transition_good assms(2) by blast
qed (auto intro: operation_good [OF _ assms(2)])

interpretation stores: store_machine store_step store_ok
  by unfold_locales (use store_step_good good_step_ok in blast)

definition reachable :: "db \<Rightarrow> bool" where
  "reachable d \<longleftrightarrow> store_step\<^sup>*\<^sup>* empty_db d"

lemma reachable_ok: "reachable d \<Longrightarrow> store_ok d"
  unfolding reachable_def using stores.run_inv store_ok_empty by blast

lemma reachable_step: "reachable d \<Longrightarrow> store_step d d' \<Longrightarrow> reachable d'"
  unfolding reachable_def by simp

lemma reachable_run: "reachable d \<Longrightarrow> store_step\<^sup>*\<^sup>* d d' \<Longrightarrow> reachable d'"
  unfolding reachable_def by simp

section \<open>Runs\<close>

text \<open>What a run keeps of an execution row: its identity, and its state once it is terminal.\<close>

definition row_le :: "exec_row \<Rightarrow> exec_row \<Rightarrow> bool" where
  "row_le r r' \<longleftrightarrow>
     ex_id r' = ex_id r \<and> ex_role r' = ex_role r \<and> ex_manifest r' = ex_manifest r
     \<and> ex_created_at r' = ex_created_at r \<and> ex_version r \<le> ex_version r'
     \<and> (is_terminal (ex_state r) \<longrightarrow> ex_state r' = ex_state r)"

lemma row_step_le: "row_step r r' \<Longrightarrow> row_le r r'"
  by (auto simp: row_step_def row_le_def state_change_ok_def)

lemma row_le_trans: "row_le a b \<Longrightarrow> row_le b c \<Longrightarrow> row_le a c"
  by (auto simp: row_le_def)

lemma run_row:
  assumes "store_step\<^sup>*\<^sup>* d d'" and "store_ok d" and "find_execution d i = Some r"
  shows "\<exists>r'. find_execution d' i = Some r' \<and> row_le r r'"
  using assms(1)
proof (induction rule: rtranclp_induct)
  case base
  then show ?case using assms(3) by (auto simp: row_le_def)
next
  case (step a b)
  then obtain ra where ra: "find_execution a i = Some ra" "row_le r ra" by blast
  have "executions_step a b"
    using store_step_good [OF step.hyps(2)] stores.run_inv [OF step.hyps(1) assms(2)]
    by (simp add: good_step_def)
  with ra row_step_le row_le_trans show ?case unfolding executions_step_def by blast
qed

lemma run_cleanups:
  assumes "store_step\<^sup>*\<^sup>* d d'" and "store_ok d"
  shows "cleanups_le d d'"
  using assms(1)
proof (induction rule: rtranclp_induct)
  case (step a b)
  have ok: "store_ok a" by (rule stores.run_inv [OF step.hyps(1) assms(2)])
  with store_step_good [OF step.hyps(2) ok] have "cleanups_le a b"
    by (simp add: good_step_def cleanup_step_def store_ok_def)
  with step.IH show ?case by (rule cleanups_le_trans)
qed simp

lemma run_history:
  assumes "store_step\<^sup>*\<^sup>* d d'" and "store_ok d"
  shows "prefix (history d i) (history d' i)"
  using assms(1)
proof (induction rule: rtranclp_induct)
  case (step a b)
  have ok: "store_ok a" by (rule stores.run_inv [OF step.hyps(1) assms(2)])
  with store_step_good [OF step.hyps(2) ok] have "prefix (history a i) (history b i)"
    by (simp add: good_step_def log_step_def)
  with step.IH show ?case by (rule prefix_order.trans)
qed simp

section \<open>Idempotency keys\<close>

text \<open>Only the creation of an execution writes the table of requests, and it only adds to it.\<close>

lemma append_requests: "append_in_transaction ev d = Inr (n, d') \<Longrightarrow> requests d' = requests d"
  by (rule append_frame)

lemma requests_frame [simp]:
  "requests (snd (fence_attempt t i a w d)) = requests d"
  "requests (upsert_cleanup_pending t i a w d) = requests d"
  "requests (free_slot t w d) = requests d" "requests (delete_reservations p d) = requests d"
  by (simp_all add: fence_attempt_def upsert_cleanup_pending_def free_slot_def delete_reservations_def)

lemma recover_rows_requests: "requests (snd (recover_rows t w rows d)) = requests d"
proof (induction rows arbitrary: d)
  case (Cons row rows)
  then show ?case by (cases row) (simp add: split_beta Let_def)
qed simp

lemma release_requests: "release t i d = Inr (u, d') \<Longrightarrow> requests d' = requests d"
  by (auto simp: release_def Let_def split: option.splits)

lemma release_fold_requests:
  "fold (\<lambda>i acc. and_then acc (\<lambda>(_, d). release t i d)) is (Inr ((), d)) = Inr (u, d')
     \<Longrightarrow> requests d' = requests d"
proof (induction "is" arbitrary: d)
  case (Cons i "is")
  obtain d1 where d1: "release t i d = Inr ((), d1)" using release_total by blast
  with Cons release_requests [OF d1] show ?case by simp
qed simp

lemmas transaction_defs =
  insert_execution_def request_cancellation_def complete_cancellation_def store_transition_def
  transition_with_event_def record_progress_def request_control_def begin_control_def
  mark_control_side_effect_applied_def complete_control_def stale_control_def append_event_eq
  Worker_Store.register_def Worker_Store.heartbeat_def mark_stale_before_def
  Cleanup_Store.cleanup_begin_def fence_for_cleanup_def Cleanup_Store.cleanup_resolve_def
  Reservation_Store.release_def Reservation_Store.release_attempt_def
  commit_retained_and_release_capacity_def finalize_cleanup_def reserve_next_def
  insert_reservation_def insert_attempt_def take_slot_def recover_unreachable_def
  execution_transition_def

lemma store_step_requests:
  assumes "store_step d d'"
  shows "prefix (requests d) (requests d')"
  using assms
proof cases
  case (create e dbtext ev key scope ie)
  then show ?thesis
    by (auto simp: create_idempotent_def Let_def and_then_Inr_iff dest!: append_requests
        split: option.splits if_splits)
next
  case cleanup_transition
  then show ?thesis using cleanup_transition_Inr(2) by fastforce
next
  case cleanup_advance
  then show ?thesis using cleanup_advance_transition cleanup_transition_Inr(2) by fastforce
next
  case cleanup_checkpoint
  then show ?thesis using cleanup_checkpoint_transition cleanup_transition_Inr(2) by fastforce
next
  case reconcile
  then show ?thesis
    by (auto simp: Reservation_Store.reconcile_def Let_def and_then_Inr_iff dest!: release_fold_requests)
next
  case fence_lost
  then show ?thesis using fence_lost_attempt_shape by fastforce
next
  case (recover t coll w rs)
  then show ?thesis
    using recover_rows_requests [of t w "worker_reservations coll w d" d]
    by (auto simp: recover_unreachable_def and_then_Inr_iff split: if_splits)
qed (auto simp: transaction_defs Let_def and_then_Inr_iff ok_or_Inr_iff dest!: append_requests
    split: if_splits option.splits)

lemma run_requests: "store_step\<^sup>*\<^sup>* d d' \<Longrightarrow> prefix (requests d) (requests d')"
  by (induction rule: rtranclp_induct) (auto dest: store_step_requests intro: prefix_order.trans)

end
