(* ===== verification/Control_Authority.thy ===== *)
theory Control_Authority
  imports Store_Machine
begin

text \<open>
  The authority of an interactive control along the runs of the stores: what was fixed when
  a control was accepted never changes, and an accepted control suits the state it was
  accepted for.
\<close>

definition control_fixed :: "control_row \<Rightarrow> control_row" where
  "control_fixed c = c\<lparr>cr_side_effect_session_id := None, cr_phase := Accepted,
     cr_stale_reason := None, cr_completed_at := None\<rparr>"

definition controls_ok :: "db \<Rightarrow> bool" where
  "controls_ok d \<longleftrightarrow> (\<forall>c \<in> set (controls d). action_allowed (cr_action c) (cr_accepted_state c))"

definition controls_step :: "db \<Rightarrow> db \<Rightarrow> bool" where
  "controls_step d d' \<longleftrightarrow>
     prefix (map control_fixed (controls d)) (map control_fixed (controls d'))
     \<and> (controls_ok d \<longrightarrow> controls_ok d')"

lemma control_fixed_sel:
  "cr_action (control_fixed c) = cr_action c" "cr_accepted_state (control_fixed c) = cr_accepted_state c"
  by (simp_all add: control_fixed_def)

lemma control_fixed_allowed:
  "control_fixed c = control_fixed c' \<Longrightarrow>
     action_allowed (cr_action c) (cr_accepted_state c) = action_allowed (cr_action c') (cr_accepted_state c')"
  by (metis control_fixed_sel)

lemma control_fixed_update [simp]:
  "control_fixed (c\<lparr>cr_phase := x\<rparr>) = control_fixed c"
  "control_fixed (c\<lparr>cr_completed_at := y\<rparr>) = control_fixed c"
  "control_fixed (c\<lparr>cr_stale_reason := z\<rparr>) = control_fixed c"
  "control_fixed (c\<lparr>cr_side_effect_session_id := u\<rparr>) = control_fixed c"
  by (simp_all add: control_fixed_def)

definition fixed_controls :: "db \<Rightarrow> control_row list" where
  "fixed_controls d = map control_fixed (controls d)"

lemma controls_step_fixed: "fixed_controls d' = fixed_controls d \<Longrightarrow> controls_step d d'"
proof -
  assume eq: "fixed_controls d' = fixed_controls d"
  have "controls_ok d'" if "controls_ok d"
    unfolding controls_ok_def
  proof
    fix c assume "c \<in> set (controls d')"
    then have "control_fixed c \<in> set (fixed_controls d')" by (simp add: fixed_controls_def)
    then have "control_fixed c \<in> set (fixed_controls d)" by (simp only: eq)
    then obtain b where "b \<in> set (controls d)" "control_fixed b = control_fixed c"
      by (auto simp: fixed_controls_def)
    with that control_fixed_allowed [of b c] show "action_allowed (cr_action c) (cr_accepted_state c)"
      by (simp add: controls_ok_def)
  qed
  with eq show ?thesis by (simp add: controls_step_def fixed_controls_def)
qed

lemma fixed_controls_frame [simp]:
  "fixed_controls (snd (fence_attempt t i a w d)) = fixed_controls d"
  "fixed_controls (upsert_cleanup_pending t i a w d) = fixed_controls d"
  "fixed_controls (free_slot t w d) = fixed_controls d"
  "fixed_controls (delete_reservations p d) = fixed_controls d"
  "fixed_controls (stale_controls t i m d) = fixed_controls d"
  "fixed_controls (stale_control t n m d) = fixed_controls d"
  "fixed_controls (close_cancellation t i d) = fixed_controls d"
  "fixed_controls (update_execution i f d) = fixed_controls d"
  by (simp_all add: fixed_controls_def fence_attempt_def upsert_cleanup_pending_def free_slot_def
      delete_reservations_def stale_controls_def stale_control_def map_key_update)

lemma fixed_controls_update [simp]:
  "fixed_controls (d\<lparr>executions := a\<rparr>) = fixed_controls d" "fixed_controls (d\<lparr>attempts := b\<rparr>) = fixed_controls d"
  "fixed_controls (d\<lparr>cleanups := c\<rparr>) = fixed_controls d" "fixed_controls (d\<lparr>workers := e\<rparr>) = fixed_controls d"
  "fixed_controls (d\<lparr>reservations := f\<rparr>) = fixed_controls d" "fixed_controls (d\<lparr>requests := g\<rparr>) = fixed_controls d"
  "fixed_controls (d\<lparr>cancellations := h\<rparr>) = fixed_controls d"
  by (simp_all add: fixed_controls_def)

lemma fixed_update_control [simp]:
  assumes "\<And>c. control_fixed (f c) = control_fixed c"
  shows "fixed_controls (update_control n f d) = fixed_controls d"
    and "fixed_controls (d\<lparr>controls := sql_update p f (controls d)\<rparr>) = fixed_controls d"
  by (simp_all add: fixed_controls_def map_key_update assms)

lemma append_controls: "append_in_transaction ev d = Inr (n, d') \<Longrightarrow> fixed_controls d' = fixed_controls d"
  by (simp add: fixed_controls_def append_frame)

lemma recover_rows_controls: "fixed_controls (snd (recover_rows t w rows d)) = fixed_controls d"
proof (induction rows arbitrary: d)
  case (Cons row rows)
  then show ?case by (cases row) (simp add: split_beta Let_def)
qed simp

lemma release_controls: "release t i d = Inr (u, d') \<Longrightarrow> fixed_controls d' = fixed_controls d"
  by (auto simp: release_def Let_def split: option.splits)

lemma release_fold_controls:
  "fold (\<lambda>i acc. and_then acc (\<lambda>(_, d). release t i d)) is (Inr ((), d)) = Inr (u, d')
     \<Longrightarrow> fixed_controls d' = fixed_controls d"
proof (induction "is" arbitrary: d)
  case (Cons i "is")
  obtain d1 where d1: "release t i d = Inr ((), d1)" using release_total by blast
  with Cons release_controls [OF d1] show ?case by simp
qed simp

lemma request_control_step:
  assumes "request_control dbtext t i action key d = Inr (ic, d')"
  shows "controls_step d d'"
proof -
  have "controls d' = controls d \<or>
      (\<exists>c. controls d' = controls d @ [c] \<and> action_allowed (cr_action c) (cr_accepted_state c))"
    using assms
    by (auto simp: request_control_def Let_def and_then_Inr_iff ok_or_Inr_iff split: if_splits option.splits)
  then show ?thesis by (auto simp: controls_step_def controls_ok_def)
qed

lemma mark_control_fixed:
  assumes "mark_control_side_effect_applied t n s d = Inr (r, d')"
  shows "fixed_controls d' = fixed_controls d"
  using assms
  by (auto simp: mark_control_side_effect_applied_def and_then_Inr_iff Let_def split: if_splits)

lemma begin_control_fixed:
  assumes "begin_control t n w a d = Inr (r, d')"
  shows "fixed_controls d' = fixed_controls d"
  using assms
  by (auto simp: begin_control_def and_then_Inr_iff Let_def split: if_splits)

lemma complete_control_fixed:
  assumes "complete_control t n e ev d = Inr (r, d')"
  shows "fixed_controls d' = fixed_controls d"
proof (rule complete_control_shape [OF assms])
  fix d3 d2 :: db and m
  assume app: "append_in_transaction ev ((update_execution (ex_id e)
          (\<lambda>r. r\<lparr>ex_state := ex_state e, ex_session_id := ex_session_id e,
                 ex_updated_at := ex_updated_at e, ex_version := ex_version r + 1\<rparr>) d)\<lparr>attempts :=
          sql_update (\<lambda>a. at_execution_id a = ex_id e \<and> Some (at_attempt_id a) = ex_attempt_id e
               \<and> at_finished_at a = None)
            (\<lambda>a. a\<lparr>at_state := ex_state e, at_session_id := ex_session_id e,
                   at_updated_at := ex_updated_at e\<rparr>) (attempts d)\<rparr>) = Inr (m, d3)"
    and d': "d' = update_control n (\<lambda>c. c\<lparr>cr_phase := ControlCompleted,
             cr_completed_at := Some (ex_updated_at e)\<rparr>) d3"
  show ?thesis using append_controls [OF app] by (simp add: d')
qed simp_all

lemma store_step_controls:
  assumes "store_step d d'"
  shows "controls_step d d'"
  using assms
proof cases
  case (control_request dbtext t i action key ic)
  then show ?thesis by (rule request_control_step)
next
  case (create e dbtext ev key scope ie)
  then have "fixed_controls d' = fixed_controls d"
    by (auto simp: create_idempotent_def Let_def and_then_Inr_iff dest!: append_controls
        split: option.splits if_splits)
  then show ?thesis by (rule controls_step_fixed)
next
  case (cleanup_transition t i s s' h u)
  then show ?thesis using cleanup_transition_Inr(2) by (intro controls_step_fixed) fastforce
next
  case (cleanup_advance t seen i v u)
  then show ?thesis
    using cleanup_advance_transition cleanup_transition_Inr(2) by (intro controls_step_fixed) fastforce
next
  case (cleanup_checkpoint t seen i v h u)
  then show ?thesis
    using cleanup_checkpoint_transition cleanup_transition_Inr(2) by (intro controls_step_fixed) fastforce
next
  case reconcile
  then show ?thesis
    by (auto simp: Reservation_Store.reconcile_def Let_def and_then_Inr_iff dest!: release_fold_controls
        intro!: controls_step_fixed)
next
  case fence_lost
  then show ?thesis using fence_lost_attempt_shape by (intro controls_step_fixed) fastforce
next
  case (recover t coll w rs)
  then show ?thesis
    using recover_rows_controls [of t w "worker_reservations coll w d" d]
    by (auto simp: recover_unreachable_def and_then_Inr_iff intro!: controls_step_fixed split: if_splits)
qed (auto simp: transaction_defs Let_def and_then_Inr_iff ok_or_Inr_iff dest!: append_controls
    intro!: controls_step_fixed dest: mark_control_fixed begin_control_fixed complete_control_fixed
    split: if_splits option.splits)

lemma run_controls: "store_step\<^sup>*\<^sup>* d d' \<Longrightarrow> prefix (fixed_controls d) (fixed_controls d')"
  by (induction rule: rtranclp_induct)
    (auto dest!: store_step_controls simp: controls_step_def fixed_controls_def intro: prefix_order.trans)

lemma reachable_controls_ok: "reachable d \<Longrightarrow> controls_ok d"
  unfolding reachable_def
  by (induction rule: rtranclp_induct)
    (auto dest!: store_step_controls simp: controls_step_def controls_ok_def empty_db_def)

end
