(* ===== verification/Demo_Run.thy ===== *)
theory Demo_Run
  imports Control_Authority
begin

text \<open>
  A concrete run of the stores on which the properties are evaluated: a worker registers,
  an execution is created, claimed and prepared, its cancellation is requested.
\<close>

definition demo_labels :: ownership_labels where
  "demo_labels = \<lparr>ol_execution_id = ''e1'', ol_worker_id = ''unassigned'',
     ol_repository = ''acme/app'', ol_issue = None\<rparr>"

definition demo_execution :: execution where
  "demo_execution =
     \<lparr>ex_id = ''e1'', ex_role = Implementation, ex_state = Queued, ex_manifest = demo_manifest,
      ex_worker_id = None, ex_attempt_id = None, ex_session_id = None, ex_worktree_path = None,
      ex_labels = demo_labels, ex_created_at = 1, ex_updated_at = 1, ex_result = None\<rparr>"

definition demo_event :: execution_event where
  "demo_event =
     \<lparr>ev_execution_id = ''e1'', ev_attempt_id = None, ev_sequence = 0, ev_at = 1,
      ev_state = Queued, ev_kind = ExecutionCreated\<rparr>"

definition demo_clock :: clock where
  "demo_clock = \<lparr>ck_utc = 2, ck_db = 2\<rparr>"

definition demo_row :: worker_row where
  "demo_row = \<lparr>wk_id = ''w1'', wk_capabilities = demo_capabilities, wk_proof = Some demo_proof,
     wk_state = Ready, wk_running = 0, wk_last_heartbeat = 0, wk_updated_at = 0\<rparr>"

definition demo_created :: event_row where
  "demo_created = \<lparr>et_execution_id = ''e1'', et_sequence = 1, et_at = 1, et_state = Queued,
     et_payload = demo_event\<lparr>ev_sequence := 1\<rparr>\<rparr>"

definition demo_request :: request_row where
  "demo_request = \<lparr>rt_idempotency_key = ''k1'', rt_scope = ''create'',
     rt_manifest = Some demo_manifest, rt_execution_id = ''e1'', rt_created_at = 1\<rparr>"

definition demo_registered :: db where
  "demo_registered = empty_db\<lparr>workers := [demo_row]\<rparr>"

definition demo_queued :: db where
  "demo_queued = demo_registered\<lparr>executions := [row_of_execution demo_execution],
     requests := [demo_request], events := [demo_created]\<rparr>"

definition demo_reservation :: reservation_row where
  "demo_reservation = \<lparr>rn_execution_id = ''e1'', rn_worker_id = ''w1'', rn_attempt_id = ''attempt-u'',
     rn_cpu = 2, rn_memory_mib = 4096, rn_disk_gib = 20, rn_created_at = 2\<rparr>"

definition demo_attempt :: attempt_row where
  "demo_attempt = \<lparr>at_attempt_id = ''attempt-u'', at_execution_id = ''e1'', at_worker_id = ''w1'',
     at_state = WorkerAssigned, at_worktree_path = None, at_session_id = None, at_result = None,
     at_started_at = 2, at_updated_at = 2, at_finished_at = None\<rparr>"

definition demo_assigned :: execution where
  "demo_assigned = demo_execution\<lparr>ex_state := WorkerAssigned, ex_updated_at := 2,
     ex_worker_id := Some ''w1'', ex_attempt_id := Some ''attempt-u'',
     ex_labels := demo_labels\<lparr>ol_worker_id := ''w1''\<rparr>\<rparr>"

definition demo_claimed :: db where
  "demo_claimed = demo_queued\<lparr>executions := [(row_of_execution demo_assigned)\<lparr>ex_version := 2\<rparr>],
     reservations := [demo_reservation], attempts := [demo_attempt],
     workers := [demo_row\<lparr>wk_running := 1, wk_updated_at := 2\<rparr>]\<rparr>"

definition demo_authority :: cleanup_row where
  "demo_authority = \<lparr>ca_execution_id = ''e1'', ca_attempt_id = ''attempt-u'', ca_worker_id = ''w1'',
     ca_phase = ''ACTIVE:RESERVED'', ca_handles = JObject [], ca_created_at = 3, ca_updated_at = 3\<rparr>"

definition demo_prepared :: db where
  "demo_prepared = demo_claimed\<lparr>cleanups := [demo_authority]\<rparr>"

definition demo_cancelling :: db where
  "demo_cancelling = demo_prepared\<lparr>cancellations :=
     [\<lparr>cn_execution_id = ''e1'', cn_requested_at = 2, cn_completed_at = None\<rparr>]\<rparr>"

lemma demo_register: "register 0 (demo_worker ''w1'' 0) empty_db = Inr ((), demo_registered)"
  by (simp add: register_def worker_validate_def demo_worker_def demo_capabilities_def
      health_errors_are_sanitized_def has_complete_proof_def demo_proof_complete sql_exists_def
      empty_db_def demo_registered_def demo_row_def)

lemma demo_create:
  "create_idempotent dbtext demo_execution demo_event ''k1'' ''create'' demo_registered
     = Inr (\<lparr>ie_execution = demo_execution, ie_created = True, ie_event_sequence = Some 1\<rparr>, demo_queued)"
  by (simp add: create_idempotent_def demo_execution_def demo_event_def demo_registered_def
      empty_db_def sql_lookup_def sql_exists_def append_in_transaction_def latest_sequence_def
      events_of_def bigint_max_def demo_queued_def demo_request_def demo_created_def)

lemma demo_decode: "decode_worker demo_row = Inr (demo_worker ''w1'' 0)"
  by (simp add: decode_worker_def demo_row_def demo_worker_def u32_try_from_def ok_or_def)

lemma demo_queued_worker: "find_worker demo_queued ''w1'' = Some demo_row"
  by (simp add: demo_queued_def demo_registered_def empty_db_def sql_lookup_def demo_row_def)

lemma demo_queued_reserved:
  "reserved_on ''w1'' demo_queued
     = Inr \<lparr>rv_slots = 0, rv_cpu = 0, rv_memory_mib = 0, rv_disk_gib = 0\<rparr>"
  by (simp add: reserved_on_def demo_queued_def demo_registered_def empty_db_def sum_bigint_def
      u32_try_from_def u64_try_from_def ok_or_def)

lemma demo_queued_fits:
  "worker_fits_with_reservations (demo_worker ''w1'' 0) default_runtime
     \<lparr>rv_slots = 0, rv_cpu = 0, rv_memory_mib = 0, rv_disk_gib = 0\<rparr>"
  using demo_worker_fits [of "''w1''" 0] by (simp add: worker_fits_def demo_worker_def)

lemma demo_queued_claimable: "claimable demo_queued (row_of_execution demo_execution)"
  by (simp add: demo_queued_def demo_registered_def empty_db_def claimable_def
      cancellation_pending_def sql_exists_def demo_execution_def)

lemma demo_queued_tables:
  "reservations demo_queued = []" "attempts demo_queued = []" "ex_id demo_execution = ''e1''"
  "executions demo_queued = [row_of_execution demo_execution]" "workers demo_queued = [demo_row]"
  by (simp_all add: demo_queued_def demo_registered_def empty_db_def demo_execution_def)

lemma demo_reserve:
  "reserve_next demo_clock coll (\<lambda>_. False) ''u'' ''w1'' demo_queued
     = Inr (Some \<lparr>rz_execution = demo_assigned, rz_worker_id = ''w1'', rz_attempt_id = ''attempt-u'',
              rz_cpu = 2, rz_memory_mib = 4096\<rparr>, demo_claimed)"
proof -
  note w = demo_queued_worker and r = demo_queued_reserved and fits = demo_queued_fits
    and rest = demo_queued_tables
  have q: "queue_order coll (\<lambda>_. False) demo_queued = [row_of_execution demo_execution]"
    by (simp add: queue_order_def rest demo_queued_claimable)
  have man: "mf_runtime (ex_manifest demo_execution) = default_runtime"
    by (simp add: demo_execution_def demo_manifest_def)
  have ready: "has_complete_proof (demo_worker ''w1'' 0)" "wr_state (demo_worker ''w1'' 0) = Ready"
    "wc_max_concurrent (wr_capabilities (demo_worker ''w1'' 0)) \<noteq> 0"
    by (simp_all add: has_complete_proof_def demo_worker_def demo_proof_complete demo_capabilities_def)
  have moved: "execution_transition 2 WorkerAssigned demo_execution
      = Inr (demo_execution\<lparr>ex_state := WorkerAssigned, ex_updated_at := 2\<rparr>)"
    by (simp add: execution_transition_def demo_execution_def can_transition_to_def)
  have need: "rq_cpu default_runtime = 2" "rq_memory_mib default_runtime = 4096"
    "rq_disk_gib default_runtime = 20"
    by (simp_all add: default_runtime_def)
  have idle: "wk_running demo_row = 0" by (simp add: demo_row_def)
  show ?thesis
    unfolding reserve_next_def w r q
    by (simp add: ok_or_def demo_decode fits man ready moved rest demo_clock_def i32_try_from_def
        i64_try_from_def insert_reservation_def sql_exists_def need insert_attempt_def
        take_slot_def update_execution_def idle Let_def)
      (simp add: demo_claimed_def need rest demo_assigned_def demo_reservation_def demo_attempt_def
        demo_execution_def sql_update_def demo_row_def row_of_execution_def execution.defs exec_row.defs)
qed

lemma demo_begin:
  "cleanup_begin 3 ''e1'' ''attempt-u'' ''w1'' demo_claimed = Inr ((), demo_prepared)"
  by (simp add: cleanup_begin_def demo_claimed_def demo_queued_def demo_registered_def empty_db_def
      sql_lookup_def demo_prepared_def demo_authority_def)

lemma demo_prepared_execution:
  "find_execution demo_prepared ''e1'' = Some ((row_of_execution demo_assigned)\<lparr>ex_version := 2\<rparr>)"
  by (simp add: demo_prepared_def demo_claimed_def sql_lookup_def demo_assigned_def demo_execution_def)

lemma demo_cancel:
  "request_cancellation demo_clock ''e1'' demo_prepared = Inr (demo_assigned, demo_cancelling)"
proof -
  have row: "decode_execution ((row_of_execution demo_assigned)\<lparr>ex_version := 2\<rparr>) = demo_assigned"
    by (simp add: decode_execution_def row_of_execution_def execution.defs exec_row.defs)
  have rest: "cancellations demo_prepared = []" "controls demo_prepared = []"
    "ex_state demo_assigned = WorkerAssigned"
    by (simp_all add: demo_prepared_def demo_claimed_def demo_queued_def demo_registered_def
        empty_db_def demo_assigned_def)
  have none: "sql_lookup cn_execution_id ''e1'' [] = None" by (simp add: sql_lookup_def)
  show ?thesis
    by (simp add: request_cancellation_def demo_prepared_execution ok_or_def row rest is_terminal_def
        none stale_controls_def sql_update_def demo_clock_def demo_cancelling_def Let_def)
qed

lemma demo_registered_step: "store_step empty_db demo_registered"
  by (rule store_step.register [OF demo_register])

lemma demo_queued_step: "store_step demo_registered demo_queued"
  by (rule store_step.create [OF _ demo_create])
    (simp add: fresh_execution_def unassigned_def demo_execution_def)

lemma demo_claimed_step: "store_step demo_queued demo_claimed"
  by (rule store_step.reserve [OF demo_reserve])

lemma demo_prepared_step: "store_step demo_claimed demo_prepared"
  by (rule store_step.cleanup_begin [OF demo_begin])

lemma demo_cancelling_step: "store_step demo_prepared demo_cancelling"
  by (rule store_step.request_cancel [OF demo_cancel])

lemma demo_reachable:
  "reachable demo_registered" "reachable demo_queued" "reachable demo_claimed"
  "reachable demo_prepared" "reachable demo_cancelling"
proof -
  show r: "reachable demo_registered"
    unfolding reachable_def using demo_registered_step by blast
  show q: "reachable demo_queued" by (rule reachable_step [OF r demo_queued_step])
  show c: "reachable demo_claimed" by (rule reachable_step [OF q demo_claimed_step])
  show p: "reachable demo_prepared" by (rule reachable_step [OF c demo_prepared_step])
  show "reachable demo_cancelling" by (rule reachable_step [OF p demo_cancelling_step])
qed

lemma demo_run: "store_step\<^sup>*\<^sup>* demo_queued demo_cancelling"
  using demo_claimed_step demo_prepared_step demo_cancelling_step
  by (meson r_into_rtranclp rtranclp_trans)

lemma demo_prepared_authority: "find_cleanup demo_prepared ''e1'' = Some demo_authority"
  by (simp add: demo_prepared_def sql_lookup_def demo_authority_def)

text \<open>The other branch: the execution is withdrawn while it is still queued.\<close>

definition demo_withdrawn :: db where
  "demo_withdrawn =
     (case request_cancellation demo_clock ''e1'' demo_queued of Inr (_, d) \<Rightarrow> d | Inl _ \<Rightarrow> demo_queued)"

lemma demo_withdraw:
  "\<exists>e. request_cancellation demo_clock ''e1'' demo_queued = Inr (e, demo_withdrawn)
     \<and> (\<exists>r. find_execution demo_withdrawn ''e1'' = Some r \<and> ex_state r = Cancelled)"
proof -
  have row: "find_execution demo_queued ''e1'' = Some (row_of_execution demo_execution)"
    by (simp add: demo_queued_def sql_lookup_def demo_execution_def)
  have rest: "cancellations demo_queued = []" "ex_state demo_execution = Queued"
    "ex_worker_id demo_execution = None" "ex_attempt_id demo_execution = None"
    "events demo_queued = [demo_created]" "ex_id demo_execution = ''e1''"
    by (simp_all add: demo_queued_def demo_registered_def empty_db_def demo_execution_def)
  have none: "sql_lookup cn_execution_id ''e1'' [] = None" by (simp add: sql_lookup_def)
  have "\<exists>e d. request_cancellation demo_clock ''e1'' demo_queued = Inr (e, d)
      \<and> (\<exists>r. find_execution d ''e1'' = Some r \<and> ex_state r = Cancelled)"
    by (simp add: sql_lookup_update request_cancellation_def row ok_or_def rest none is_terminal_def Let_def
        execution_transition_def can_transition_to_def append_in_transaction_def latest_sequence_def
        events_of_def bigint_max_def demo_created_def)
  then show ?thesis by (auto simp: demo_withdrawn_def)
qed

lemma demo_withdrawn_step: "store_step demo_queued demo_withdrawn"
  using demo_withdraw store_step.request_cancel by blast

lemma demo_reachable_withdrawn: "reachable demo_withdrawn"
  by (rule reachable_step [OF demo_reachable(2) demo_withdrawn_step])

lemma demo_withdrawn_execution: "\<exists>r. find_execution demo_withdrawn ''e1'' = Some r \<and> ex_state r = Cancelled"
  using demo_withdraw by blast

definition demo_withdrawn_late :: db where
  "demo_withdrawn_late = (case mark_stale_before 5 5 demo_withdrawn of Inr (_, d) \<Rightarrow> d | Inl _ \<Rightarrow> demo_withdrawn)"

lemma demo_withdrawn_late_step: "store_step demo_withdrawn demo_withdrawn_late"
proof -
  obtain ws where "mark_stale_before 5 5 demo_withdrawn = Inr (ws, demo_withdrawn_late)"
    by (auto simp: demo_withdrawn_late_def mark_stale_before_def Let_def)
  then show ?thesis by (rule store_step.mark_stale)
qed


text \<open>The cancelled execution after its worker has cleaned up.\<close>

definition demo_cleaned :: db where
  "demo_cleaned = demo_cancelling\<lparr>reservations := [],
     attempts := [demo_attempt\<lparr>at_finished_at := Some 3\<rparr>],
     cleanups := [demo_authority\<lparr>ca_phase := ''RESOLVED''\<rparr>]\<rparr>"

lemma demo_cleaned_completes:
  "\<exists>e n d'. complete_cancellation demo_clock ''e1'' ''attempt-u'' demo_cleaned = Inr ((e, n), d')"
proof -
  have row: "find_execution demo_cleaned ''e1'' = Some ((row_of_execution demo_assigned)\<lparr>ex_version := 2\<rparr>)"
    using demo_prepared_execution by (simp add: demo_cleaned_def demo_cancelling_def)
  have tables: "reservations demo_cleaned = []" "attempts demo_cleaned = [demo_attempt\<lparr>at_finished_at := Some 3\<rparr>]"
    "cleanups demo_cleaned = [demo_authority\<lparr>ca_phase := ''RESOLVED''\<rparr>]"
    "events demo_cleaned = [demo_created]"
    by (simp_all add: demo_cleaned_def demo_cancelling_def demo_prepared_def demo_claimed_def demo_queued_def)
  have pend: "cancellation_pending demo_cleaned ''e1''"
    by (simp add: cancellation_pending_def sql_exists_def demo_cleaned_def demo_cancelling_def)
  have st: "ex_state demo_assigned = WorkerAssigned" by (simp add: demo_assigned_def)
  show ?thesis
    by (simp add: complete_cancellation_def row ok_or_def pend execution_transition_def st Let_def
        can_transition_to_def is_terminal_def sql_exists_def tables demo_attempt_def demo_authority_def
        append_in_transaction_def latest_sequence_def events_of_def demo_created_def bigint_max_def)
qed

section \<open>An interactive execution\<close>

definition demo_step_event :: "time \<Rightarrow> execution_state \<Rightarrow> event_kind \<Rightarrow> execution_event" where
  "demo_step_event t s k = \<lparr>ev_execution_id = ''e1'', ev_attempt_id = Some ''attempt-u'',
     ev_sequence = 0, ev_at = t, ev_state = s, ev_kind = k\<rparr>"

definition demo_step_row :: "nat \<Rightarrow> execution_event \<Rightarrow> event_row" where
  "demo_step_row n e = \<lparr>et_execution_id = ''e1'', et_sequence = n, et_at = ev_at e,
     et_state = ev_state e, et_payload = e\<lparr>ev_sequence := n\<rparr>\<rparr>"

definition demo_at :: "execution \<Rightarrow> nat \<Rightarrow> event_row list \<Rightarrow> control_row list \<Rightarrow> db" where
  "demo_at e v evs cs = demo_claimed\<lparr>executions := [(row_of_execution e)\<lparr>ex_version := v\<rparr>],
     attempts := [progress_attempt e demo_attempt], events := demo_created # evs, controls := cs,
     next_request_id := Suc (length cs)\<rparr>"

definition demo_provisioning :: execution where
  "demo_provisioning = demo_assigned\<lparr>ex_state := Provisioning, ex_worktree_path := Some ''/w'',
     ex_updated_at := 3\<rparr>"

definition demo_running :: execution where
  "demo_running = demo_provisioning\<lparr>ex_state := Running, ex_session_id := Some ''s1'', ex_updated_at := 4\<rparr>"

definition demo_paused :: execution where
  "demo_paused = demo_running\<lparr>ex_state := PausedForHuman, ex_updated_at := 6\<rparr>"

definition demo_control :: "control_phase \<Rightarrow> session_id option \<Rightarrow> control_row" where
  "demo_control p s = \<lparr>cr_request_id = 1, cr_execution_id = ''e1'', cr_action = Pause,
     cr_idempotency_key = ''p1'', cr_accepted_worker_id = ''w1'', cr_accepted_attempt_id = ''attempt-u'',
     cr_source_session_id = ''s1'', cr_worktree_path = ''/w'', cr_accepted_version = 4,
     cr_accepted_state = Running, cr_target_session_id = None, cr_side_effect_session_id = s,
     cr_phase = p, cr_stale_reason = None, cr_requested_at = 5, cr_completed_at = None\<rparr>"

definition demo_provisioned :: execution_event where
  "demo_provisioned = demo_step_event 3 Provisioning EnvironmentReady"

definition demo_started :: execution_event where
  "demo_started = demo_step_event 4 Running (AgentStarted ''s1'')"

lemmas demo_defs = demo_at_def demo_claimed_def demo_queued_def demo_registered_def empty_db_def
  demo_paused_def demo_running_def demo_provisioning_def demo_assigned_def demo_execution_def

lemmas append_defs = append_in_transaction_def latest_sequence_def events_of_def bigint_max_def

definition demo_pause_event :: execution_event where
  "demo_pause_event = demo_step_event 6 PausedForHuman ExecutionPaused"

abbreviation demo_evs :: "event_row list" where
  "demo_evs \<equiv> [demo_step_row 2 demo_provisioned, demo_step_row 3 demo_started]"

lemmas demo_eval = demo_defs sql_lookup_def ok_or_def cancellation_pending_def sql_exists_def
  rows_affected_def demo_attempt_def sql_update_def progress_row_def progress_attempt_def
  can_transition_to_def is_terminal_def append_defs demo_created_def demo_event_def
  demo_provisioned_def demo_started_def demo_pause_event_def demo_step_event_def demo_step_row_def
  row_of_execution_def decode_execution_def execution.defs exec_row.defs demo_control_def
  find_control_def update_control_def expected_session_def

lemma demo_provision:
  "record_progress 3 False demo_provisioning demo_provisioned demo_claimed
     = Inr (2, demo_at demo_provisioning 3 [demo_step_row 2 demo_provisioned] [])"
  by (simp add: record_progress_def demo_eval)

lemma demo_start:
  "record_progress 4 False demo_running demo_started
       (demo_at demo_provisioning 3 [demo_step_row 2 demo_provisioned] [])
     = Inr (3, demo_at demo_running 4 demo_evs [])"
  by (simp add: record_progress_def demo_eval)

lemma demo_request_pause:
  "\<exists>ic. request_control dbtext 5 ''e1'' Pause ''p1'' (demo_at demo_running 4 demo_evs [])
     = Inr (ic, demo_at demo_running 4 demo_evs [demo_control Accepted None])"
  by (simp add: request_control_def demo_eval action_allowed_def Let_def)

lemma demo_begin_pause:
  "begin_control 5 1 ''w1'' ''attempt-u'' (demo_at demo_running 4 demo_evs [demo_control Accepted None])
     = Inr (Inr (), demo_at demo_running 4 demo_evs [demo_control Applying None])"
  by (simp add: begin_control_def demo_eval control_fenced_def)

definition demo_pausing :: db where
  "demo_pausing = demo_at demo_running 4 demo_evs [demo_control SideEffectApplied (Some ''s1'')]"

lemma demo_mark_pause:
  "mark_control_side_effect_applied 5 1 None (demo_at demo_running 4 demo_evs [demo_control Applying None])
     = Inr (Inr (), demo_pausing)"
  by (simp add: mark_control_side_effect_applied_def demo_pausing_def demo_eval)

lemma demo_complete_pause:
  "\<exists>d'. complete_control 6 1 demo_paused demo_pause_event demo_pausing
     = Inr (Inr (Some 4), d')"
  by (simp add: complete_control_def demo_pausing_def demo_eval control_target_state_def event_matches_action_def
      update_execution_def)

lemma demo_pausing_reachable:
  "reachable demo_pausing"
proof -
  obtain ic where r: "request_control id 5 ''e1'' Pause ''p1'' (demo_at demo_running 4 demo_evs [])
     = Inr (ic, demo_at demo_running 4 demo_evs [demo_control Accepted None])"
    using demo_request_pause by blast
  show ?thesis
    by (rule reachable_step [OF reachable_step [OF reachable_step [OF reachable_step [OF reachable_step
        [OF demo_reachable(3) store_step.progress [OF demo_provision]] store_step.progress [OF demo_start]]
        store_step.control_request [OF r]] store_step.control_begin [OF demo_begin_pause]]
        store_step.control_mark [OF demo_mark_pause]])
qed


text \<open>The claimed execution after its worker was lost and its resources were removed.\<close>

definition demo_lost :: db where
  "demo_lost = demo_claimed\<lparr>attempts := [demo_attempt\<lparr>at_finished_at := Some 3\<rparr>],
     cleanups := [demo_authority\<lparr>ca_phase := ''STORAGE_RELEASED''\<rparr>]\<rparr>"

lemma demo_lost_facts:
  "find_execution demo_lost ''e1'' = Some ((row_of_execution demo_assigned)\<lparr>ex_version := 2\<rparr>)"
  "ex_attempt_id ((row_of_execution demo_assigned)\<lparr>ex_version := 2\<rparr>) = Some ''attempt-u''"
  "\<not> cancellation_pending demo_lost ''e1''"
  "find_cleanup demo_lost ''e1'' = Some (demo_authority\<lparr>ca_phase := ''STORAGE_RELEASED''\<rparr>)"
  "ca_attempt_id (demo_authority\<lparr>ca_phase := ''STORAGE_RELEASED''\<rparr>) = ''attempt-u''"
  "ca_phase (demo_authority\<lparr>ca_phase := ''STORAGE_RELEASED''\<rparr>) = ''STORAGE_RELEASED''"
  by (simp_all add: demo_lost_def demo_defs sql_lookup_def cancellation_pending_def sql_exists_def
      demo_authority_def)

lemma demo_lost_finalizes:
  "\<exists>d'. finalize_cleanup demo_clock ''e1'' ''attempt-u'' demo_lost = Inr (RecoveryRequeued ''e1'', d')"
  using demo_lost_facts(3)
  by (simp add: finalize_cleanup_def demo_lost_facts(1) ok_or_def)
    (simp add: demo_lost_def demo_defs demo_authority_def demo_attempt_def demo_reservation_def demo_row_def
      sql_lookup_def cleanup_outcome_def finalize_resumable_def finalize_lost_def finalize_next_def
      finalize_kind_def is_terminal_def demo_manifest_def append_defs demo_created_def Let_def
      rows_affected_def)

end
