(* ===== verification/Store_Properties.thy ===== *)
theory Store_Properties
  imports Demo_Run
begin

text \<open>
  What the stores promise together: properties of every reachable database and of every
  run, over the invariants of \<open>Store_Machine\<close>.
\<close>

section \<open>Bookkeeping of capacity\<close>

text \<open>
  C1. In every reachable database the running count of each worker is the number of its
  reservations, an execution has at most one reservation and at most one open attempt,
  a reservation belongs to the current attempt of its execution, and a queued execution
  is assigned to nobody.
\<close>

theorem reachable_consistent:
  assumes "reachable d"
  shows "(\<forall>w \<in> set (workers d).
            wk_running w = int (length (filter (\<lambda>r. rn_worker_id r = wk_id w) (reservations d))))
    \<and> distinct (map rn_execution_id (reservations d))
    \<and> (\<forall>r \<in> set (reservations d). current_attempt d (rn_execution_id r) = Some (rn_attempt_id r))
    \<and> (\<forall>a \<in> set (attempts d). \<forall>b \<in> set (attempts d).
          at_execution_id a = at_execution_id b \<and> at_finished_at a = None \<and> at_finished_at b = None
          \<longrightarrow> a = b)
    \<and> (\<forall>e \<in> set (executions d). ex_state e = Queued \<longrightarrow> unassigned e)"
proof -
  have cap: "capacity_ok d" and links: "links_ok d"
    using reachable_ok [OF assms] by (simp_all add: store_ok_def)
  have "a = b" if "a \<in> set (attempts d)" "b \<in> set (attempts d)"
    "at_execution_id a = at_execution_id b \<and> at_finished_at a = None \<and> at_finished_at b = None" for a b
  proof (rule unique_attempt [OF links that(1,2)])
    have "current_attempt d (at_execution_id a) = Some (at_attempt_id a)"
      "current_attempt d (at_execution_id b) = Some (at_attempt_id b)"
      using links that unfolding links_ok_def by blast+
    with that(3) show "at_attempt_id a = at_attempt_id b" by simp
  qed
  with cap links show ?thesis
    by (auto simp: capacity_ok_def links_ok_def reserved_count_def)
qed

theorem reachable_consistent_witness:
  "reachable demo_claimed \<and> wk_running (hd (workers demo_claimed)) = 1
   \<and> current_attempt demo_claimed ''e1'' = Some ''attempt-u''"
proof -
  have rs: "workers demo_claimed = [demo_row\<lparr>wk_running := 1, wk_updated_at := 2\<rparr>]"
    "reservations demo_claimed = [demo_reservation]"
    by (simp_all add: demo_claimed_def)
  have "current_attempt demo_claimed ''e1'' = Some ''attempt-u''"
    using reachable_consistent [OF demo_reachable(3)] by (simp add: rs demo_reservation_def)
  then show ?thesis using demo_reachable(3) by (simp add: rs)
qed

section \<open>The life of an execution\<close>

text \<open>
  C2. One transaction of any store leaves an execution alone, or changes it with a new
  version along a legal transition of the lifecycle; the only other change of state is the
  return of a resumable execution of a lost worker to the queue. Its identity, its role,
  its manifest and its creation time never change.
\<close>

theorem transactions_follow_lifecycle:
  assumes "reachable d" and "store_step d d'" and "find_execution d i = Some r"
  shows "\<exists>r'. find_execution d' i = Some r' \<and>
    (r' = r \<or>
      ex_version r' = ex_version r + 1
      \<and> ex_id r' = ex_id r \<and> ex_role r' = ex_role r \<and> ex_manifest r' = ex_manifest r
      \<and> ex_created_at r' = ex_created_at r
      \<and> (ex_state r' = ex_state r \<or> can_transition_to (ex_state r) (ex_state r')
         \<or> ex_state r' = Queued \<and> mf_persistence (ex_manifest r) = Resumable
           \<and> \<not> is_terminal (ex_state r)))"
proof -
  have "good_step d d'" by (rule store_step_good [OF assms(2) reachable_ok [OF assms(1)]])
  with assms(3) show ?thesis
    by (fastforce simp: good_step_def executions_step_def row_step_def state_change_ok_def)
qed

theorem transactions_follow_lifecycle_witness:
  "\<exists>r'. find_execution demo_claimed ''e1'' = Some r' \<and> ex_version r' = 2 \<and> ex_state r' = WorkerAssigned"
proof -
  have q: "find_execution demo_queued ''e1'' = Some (row_of_execution demo_execution)"
    by (simp add: demo_queued_def sql_lookup_def demo_execution_def)
  have c: "find_execution demo_claimed ''e1'' = Some ((row_of_execution demo_assigned)\<lparr>ex_version := 2\<rparr>)"
    by (simp add: demo_claimed_def sql_lookup_def demo_assigned_def demo_execution_def)
  from transactions_follow_lifecycle [OF demo_reachable(2) demo_claimed_step q] c show ?thesis
    by (auto simp: demo_assigned_def)
qed

text \<open>
  C3. Whatever the stores do, an execution that reached a terminal state keeps it, and no
  execution disappears or loses its manifest.
\<close>

theorem terminal_is_final:
  assumes "reachable d" and "store_step\<^sup>*\<^sup>* d d'" and "find_execution d i = Some r"
  shows "\<exists>r'. find_execution d' i = Some r' \<and> ex_manifest r' = ex_manifest r
    \<and> ex_version r \<le> ex_version r' \<and> (is_terminal (ex_state r) \<longrightarrow> ex_state r' = ex_state r)"
  using run_row [OF assms(2) reachable_ok [OF assms(1)] assms(3)] by (auto simp: row_le_def)

theorem terminal_is_final_witness:
  "\<exists>r'. find_execution demo_withdrawn_late ''e1'' = Some r' \<and> ex_state r' = Cancelled"
proof -
  obtain r where r: "find_execution demo_withdrawn ''e1'' = Some r" "ex_state r = Cancelled"
    using demo_withdrawn_execution by blast
  from terminal_is_final [OF demo_reachable_withdrawn
      r_into_rtranclp [of store_step, OF demo_withdrawn_late_step] r(1)] r(2)
  show ?thesis by (auto simp: is_terminal_def)
qed

section \<open>The history\<close>

text \<open>
  C16. The history of an execution is append-only along every run: what a reader saw stays,
  in place and with its sequence number; the sequence numbers are 1, 2, ... without a gap.
\<close>

theorem history_append_only:
  assumes "reachable d" and "store_step\<^sup>*\<^sup>* d d'"
  shows "prefix (history d i) (history d' i)
    \<and> map ev_sequence (history d' i) = [1..<Suc (length (history d' i))]
    \<and> latest_sequence i d' = length (history d' i)"
proof -
  have ok: "store_ok d" by (rule reachable_ok [OF assms(1)])
  then have "events_ok d'" using stores.run_inv [OF assms(2)] by (simp add: store_ok_def)
  then show ?thesis
    using run_history [OF assms(2) ok] latest_sequence_length [of d' i] history_sequence [of d' _ i]
    by (auto intro!: nth_equalityI simp del: upt_Suc length_history)
qed

theorem history_append_only_witness:
  "prefix (history demo_queued ''e1'') (history demo_cancelling ''e1'')
   \<and> latest_sequence ''e1'' demo_cancelling = 1"
proof -
  from history_append_only [OF demo_reachable(2) demo_run, of "''e1''"] show ?thesis
    by (simp add: history_def events_of_def demo_cancelling_def demo_prepared_def demo_claimed_def
        demo_queued_def demo_created_def)
qed

section \<open>Cleanup authorities\<close>

text \<open>
  C22. A cleanup authority keeps its owner for ever and its phase never goes back.
\<close>

theorem authority_only_advances:
  assumes "reachable d" and "store_step\<^sup>*\<^sup>* d d'" and "find_cleanup d i = Some c"
  shows "\<exists>c'. find_cleanup d' i = Some c' \<and> ca_attempt_id c' = ca_attempt_id c
    \<and> ca_worker_id c' = ca_worker_id c \<and> phase_rank (ca_phase c) \<le> phase_rank (ca_phase c')"
  using run_cleanups [OF assms(2) reachable_ok [OF assms(1)]] assms(3)
  by (auto simp: cleanups_le_def authority_le_def)

theorem authority_only_advances_witness:
  "\<exists>c'. find_cleanup demo_cancelling ''e1'' = Some c' \<and> ca_worker_id c' = ''w1''"
  using authority_only_advances [OF demo_reachable(4)
      r_into_rtranclp [of store_step, OF demo_cancelling_step] demo_prepared_authority]
  by (auto simp: demo_authority_def)

text \<open>
  C23. The authority of the first attempt is never removed, so after a requeue no later
  attempt of the execution can begin its own, nor finalise, retain or cancel with it.
\<close>

theorem second_attempt_has_no_authority:
  assumes "reachable d" and "store_step\<^sup>*\<^sup>* d d'" and "find_cleanup d i = Some c"
    and "a \<noteq> ca_attempt_id c"
  shows "cleanup_begin t i a w d'
           = Inl (Conflict (''cleanup authority for '' @ i @ '' belongs to another attempt''))
    \<and> (\<forall>ck x. finalize_cleanup ck i a d' \<noteq> Inr x)
    \<and> (\<forall>ck x. complete_cancellation ck i a d' \<noteq> Inr x)
    \<and> (\<forall>t x. commit_retained_and_release_capacity t i a d' \<noteq> Inr x)"
proof -
  have ok: "store_ok d'" by (rule reachable_ok [OF reachable_run [OF assms(1,2)]])
  obtain c' where c': "find_cleanup d' i = Some c'" "ca_attempt_id c' = ca_attempt_id c"
    using run_cleanups [OF assms(2) reachable_ok [OF assms(1)]] assms(3)
    by (auto simp: cleanups_le_def authority_le_def)
  have other: "ca_attempt_id b \<noteq> a" if "b \<in> set (cleanups d')" "ca_execution_id b = i" for b
    using sql_lookup_in_set [of ca_execution_id "cleanups d'" b] that ok c' assms(4)
    by (auto simp: store_ok_def cleanups_ok_def)
  have none: "find (\<lambda>b. ca_execution_id b = i \<and> ca_attempt_id b = a \<and> P b) (cleanups d') = None" for P
    using other by (auto simp: find_None_iff)
  show ?thesis
  proof (intro conjI allI)
    show "cleanup_begin t i a w d'
           = Inl (Conflict (''cleanup authority for '' @ i @ '' belongs to another attempt''))"
      using c' assms(4) by (simp add: cleanup_begin_def)
    show "finalize_cleanup ck i a d' \<noteq> Inr x" for ck x
      using none [of "\<lambda>b. ca_phase b \<in> set [''STORAGE_RELEASED'', ''RESERVATION_RELEASED'']"]
      by (auto simp: finalize_cleanup_def Let_def and_then_Inr_iff ok_or_Inr_iff)
    show "complete_cancellation ck i a d' \<noteq> Inr x" for ck x
    proof
      assume "complete_cancellation ck i a d' = Inr x"
      then have "complete_cancellation ck i a d' = Inr (fst x, snd x)" by simp
      from complete_cancellation_shape [OF this] other show False by (auto simp: sql_exists_iff)
    qed
    show "commit_retained_and_release_capacity t i a d' \<noteq> Inr x" for t x
      using none [of "\<lambda>_. True"]
      by (auto simp: commit_retained_and_release_capacity_def Let_def and_then_Inr_iff ok_or_Inr_iff
          split: if_splits)
  qed
qed

theorem second_attempt_has_no_authority_witness:
  "cleanup_begin 9 ''e1'' ''attempt-v'' ''w2'' demo_cancelling
     = Inl (Conflict ''cleanup authority for e1 belongs to another attempt'')"
proof -
  have "''attempt-v'' \<noteq> ca_attempt_id demo_authority" by (simp add: demo_authority_def)
  from second_attempt_has_no_authority [OF demo_reachable(4) r_into_rtranclp [of store_step, OF demo_cancelling_step]
      demo_prepared_authority this]
  show ?thesis by simp
qed

section \<open>Lost attempts\<close>

lemma closed_attempts:
  "\<not> sql_exists (\<lambda>t. at_execution_id t = i \<and> at_attempt_id t = a \<and> at_finished_at t = None)
     (sql_update (\<lambda>t. at_attempt_id t = a \<and> at_execution_id t = i) (finalized_attempt t0 q e) ts)"
  by (induction ts) (simp_all add: sql_exists_def sql_update_def del: not_None_eq)

text \<open>
  C15. Finalising the cleanup of a lost attempt gives its capacity back, finishes the attempt
  and detaches the execution: a resumable one returns to the queue, a reviewed one stays for
  review, a terminal one keeps its state and any other has failed; the reported outcome
  says which.
\<close>

theorem finalize_settles_lost_attempt:
  assumes "finalize_cleanup ck i a d = Inr (out, d')" and "find_execution d i = Some r"
    and "ex_attempt_id r = Some a" and "\<not> cancellation_pending d i"
    and "find_cleanup d i = Some c" and "ca_attempt_id c = a" and "ca_phase c = ''STORAGE_RELEASED''"
  shows "(\<exists>r'. find_execution d' i = Some r' \<and> unassigned r'
      \<and> (out = RecoveryReviewReady i \<and> ex_state r = ReviewReady \<and> ex_state r' = ReviewReady
         \<or> out = RecoveryRequeued i \<and> mf_persistence (ex_manifest r) = Resumable \<and> ex_state r' = Queued
         \<or> out = RecoveryFailed i \<and> ex_state r' = (if is_terminal (ex_state r) then ex_state r else Failed)))
    \<and> \<not> sql_exists (\<lambda>x. rn_execution_id x = i \<and> rn_attempt_id x = a) (reservations d')
    \<and> \<not> sql_exists (\<lambda>t. at_execution_id t = i \<and> at_attempt_id t = a \<and> at_finished_at t = None) (attempts d')
    \<and> map_option ca_phase (find_cleanup d' i) = Some ''RESERVATION_RELEASED''"
proof (rule finalize_cleanup_shape [OF assms(1)])
  fix row c'
  assume "find (\<lambda>c. ca_execution_id c = i \<and> ca_attempt_id c = a
           \<and> ca_phase c \<in> set [''STORAGE_RELEASED'', ''RESERVATION_RELEASED'']) (cleanups d) = Some c'"
    and "ca_phase c' = ''RESERVATION_RELEASED''"
  moreover have "find (\<lambda>c. ca_execution_id c = i \<and> ca_attempt_id c = a
           \<and> ca_phase c \<in> set [''STORAGE_RELEASED'', ''RESERVATION_RELEASED'']) (cleanups d) = Some c"
    by (rule find_narrow [OF assms(5) [unfolded sql_lookup_def]])
      (use assms(6,7) sql_lookup_SomeD [OF assms(5)] in auto)
  ultimately show ?thesis using assms(7) by simp
next
  fix row c' att d5
  let ?f = "finalized_row (ck_db ck) (cancellation_pending d i) (decode_execution row)"
  assume row: "find_execution d i = Some row" and out: "out = cleanup_outcome (decode_execution row)"
    and ex: "executions d5 = sql_update (\<lambda>r. ex_id r = i \<and> ex_attempt_id r = Some a) ?f (executions d)"
    and at: "attempts d5 = sql_update (\<lambda>t. at_attempt_id t = a \<and> at_execution_id t = i)
         (finalized_attempt (ck_db ck) (cancellation_pending d i) (decode_execution row)) (attempts d)"
    and res: "reservations d5 = sql_delete (\<lambda>r. rn_execution_id r = i \<and> rn_attempt_id r = a) (reservations d)"
    and cl: "cleanups d5 = sql_update (\<lambda>c. ca_execution_id c = i \<and> ca_attempt_id c = a
            \<and> ca_phase c = ''STORAGE_RELEASED'')
         (\<lambda>c. c\<lparr>ca_phase := ''RESERVATION_RELEASED'', ca_updated_at := ck_db ck\<rparr>) (cleanups d)"
    and fin: "if finalize_next (cancellation_pending d i) (decode_execution row) = ex_state row then d' = d5
       else \<exists>kind n. append_in_transaction \<lparr>ev_execution_id = i, ev_attempt_id = Some a,
           ev_sequence = 0, ev_at = ck_utc ck,
           ev_state = finalize_next (cancellation_pending d i) (decode_execution row),
           ev_kind = kind\<rparr> d5 = Inr (n, d')"
  have same: "executions d' = executions d5" "attempts d' = attempts d5"
    "reservations d' = reservations d5" "cleanups d' = cleanups d5"
    using fin by (auto split: if_splits dest: append_frame)
  have r: "row = r" using row assms(2) by simp
  have i: "ex_id r = i" using sql_lookup_SomeD [OF assms(2)] by simp
  have "find_execution d' i = Some (?f r)"
    using assms(2,3) i by (simp add: same ex sql_lookup_update)
  moreover have "unassigned (?f r)" by simp
  moreover have "out = RecoveryReviewReady i \<and> ex_state r = ReviewReady \<and> ex_state (?f r) = ReviewReady
         \<or> out = RecoveryRequeued i \<and> mf_persistence (ex_manifest r) = Resumable \<and> ex_state (?f r) = Queued
         \<or> out = RecoveryFailed i \<and> ex_state (?f r) = (if is_terminal (ex_state r) then ex_state r else Failed)"
    using assms(4) i by (auto simp: out r cleanup_outcome_def finalize_next_def finalize_resumable_def
        finalize_lost_def is_terminal_def split: execution_state.splits)
  moreover have "\<not> sql_exists (\<lambda>x. rn_execution_id x = i \<and> rn_attempt_id x = a) (reservations d')"
    by (auto simp: same res sql_exists_iff sql_delete_def)
  moreover have "\<not> sql_exists (\<lambda>t. at_execution_id t = i \<and> at_attempt_id t = a \<and> at_finished_at t = None)
      (attempts d')"
    by (simp add: same at closed_attempts)
  moreover have "map_option ca_phase (find_cleanup d' i) = Some ''RESERVATION_RELEASED''"
    using assms(5-7) sql_lookup_SomeD [OF assms(5)] by (simp add: same cl sql_lookup_update)
  ultimately show ?thesis by blast
qed

theorem finalize_settles_lost_attempt_witness:
  "\<exists>d' r'. finalize_cleanup demo_clock ''e1'' ''attempt-u'' demo_lost = Inr (RecoveryRequeued ''e1'', d')
     \<and> find_execution d' ''e1'' = Some r' \<and> ex_state r' = Queued"
proof -
  obtain d' where f: "finalize_cleanup demo_clock ''e1'' ''attempt-u'' demo_lost
      = Inr (RecoveryRequeued ''e1'', d')" using demo_lost_finalizes by blast
  from finalize_settles_lost_attempt [OF f demo_lost_facts(1-6)] show ?thesis using f by auto
qed

section \<open>Cancellation\<close>

text \<open>
  C7. While a cancellation is pending nothing else moves the execution: no transition, no
  progress, no retention, no new control, and no accepted control begins or completes.
\<close>

theorem cancellation_fences:
  assumes "cancellation_pending d i"
  shows "(\<forall>t s x. store_transition t i s d \<noteq> Inr x)
    \<and> (\<forall>t s ev x. transition_with_event t i s ev d \<noteq> Inr x)
    \<and> (\<forall>t ret e ev x. ex_id e = i \<longrightarrow> record_progress t ret e ev d \<noteq> Inr x)
    \<and> (\<forall>t a x. commit_retained_and_release_capacity t i a d \<noteq> Inr x)
    \<and> (\<forall>dbtext t action key ic d'. request_control dbtext t i action key d = Inr (ic, d') \<longrightarrow> d' = d)
    \<and> (\<forall>t n w a c d'. find_control d n = Some c \<and> cr_execution_id c = i
          \<longrightarrow> begin_control t n w a d \<noteq> Inr (Inr (), d'))
    \<and> (\<forall>t n e ev m d'. ex_id e = i \<longrightarrow> complete_control t n e ev d \<noteq> Inr (Inr (Some m), d'))"
proof (intro conjI allI impI)
  show "store_transition t i s d \<noteq> Inr x" for t s x
    using assms store_transition_shape [of t i s d "fst x" "snd x"] by auto
  show "transition_with_event t i s ev d \<noteq> Inr x" for t s ev x
    using assms transition_with_event_shape [of t i s ev d "fst x" "snd x"] by auto
  show "record_progress t ret e ev d \<noteq> Inr x" if "ex_id e = i" for t ret e ev x
    using assms that
    by (auto simp: record_progress_def Let_def and_then_Inr_iff ok_or_Inr_iff split: if_splits)
  show "commit_retained_and_release_capacity t i a d \<noteq> Inr x" for t a x
    using assms by (auto simp: commit_retained_and_release_capacity_def Let_def and_then_Inr_iff)
  show "d' = d" if "request_control dbtext t i action key d = Inr (ic, d')" for dbtext t action key ic d'
    using that assms
    by (auto simp: request_control_def Let_def and_then_Inr_iff split: if_splits option.splits)
  show "begin_control t n w a d \<noteq> Inr (Inr (), d')"
    if "find_control d n = Some c \<and> cr_execution_id c = i" for t n w a c d'
    using assms that by (auto simp: begin_control_def Let_def and_then_Inr_iff ok_or_Inr_iff)
  show "complete_control t n e ev d \<noteq> Inr (Inr (Some m), d')" if "ex_id e = i" for t n e ev m d'
    using assms that
    by (auto simp: complete_control_def Let_def and_then_Inr_iff ok_or_Inr_iff split: if_splits)
qed

theorem cancellation_fences_witness:
  "cancellation_pending demo_cancelling ''e1''
   \<and> store_transition 9 ''e1'' Provisioning demo_cancelling \<noteq> Inr (demo_assigned, demo_cancelling)"
proof -
  have p: "cancellation_pending demo_cancelling ''e1''"
    by (simp add: cancellation_pending_def sql_exists_def demo_cancelling_def)
  then show ?thesis using cancellation_fences [OF p] by simp
qed


text \<open>
  C8. A cancellation completes only after the execution's capacity is given back, its
  attempt is finished and its cleanup is resolved; it then is cancelled, has one more event,
  and no cancellation is pending.
\<close>

theorem cancellation_after_cleanup:
  assumes "complete_cancellation ck i a d = Inr ((e, n), d')"
  shows "\<not> sql_exists (\<lambda>r. rn_execution_id r = i) (reservations d)
    \<and> sql_exists (\<lambda>t. at_execution_id t = i \<and> at_attempt_id t = a \<and> at_finished_at t \<noteq> None) (attempts d)
    \<and> sql_exists (\<lambda>c. ca_execution_id c = i \<and> ca_attempt_id c = a \<and> ca_phase c = ''RESOLVED'') (cleanups d)
    \<and> (\<exists>r. find_execution d' i = Some r \<and> ex_state r = Cancelled \<and> ex_result r = Some (cancelled_result i))
    \<and> (\<exists>ev. history d' i = history d i @ [ev] \<and> ev_kind ev = ExecutionCancelled \<and> ev_sequence ev = n)
    \<and> \<not> cancellation_pending d' i"
proof -
  from complete_cancellation_shape [OF assms] obtain row d3
    where row: "find_execution d i = Some row"
    and before: "\<not> sql_exists (\<lambda>r. rn_execution_id r = i) (reservations d)"
      "sql_exists (\<lambda>t. at_execution_id t = i \<and> at_attempt_id t = a \<and> at_finished_at t \<noteq> None) (attempts d)"
      "sql_exists (\<lambda>c. ca_execution_id c = i \<and> ca_attempt_id c = a \<and> ca_phase c = ''RESOLVED'') (cleanups d)"
    and app: "append_in_transaction \<lparr>ev_execution_id = i, ev_attempt_id = Some a, ev_sequence = 0,
          ev_at = ck_utc ck, ev_state = Cancelled, ev_kind = ExecutionCancelled\<rparr>
      ((update_execution i (\<lambda>r. r\<lparr>ex_state := Cancelled, ex_result := Some (cancelled_result i),
          ex_updated_at := ck_utc ck, ex_version := ex_version r + 1\<rparr>) d)\<lparr>attempts := sql_update
            (\<lambda>t. at_execution_id t = i \<and> at_attempt_id t = a)
            (\<lambda>t. t\<lparr>at_state := Cancelled, at_result := Some (cancelled_result i),
                   at_updated_at := ck_utc ck\<rparr>) (attempts d)\<rparr>) = Inr (n, d3)"
    and d': "d' = close_cancellation (ck_utc ck) i d3"
    unfolding snd_conv by blast
  let ?ev = "\<lparr>ev_execution_id = i, ev_attempt_id = Some a, ev_sequence = n,
          ev_at = ck_utc ck, ev_state = Cancelled, ev_kind = ExecutionCancelled\<rparr>"
  have "history d3 i = history d i @ [?ev]"
    unfolding append_history [OF app] by (simp add: history_def events_of_def)
  moreover have "history d' i = history d3 i" by (rule history_cong) (simp add: d')
  ultimately have hist: "\<exists>ev. history d' i = history d i @ [ev] \<and> ev_kind ev = ExecutionCancelled
      \<and> ev_sequence ev = n"
    by simp
  have "find_execution d' i = Some (row\<lparr>ex_state := Cancelled, ex_result := Some (cancelled_result i),
      ex_updated_at := ck_utc ck, ex_version := ex_version row + 1\<rparr>)"
    using row sql_lookup_SomeD [of ex_id i "executions d" row]
    by (simp add: d' append_frame [OF app] sql_lookup_update)
  moreover have "\<not> cancellation_pending d' i"
    by (simp add: d' cancellation_pending_def close_cancellation_def sql_exists_def sql_update_def
        list_ex_iff ball_Un)
  ultimately show ?thesis using before hist by simp
qed

theorem cancellation_after_cleanup_witness:
  "\<exists>e n d'. complete_cancellation demo_clock ''e1'' ''attempt-u'' demo_cleaned = Inr ((e, n), d')
     \<and> \<not> cancellation_pending d' ''e1''"
proof -
  obtain e n d' where
    c: "complete_cancellation demo_clock ''e1'' ''attempt-u'' demo_cleaned = Inr ((e, n), d')"
    using demo_cleaned_completes by blast
  with cancellation_after_cleanup [OF c] show ?thesis by blast
qed

section \<open>Idempotent creation\<close>

text \<open>
  C6. After a creation with a key, however the stores evolve, a later request with the same
  key is answered with the same execution and changes nothing when its scope and manifest
  agree, and is refused as a reuse of the key otherwise.
\<close>

theorem create_replays:
  assumes "reachable d" and "fresh_execution e"
    and "create_idempotent dbtext e ev key scope d = Inr (res, d1)" and "ie_created res"
    and "store_step\<^sup>*\<^sup>* d1 d2"
    and "ev_execution_id ev' = ex_id e' \<and> ev_state ev' = ex_state e' \<and> ev_sequence ev' = 0"
  shows "\<exists>r. find_execution d2 (ex_id e) = Some r \<and>
    create_idempotent dbtext e' ev' key scope' d2 =
      (if scope' = scope \<and> ex_manifest e' = ex_manifest e
       then Inr (\<lparr>ie_execution = decode_execution r, ie_created = False, ie_event_sequence = None\<rparr>, d2)
       else Inl (IdempotencyConflict ''idempotency key was already used for a different request''))"
proof -
  let ?req = "\<lparr>rt_idempotency_key = key, rt_scope = scope, rt_manifest = Some (ex_manifest e),
     rt_execution_id = ex_id e, rt_created_at = ex_created_at e\<rparr>"
  from create_idempotent_shape [OF assms(3)] assms(4) obtain d0 n
    where app: "append_in_transaction ev d0 = Inr (n, d1)"
    and new: "sql_lookup rt_idempotency_key key (requests d) = None" "find_execution d (ex_id e) = None"
    and d0: "d0 = d\<lparr>executions := executions d @ [row_of_execution e], requests := requests d @ [?req]\<rparr>"
    by auto
  have key: "key \<noteq> []" "\<not> 255 < length key"
    using assms(3) by (auto simp: create_idempotent_def split: if_splits)
  have r1: "reachable d1" by (rule reachable_step [OF assms(1) store_step.create [OF assms(2,3)]])
  have "find_execution d1 (ex_id e) = Some (row_of_execution e)"
    using new(2) by (simp add: append_frame [OF app] d0 sql_lookup_append)
  from run_row [OF assms(5) reachable_ok [OF r1] this] obtain r
    where r: "find_execution d2 (ex_id e) = Some r" "ex_manifest r = ex_manifest e"
    by (auto simp: row_le_def)
  have "requests d1 = requests d @ [?req]" by (simp add: append_frame [OF app] d0)
  with run_requests [OF assms(5)] obtain more where "requests d2 = requests d @ [?req] @ more"
    by (auto simp: prefix_def)
  then have look: "sql_lookup rt_idempotency_key key (requests d2) = Some ?req"
    using new(1) by (simp add: sql_lookup_prefix)
  show ?thesis
    using key assms(6) r look by (auto simp: create_idempotent_def Let_def ok_or_def)
qed

theorem create_replays_witness:
  "\<exists>r. find_execution demo_cancelling ''e1'' = Some r
     \<and> create_idempotent (\<lambda>c. c) demo_execution demo_event ''k1'' ''create'' demo_cancelling
       = Inr (\<lparr>ie_execution = decode_execution r, ie_created = False, ie_event_sequence = None\<rparr>, demo_cancelling)"
proof -
  have run: "store_step\<^sup>*\<^sup>* demo_queued demo_cancelling" by (rule demo_run)
  have fresh: "fresh_execution demo_execution"
    by (simp add: fresh_execution_def unassigned_def demo_execution_def)
  have m: "ev_execution_id demo_event = ex_id demo_execution
      \<and> ev_state demo_event = ex_state demo_execution \<and> ev_sequence demo_event = 0"
    by (simp add: demo_event_def demo_execution_def)
  have i: "ex_id demo_execution = ''e1''" by (simp add: demo_execution_def)
  from create_replays [OF demo_reachable(1) fresh demo_create _ run m, of "\<lambda>c. c" "''create''"]
  show ?thesis by (simp add: i)
qed

section \<open>Claims\<close>

text \<open>
  C4. A claim goes to a ready worker with a free slot, and leaves the worker within its
  advertised number of executions, cpus and memory, and within its disk when the execution
  asks for any.
\<close>

theorem claims_never_overcommit:
  assumes "reachable d" and "reserve_next ck coll skipped uuid worker d = Inr (Some z, d')"
  shows "\<exists>w. find_worker d worker = Some w \<and> wk_state w = Ready
    \<and> reserved_count worker (reservations d') \<le> uint (wc_max_concurrent (wk_capabilities w))
    \<and> reserved_total rn_cpu worker d' \<le> uint (wc_cpu (wk_capabilities w))
    \<and> reserved_total rn_memory_mib worker d' \<le> uint (wc_memory_mib (wk_capabilities w))
    \<and> (reserved_total rn_disk_gib worker d < reserved_total rn_disk_gib worker d'
        \<longrightarrow> reserved_total rn_disk_gib worker d' \<le> uint (wc_disk_gib (wk_capabilities w)))"
proof (rule reserve_next_shape [OF assms(2)])
  assume "Some z = None" then show ?thesis by simp
next
  fix wrow w reserved e cpu memory disk
  assume wrow: "find_worker d worker = Some wrow" "decode_worker wrow = Inr w"
    and reserved: "reserved_on worker d = Inr reserved"
    and e: "find (\<lambda>e. worker_fits_with_reservations w (mf_runtime (ex_manifest e)) reserved)
         (queue_order coll skipped d) = Some e"
    and need: "i32_try_from (rq_cpu (mf_runtime (ex_manifest e))) = Some cpu"
      "i64_try_from (rq_memory_mib (mf_runtime (ex_manifest e))) = Some memory"
      "i64_try_from (rq_disk_gib (mf_runtime (ex_manifest e))) = Some disk"
    and pos: "0 < cpu" "0 < memory" "0 \<le> disk"
    and res: "reservations d' = reservations d @ [\<lparr>rn_execution_id = ex_id e, rn_worker_id = worker,
          rn_attempt_id = ''attempt-'' @ uuid, rn_cpu = cpu, rn_memory_mib = memory, rn_disk_gib = disk,
          rn_created_at = ck_db ck\<rparr>]"
  have fits: "worker_fits_with_reservations w (mf_runtime (ex_manifest e)) reserved"
    using find_SomeD [OF e] by simp
  have uints: "uint (rq_cpu (mf_runtime (ex_manifest e))) = cpu"
    "uint (rq_memory_mib (mf_runtime (ex_manifest e))) = memory"
    "uint (rq_disk_gib (mf_runtime (ex_manifest e))) = disk"
    using i32_try_from_SomeD [OF need(1)] i64_try_from_SomeD [OF need(2)]
      i64_try_from_SomeD [OF need(3)] by simp_all
  note ok = fits_resources [OF fits]
  have "reserved_count worker (reservations d') = uint (rv_slots reserved) + 1"
    "reserved_total rn_cpu worker d' = uint (rv_cpu reserved) + cpu"
    "reserved_total rn_memory_mib worker d' = uint (rv_memory_mib reserved) + memory"
    "reserved_total rn_disk_gib worker d' = uint (rv_disk_gib reserved) + disk"
    by (simp_all add: reserved_on_Inr [OF reserved] reserved_count_def reserved_total_def res)
  moreover have "wr_capabilities w = wk_capabilities wrow" "wr_state w = wk_state wrow"
    by (simp_all add: decode_worker_Inr [OF wrow(2)])
  moreover have "reserved_total rn_disk_gib worker d = uint (rv_disk_gib reserved)"
    by (simp add: reserved_on_Inr [OF reserved])
  ultimately show ?thesis
    using ok [unfolded uints] pos wrow(1) by (intro exI [of _ wrow]) simp
qed

theorem claims_never_overcommit_witness:
  "reserved_total rn_cpu ''w1'' demo_claimed \<le> 8 \<and> reserved_total rn_memory_mib ''w1'' demo_claimed \<le> 16384"
proof -
  from claims_never_overcommit [OF demo_reachable(2) demo_reserve [of id]] demo_queued_worker show ?thesis
    by (auto simp: demo_row_def demo_capabilities_def)
qed


lemma free_no_links:
  assumes "links_ok d" and "current_attempt d i = None"
  shows "\<forall>r \<in> set (reservations d). rn_execution_id r \<noteq> i"
    and "\<forall>a \<in> set (attempts d). at_finished_at a = None \<longrightarrow> at_execution_id a \<noteq> i"
  using assms unfolding links_ok_def by fastforce+

lemma find_map_eq: "find p (map f xs) = map_option f (find (p \<circ> f) xs)"
  by (induction xs) auto

lemma runtime_ok_uint:
  assumes "runtime_ok req" shows "0 < uint (rq_cpu req)" and "0 < uint (rq_memory_mib req)"
  using assms by (simp_all add: runtime_ok_def word_less_def word_le_def)



section \<open>Interactive control\<close>

lemma completed_control:
  assumes "complete_control t n e ev d = Inr (Inr (Some m), d')"
  shows "\<exists>row c session. find_execution d (ex_id e) = Some row \<and> find_control d n = Some c
    \<and> expected_session c = Inr session \<and> ex_session_id e = Some session
    \<and> ex_session_id row = Some (cr_source_session_id c)
    \<and> ex_state row = cr_accepted_state c \<and> ex_state e = control_target_state c
    \<and> find_execution d' (ex_id e) = Some (row\<lparr>ex_state := ex_state e,
      ex_session_id := ex_session_id e, ex_updated_at := ex_updated_at e, ex_version := ex_version row + 1\<rparr>)"
proof (rule complete_control_shape [OF assms])
  assume "Inr (Some m) = (Inr None :: store_error + nat option)"
  then show ?thesis by simp
next
  fix x
  assume "(Inr (Some m) :: store_error + nat option) = Inl x"
  then show ?thesis by simp
next
  fix row c d3 m' session
  assume row: "find_execution d (ex_id e) = Some row" and c: "find_control d n = Some c"
    and ses: "expected_session c = Inr session" "ex_session_id e = Some session"
      "ex_session_id row = Some (cr_source_session_id c)"
    and st: "ex_state row = cr_accepted_state c" "ex_state e = control_target_state c"
    and app: "append_in_transaction ev ((update_execution (ex_id e)
          (\<lambda>r. r\<lparr>ex_state := ex_state e, ex_session_id := ex_session_id e,
                 ex_updated_at := ex_updated_at e, ex_version := ex_version r + 1\<rparr>) d)\<lparr>attempts :=
          sql_update (\<lambda>a. at_execution_id a = ex_id e \<and> Some (at_attempt_id a) = ex_attempt_id e
               \<and> at_finished_at a = None)
            (\<lambda>a. a\<lparr>at_state := ex_state e, at_session_id := ex_session_id e,
                   at_updated_at := ex_updated_at e\<rparr>) (attempts d)\<rparr>) = Inr (m', d3)"
    and d': "d' = update_control n (\<lambda>c. c\<lparr>cr_phase := ControlCompleted,
             cr_completed_at := Some (ex_updated_at e)\<rparr>) d3"
  have "find_execution d' (ex_id e) = Some (row\<lparr>ex_state := ex_state e,
      ex_session_id := ex_session_id e, ex_updated_at := ex_updated_at e, ex_version := ex_version row + 1\<rparr>)"
    using row sql_lookup_SomeD [of ex_id "ex_id e" "executions d" row]
    by (simp add: d' append_frame [OF app] sql_lookup_update)
  with row c ses st show ?thesis by blast
qed

text \<open>
  C14. The state, session and version that acceptance foresaw for a pending control are the
  ones its completion leaves: completing a control and dropping it from the pending ones
  does not change what is projected for those behind it.
\<close>

theorem completion_meets_projection:
  assumes "reachable d" and "complete_control t n e ev d = Inr (Inr (Some m), d')"
    and "find_control d n = Some c"
  shows "\<exists>r r' s s'. find_execution d (ex_id e) = Some r \<and> find_execution d' (ex_id e) = Some r'
    \<and> ex_session_id r = Some s \<and> ex_session_id r' = Some s'
    \<and> project_controls (c # rest) (ex_state r, s, ex_version r)
        = project_controls rest (ex_state r', s', ex_version r')"
proof -
  from completed_control [OF assms(2)] obtain row c' session d3 where
    row: "find_execution d (ex_id e) = Some row" and c': "find_control d n = Some c'"
    and ses: "expected_session c' = Inr session" "ex_session_id e = Some session"
      "ex_session_id row = Some (cr_source_session_id c')"
    and st: "ex_state row = cr_accepted_state c'" "ex_state e = control_target_state c'"
    and after: "find_execution d' (ex_id e) = Some (row\<lparr>ex_state := ex_state e,
      ex_session_id := ex_session_id e, ex_updated_at := ex_updated_at e, ex_version := ex_version row + 1\<rparr>)"
    by blast
  have c: "c' = c" using c' assms(3) by simp
  have "c \<in> set (controls d)"
    using assms(3) sql_lookup_SomeD by (force simp: find_control_def)
  then have "action_allowed (cr_action c) (cr_accepted_state c)"
    using reachable_controls_ok [OF assms(1)] by (simp add: controls_ok_def)
  then have "project_controls (c # rest) (ex_state row, cr_source_session_id c, ex_version row)
      = project_controls rest (ex_state e, session, ex_version row + 1)"
    using ses(1) st by (auto simp: c action_allowed_def control_target_state_def expected_session_def
        ok_or_Inr_iff ok_or_def split: control_action.splits option.splits)
  with row after ses c show ?thesis by auto
qed


theorem completion_meets_projection_witness:
  "\<exists>d' r r' s s'.
     complete_control 6 1 demo_paused demo_pause_event demo_pausing = Inr (Inr (Some 4), d')
     \<and> find_execution demo_pausing ''e1'' = Some r \<and> find_execution d' ''e1'' = Some r'
     \<and> project_controls [demo_control SideEffectApplied (Some ''s1'')] (ex_state r, s, ex_version r)
       = Inr (ex_state r', s', ex_version r')"
proof -
  obtain d' where c: "complete_control 6 1 demo_paused demo_pause_event demo_pausing = Inr (Inr (Some 4), d')"
    using demo_complete_pause by blast
  have f: "find_control demo_pausing 1 = Some (demo_control SideEffectApplied (Some ''s1''))"
    by (simp add: find_control_def demo_pausing_def demo_at_def sql_lookup_def demo_control_def)
  have i: "ex_id demo_paused = ''e1''" by (simp add: demo_defs)
  from completion_meets_projection [OF demo_pausing_reachable c f, of "[]"] c show ?thesis
    unfolding i project_controls.simps(1) by blast
qed

end
