(* ===== verification/Api_Auth.thy ===== *)
theory Api_Auth
  imports Store_Tables
begin

text \<open>
  \<open>orchestrator-api/src/error.rs\<close>, \<open>auth.rs\<close>, and the credential part of \<open>lib.rs\<close>: the errors
  of the HTTP interface, bearer tokens, the file of per-worker token digests, and the choice
  of the worker credential source at startup.

  A request's headers are a function from names to values: \<open>None\<close> when the header is absent,
  \<open>Some None\<close> when its value is not visible ASCII (\<open>to_str\<close> fails). The digest function of
  the \<open>sha2\<close> crate is the parameter \<open>digest\<close>.
\<close>

unbundle bit_operations_syntax

type_synonym headers = "string \<Rightarrow> string option option"

section \<open>Errors\<close>

record api_error =
  ae_status :: nat
  ae_code :: string
  ae_message :: string

definition api_error_new :: "nat \<Rightarrow> string \<Rightarrow> string \<Rightarrow> api_error" where
  "api_error_new status code message = \<lparr>ae_status = status, ae_code = code, ae_message = message\<rparr>"

definition api_validation :: "string \<Rightarrow> api_error" where
  "api_validation message = api_error_new 400 ''VALIDATION'' message"

definition api_unauthorized :: "string \<Rightarrow> api_error" where
  "api_unauthorized message = api_error_new 401 ''UNAUTHORIZED'' message"

definition api_conflict :: "string \<Rightarrow> api_error" where
  "api_conflict message = api_error_new 409 ''CONFLICT'' message"

definition api_store :: "store_error \<Rightarrow> api_error" where
  "api_store error = (case error of
     NotFound message \<Rightarrow> api_error_new 404 ''NOT_FOUND'' message
   | IllegalTransition from to \<Rightarrow> api_error_new 409 ''ILLEGAL_TRANSITION''
       (''illegal state transition: '' @ state_debug from @ '' -> '' @ state_debug to)
   | IdempotencyConflict message \<Rightarrow> api_error_new 409 ''IDEMPOTENCY_CONFLICT'' message
   | DuplicateExecutionId message \<Rightarrow> api_error_new 409 ''DUPLICATE_EXECUTION_ID'' message
   | InvalidArtifactName message \<Rightarrow> api_validation message
   | Conflict message \<Rightarrow> api_conflict message
   | _ \<Rightarrow> api_error_new 500 ''INTERNAL'' ''internal server error'')"

section \<open>Tokens\<close>

type_synonym bytes = "u8 list"

definition as_bytes :: "string \<Rightarrow> bytes" where
  "as_bytes s = map of_char s"

definition byte_at :: "bytes \<Rightarrow> nat \<Rightarrow> u8" where
  "byte_at b i = (if i < length b then b ! i else 0)"

definition constant_time_eq :: "bytes \<Rightarrow> bytes \<Rightarrow> bool" where
  "constant_time_eq left right =
     (let mx = max (length left) (length right);
          difference = (of_nat (length left) :: u64) XOR of_nat (length right);
          difference = fold (\<lambda>index acc. acc OR (ucast (byte_at left index XOR byte_at right index) :: u64))
             [0..<mx] difference in
      difference = 0)"

definition static_validate :: "bytes \<Rightarrow> bytes \<Rightarrow> bool" where
  "static_validate expected token = constant_time_eq token expected"

datatype worker_identity = AnyWorker | OneWorker worker_id

datatype worker_validator =
    SharedWorkerToken bytes
  | PerWorkerTokens "(worker_id \<times> bytes) list"

text \<open>The loop over all entries; the last one that matches wins.\<close>

definition per_worker_identify ::
  "(bytes \<Rightarrow> bytes) \<Rightarrow> (worker_id \<times> bytes) list \<Rightarrow> bytes \<Rightarrow> worker_identity option" where
  "per_worker_identify digest entries presented =
     (let d = digest presented in
      fold (\<lambda>(worker, expected) found.
          if constant_time_eq d expected then Some (OneWorker worker) else found) entries None)"

definition identify ::
  "(bytes \<Rightarrow> bytes) \<Rightarrow> worker_validator \<Rightarrow> bytes \<Rightarrow> worker_identity option" where
  "identify digest v presented = (case v of
     SharedWorkerToken expected \<Rightarrow> if static_validate expected presented then Some AnyWorker else None
   | PerWorkerTokens entries \<Rightarrow> per_worker_identify digest entries presented)"

section \<open>The token file\<close>

definition to_digit16 :: "char \<Rightarrow> nat option" where
  "to_digit16 c =
     (let n = byte c in
      if 48 \<le> n \<and> n \<le> 57 then Some (n - 48)
      else if 97 \<le> n \<and> n \<le> 102 then Some (n - 87)
      else if 65 \<le> n \<and> n \<le> 70 then Some (n - 55)
      else None)"

fun decode_pairs :: "string \<Rightarrow> bytes option" where
  "decode_pairs (h # l # rest) =
     (case (to_digit16 h, to_digit16 l) of
        (Some high, Some low) \<Rightarrow> map_option ((#) (of_nat (high * 16 + low))) (decode_pairs rest)
      | _ \<Rightarrow> None)"
| "decode_pairs _ = Some []"

definition decode_digest :: "string \<Rightarrow> bytes option" where
  "decode_digest hex = (if length hex \<noteq> 64 then None else decode_pairs hex)"

text \<open>\<open>str::lines\<close> and \<open>str::split_whitespace\<close>.\<close>

definition strip_cr :: "string \<Rightarrow> string" where
  "strip_cr l = (if l \<noteq> [] \<and> last l = CHR 0x0D then butlast l else l)"

definition str_lines :: "string \<Rightarrow> string list" where
  "str_lines s =
     (let parts = split_on (CHR 0x0A) s;
          parts = (if last parts = [] then butlast parts else parts) in
      map strip_cr parts)"

fun word_prefix :: "string \<Rightarrow> string" where
  "word_prefix [] = []"
| "word_prefix (c # cs) =
     (if list_ex (\<lambda>w. starts_with w (c # cs)) white_space then [] else c # word_prefix cs)"

function split_whitespace :: "string \<Rightarrow> string list" where
  "split_whitespace s =
     (let s' = trim_start s; w = word_prefix s' in
      if w = [] then [] else w # split_whitespace (drop (length w) s'))"
  by pat_completeness auto
termination
proof (relation "measure length")
  fix s s' w
  assume s': "s' = trim_start s" and w: "w = word_prefix s'" "w \<noteq> []"
  then have "s' \<noteq> []" by auto
  with w(2) have "length (drop (length w) s') < length s'" by (cases w) auto
  also have "\<dots> \<le> length s" unfolding s' trim_start_def by (rule length_strip_seqs)
  finally show "(drop (length w) s', s) \<in> measure length" by simp
qed simp

declare split_whitespace.simps [simp del]

definition token_line_error :: "nat \<Rightarrow> string \<Rightarrow> string" where
  "token_line_error number what = ''worker token file line '' @ show_nat number @ '': '' @ what"

text \<open>The loop of \<open>PerWorkerTokens::parse\<close> with its two sets of what was seen.\<close>

fun parse_token_lines ::
  "nat \<Rightarrow> string list \<Rightarrow> string list \<Rightarrow> bytes list \<Rightarrow> (worker_id \<times> bytes) list
     \<Rightarrow> string + (worker_id \<times> bytes) list" where
  "parse_token_lines number [] ids digests entries = Inr entries"
| "parse_token_lines number (raw # rest) ids digests entries =
     (let line = trim (hd (split_on (CHR ''#'') raw)) in
      if line = [] then parse_token_lines (number + 1) rest ids digests entries
      else case split_whitespace line of
        [worker, hex] \<Rightarrow>
          (case decode_digest hex of
             None \<Rightarrow> Inl (token_line_error number ''digest is not 64 hexadecimal characters'')
           | Some digest \<Rightarrow>
               if worker \<in> set ids
               then Inl (token_line_error number ''worker id appears more than once'')
               else if digest \<in> set digests
               then Inl (token_line_error number ''digest is shared by more than one worker'')
               else parse_token_lines (number + 1) rest (worker # ids) (digest # digests)
                      (entries @ [(worker, digest)]))
      | _ \<Rightarrow> Inl (token_line_error number ''expected `<worker_id> <sha256-hex>`''))"

definition parse_worker_tokens :: "string \<Rightarrow> string + (worker_id \<times> bytes) list" where
  "parse_worker_tokens text =
     and_then (parse_token_lines 1 (str_lines text) [] [] []) (\<lambda>entries.
       if entries = [] then Inl ''worker token file lists no workers'' else Inr entries)"

section \<open>Authorization\<close>

text \<open>The credentials of the application state.\<close>

record app_auth =
  aa_api_token :: bytes
  aa_worker_tokens :: worker_validator

definition strip_prefix :: "string \<Rightarrow> string \<Rightarrow> string option" where
  "strip_prefix p s = (if starts_with p s then Some (drop (length p) s) else None)"

definition bearer_token :: "headers \<Rightarrow> bytes option" where
  "bearer_token headers =
     Option.bind (headers ''authorization'') (\<lambda>value.
     Option.bind value (\<lambda>text.
     Option.bind (strip_prefix ''Bearer '' text) (\<lambda>token.
       if token \<noteq> [] then Some (as_bytes token) else None)))"

definition authorize_bearer :: "headers \<Rightarrow> (bytes \<Rightarrow> bool) \<Rightarrow> bool" where
  "authorize_bearer headers validate = (case bearer_token headers of
     None \<Rightarrow> False | Some supplied \<Rightarrow> validate supplied)"

definition authorize_api :: "app_auth \<Rightarrow> headers \<Rightarrow> api_error + unit" where
  "authorize_api app headers =
     (if authorize_bearer headers (static_validate (aa_api_token app)) then Inr ()
      else Inl (api_unauthorized ''missing or invalid API bearer token''))"

definition authorize_worker ::
  "(bytes \<Rightarrow> bytes) \<Rightarrow> app_auth \<Rightarrow> headers \<Rightarrow> api_error + worker_identity" where
  "authorize_worker digest app headers =
     ok_or (Option.bind (bearer_token headers) (identify digest (aa_worker_tokens app)))
       (api_unauthorized ''missing or invalid worker bearer token'')"

datatype caller = ApiCaller | WorkerCaller worker_identity

definition authorize_api_or_worker ::
  "(bytes \<Rightarrow> bytes) \<Rightarrow> app_auth \<Rightarrow> headers \<Rightarrow> api_error + caller" where
  "authorize_api_or_worker digest app headers =
     (let api = authorize_bearer headers (static_validate (aa_api_token app));
          worker = Option.bind (bearer_token headers) (identify digest (aa_worker_tokens app)) in
      if api then Inr ApiCaller
      else case worker of
        Some identity \<Rightarrow> Inr (WorkerCaller identity)
      | None \<Rightarrow> Inl (api_unauthorized ''missing or invalid API or worker bearer token''))"

definition require_identity :: "worker_identity \<Rightarrow> worker_id \<Rightarrow> api_error + unit" where
  "require_identity identity i = (case identity of
     OneWorker own \<Rightarrow>
       if own \<noteq> i
       then Inl (api_error_new 403 ''WORKER_IDENTITY_MISMATCH''
              ''the worker token was not issued to this worker'')
       else Inr ()
   | AnyWorker \<Rightarrow> Inr ())"

section \<open>The credential source\<close>

record server_config =
  sc_api_token :: string
  sc_worker_token :: "string option"
  sc_worker_tokens_file :: "string option"
  sc_allow_shared_worker_token :: bool

text \<open>An opened file: what \<open>metadata\<close> gives (is it a regular file, its mode) and what reading
  at most so many bytes into a string gives; each may be an error text.\<close>

record opened_file =
  of_metadata :: "string + (bool \<times> u32)"
  of_read :: "nat \<Rightarrow> string + string"

type_synonym file_system = "string \<Rightarrow> string + opened_file"

definition map_err :: "('e \<Rightarrow> 'f) \<Rightarrow> 'e + 'a \<Rightarrow> 'f + 'a" where
  "map_err f r = (case r of Inl e \<Rightarrow> Inl (f e) | Inr x \<Rightarrow> Inr x)"

text \<open>The format \<open>{mode:04o}\<close> of a mode below \<open>0o1000\<close>.\<close>

definition octal04 :: "u32 \<Rightarrow> string" where
  "octal04 m = (let n = unat m in
     concat (map show_nat [n div 512 mod 8, n div 64 mod 8, n div 8 mod 8, n mod 8]))"

definition check_tokens_file_handle :: "opened_file \<Rightarrow> string \<Rightarrow> string + unit" where
  "check_tokens_file_handle file path =
     and_then (map_err (\<lambda>error. ''stat worker tokens file '' @ path @ '': '' @ error) (of_metadata file))
       (\<lambda>(is_file, permissions).
          if \<not> is_file then Inl (''worker tokens file '' @ path @ '' is not a regular file'')
          else let mode = permissions AND 0x1FF in
          if mode AND 0x3F \<noteq> 0
          then Inl (''worker tokens file '' @ path @ '' is accessible to group or other (mode ''
                 @ octal04 mode @ ''); run `chmod 600` on it'')
          else Inr ())"

definition open_error :: "string \<Rightarrow> string \<Rightarrow> string" where
  "open_error path error = ''open worker tokens file '' @ path @ '': '' @ error"

definition check_tokens_file :: "file_system \<Rightarrow> string \<Rightarrow> string + unit" where
  "check_tokens_file fs path =
     and_then (map_err (open_error path) (fs path)) (\<lambda>file. check_tokens_file_handle file path)"

definition config_validate :: "file_system \<Rightarrow> server_config \<Rightarrow> string + unit" where
  "config_validate fs c =
     (let shared = (case sc_worker_token c of Some t \<Rightarrow> if t \<noteq> [] then Some t else None | None \<Rightarrow> None) in
      if sc_api_token c = [] then Inl ''API bearer token must not be empty''
      else if sc_worker_token c \<noteq> None \<and> shared = None then Inl ''worker bearer token must not be empty''
      else case (sc_worker_tokens_file c, sc_allow_shared_worker_token c) of
        (Some _, True) \<Rightarrow> Inl ''--worker-tokens-file and --allow-shared-worker-token are mutually exclusive; choose per-worker tokens or the shared token, not both''
      | (Some path, False) \<Rightarrow>
          if shared \<noteq> None
          then Inl ''--worker-tokens-file and --worker-token are mutually exclusive; remove the shared worker token''
          else check_tokens_file fs path
      | (None, True) \<Rightarrow>
          if shared = None
          then Inl ''--allow-shared-worker-token needs the shared token in --worker-token (AUTOSPEC_WORKER_TOKEN)''
          else Inr ()
      | (None, False) \<Rightarrow> Inl ''no worker credential source: set --worker-tokens-file (AUTOSPEC_WORKER_TOKENS_FILE) for per-worker tokens, or pass --allow-shared-worker-token with --worker-token to keep one shared token for every worker'')"

definition load_worker_tokens :: "file_system \<Rightarrow> string \<Rightarrow> string + (worker_id \<times> bytes) list" where
  "load_worker_tokens fs path =
     and_then (map_err (open_error path) (fs path)) (\<lambda>file.
     and_then (check_tokens_file_handle file path) (\<lambda>_.
     and_then (map_err (\<lambda>error. ''read worker tokens file '' @ path @ '': '' @ error)
         (of_read file (1024 * 1024))) (\<lambda>text.
       map_err (\<lambda>error. error @ '' ('' @ path @ '')'') (parse_worker_tokens text))))"

datatype worker_auth = PerWorkerAuth "(worker_id \<times> bytes) list" | SharedAuth string

text \<open>The file is opened twice, to be checked and to be loaded: \<open>fs\<close> and \<open>fs'\<close> are the two moments.\<close>

definition resolve_worker_auth :: "file_system \<Rightarrow> file_system \<Rightarrow> server_config \<Rightarrow> string + worker_auth" where
  "resolve_worker_auth fs fs' c =
     and_then (config_validate fs c) (\<lambda>_.
       case (sc_worker_tokens_file c, sc_worker_token c) of
         (Some path, _) \<Rightarrow> and_then (load_worker_tokens fs' path) (\<lambda>tokens. Inr (PerWorkerAuth tokens))
       | (None, Some token) \<Rightarrow> Inr (SharedAuth token)
       | (None, None) \<Rightarrow> Inl ''no worker credential source'')"

text \<open>The credentials \<open>serve\<close> starts the application with.\<close>

definition serve_auth :: "file_system \<Rightarrow> file_system \<Rightarrow> server_config \<Rightarrow> string + app_auth" where
  "serve_auth fs fs' c =
     and_then (resolve_worker_auth fs fs' c) (\<lambda>source.
       let initial = (case source of SharedAuth token \<Rightarrow> token | PerWorkerAuth _ \<Rightarrow> []);
           per_worker = (case source of SharedAuth _ \<Rightarrow> None | PerWorkerAuth tokens \<Rightarrow> Some tokens);
           app = \<lparr>aa_api_token = as_bytes (sc_api_token c),
                  aa_worker_tokens = SharedWorkerToken (as_bytes initial)\<rparr> in
       Inr (case per_worker of
          Some tokens \<Rightarrow> app\<lparr>aa_worker_tokens := PerWorkerTokens tokens\<rparr>
        | None \<Rightarrow> app))"

section \<open>Comparison in constant time\<close>

lemma fold_or_zero:
  "fold (\<lambda>i acc. acc OR f i) xs (d :: u64) = 0 \<longleftrightarrow> d = 0 \<and> (\<forall>i\<in>set xs. f i = 0)"
  by (induction xs arbitrary: d) (auto simp: or_eq_0_iff)

lemma xor_zero_iff: "(a XOR b = 0) \<longleftrightarrow> a = (b :: 'a::len word)"
  by (metis xor.assoc xor.right_neutral xor_self_eq xor.left_neutral)

lemma ucast_byte_zero: "(ucast (x :: u8) :: u64) = 0 \<longleftrightarrow> x = 0"
  by transfer (simp add: take_bit_take_bit)

lemma constant_time_eq_iff:
  assumes "length left < 2 ^ 64" and "length right < 2 ^ 64"
  shows "constant_time_eq left right \<longleftrightarrow> left = right"
proof -
  have "(of_nat (length left) :: u64) = of_nat (length right) \<longleftrightarrow> length left = length right"
    using assms by (simp add: word_unat_eq_iff unat_of_nat)
  then have "constant_time_eq left right \<longleftrightarrow> length left = length right
      \<and> (\<forall>i\<in>{0..<max (length left) (length right)}. byte_at left i = byte_at right i)"
    by (simp only: constant_time_eq_def Let_def fold_or_zero xor_zero_iff ucast_byte_zero set_upt)
  also have "\<dots> \<longleftrightarrow> left = right"
    by (auto simp: byte_at_def intro: nth_equalityI)
  finally show ?thesis .
qed

section \<open>Per-worker tokens\<close>

lemma decode_pairs_length: "decode_pairs s = Some b \<Longrightarrow> length b = length s div 2"
  by (induction s arbitrary: b rule: decode_pairs.induct)
     (auto split: option.splits prod.splits)

lemma decode_digest_length: "decode_digest hex = Some b \<Longrightarrow> length b = 32"
  by (auto simp: decode_digest_def dest: decode_pairs_length split: if_splits)

lemma parse_token_lines_ConsE:
  assumes "parse_token_lines n (raw # rest) ids digests entries = Inr out"
  obtains "parse_token_lines (n + 1) rest ids digests entries = Inr out"
  | w d where "w \<notin> set ids" "d \<notin> set digests" "length d = 32"
      "parse_token_lines (n + 1) rest (w # ids) (d # digests) (entries @ [(w, d)]) = Inr out"
  using assms
  by (auto simp: Let_def simp del: One_nat_def dest: decode_digest_length
      split: list.splits option.splits if_splits)

lemma parse_token_lines_sound:
  assumes "parse_token_lines n ls ids digests entries = Inr out"
    and "set ids = set (map fst entries)" and "set digests = set (map snd entries)"
    and "distinct (map fst entries)" and "distinct (map snd entries)"
    and "\<forall>e\<in>set entries. length (snd e) = 32"
  shows "distinct (map fst out) \<and> distinct (map snd out) \<and> (\<forall>e\<in>set out. length (snd e) = 32)"
  using assms
proof (induction ls arbitrary: n ids digests entries)
  case Nil
  then show ?case by simp
next
  case (Cons raw rest)
  from Cons.prems(1) show ?case
  proof (cases rule: parse_token_lines_ConsE)
    case 1
    then show ?thesis by (rule Cons.IH) (use Cons.prems in blast)+
  next
    case (2 w d)
    from 2(4) show ?thesis by (rule Cons.IH) (use Cons.prems(2-) 2(1-3) in auto)
  qed
qed

lemma parse_worker_tokens_sound:
  assumes "parse_worker_tokens text = Inr entries"
  shows "distinct (map fst entries) \<and> distinct (map snd entries)
       \<and> (\<forall>e\<in>set entries. length (snd e) = 32)"
  using assms parse_token_lines_sound [of 1 "str_lines text" "[]" "[]" "[]" entries]
  by (auto simp: parse_worker_tokens_def and_then_def split: sum.splits if_splits)

lemma fold_last_match:
  assumes "distinct (map snd entries)"
  shows "fold (\<lambda>(w, e) found. if d = e then Some (OneWorker w) else found) entries start
       = (case find (\<lambda>(w, e). d = e) entries of Some (w, _) \<Rightarrow> Some (OneWorker w) | None \<Rightarrow> start)"
  using assms
proof (induction entries arbitrary: start)
  case (Cons p entries)
  obtain w e where p: "p = (w, e)" by force
  have "d = e \<Longrightarrow> find (\<lambda>(w, e). d = e) entries = None"
    using Cons.prems by (auto simp: p find_None_iff image_iff)
  with Cons show ?case by (auto simp: p split: option.splits)
qed simp

lemma per_worker_identify_iff:
  assumes "distinct (map snd entries)" and "\<forall>e\<in>set entries. length (snd e) = 32"
    and "length (digest presented) = 32"
  shows "per_worker_identify digest entries presented = Some who \<longleftrightarrow>
       (\<exists>w. who = OneWorker w \<and> (w, digest presented) \<in> set entries)"
proof -
  have "fold (\<lambda>(w, e) found. if constant_time_eq (digest presented) e then Some (OneWorker w) else found)
      entries None
    = fold (\<lambda>(w, e) found. if digest presented = e then Some (OneWorker w) else found) entries None"
    using assms(2,3) by (intro fold_cong) (auto simp: constant_time_eq_iff)
  also have "\<dots> = (case find (\<lambda>(w, e). digest presented = e) entries of
      Some (w, _) \<Rightarrow> Some (OneWorker w) | None \<Rightarrow> None)"
    by (rule fold_last_match) (rule assms(1))
  finally have *: "per_worker_identify digest entries presented = \<dots>"
    by (simp add: per_worker_identify_def)
  show ?thesis
  proof (cases "find (\<lambda>(w, e). digest presented = e) entries")
    case None
    moreover from None have "(w, digest presented) \<notin> set entries" for w
      by (auto simp: find_None_iff)
    ultimately show ?thesis by (simp add: *)
  next
    case (Some p)
    obtain w e where p: "p = (w, e)" by force
    from find_SomeD [OF Some] have m: "(w, digest presented) \<in> set entries" by (auto simp: p)
    then have "(w', digest presented) \<in> set entries \<longleftrightarrow> w' = w" for w'
      using assms(1) by (metis distinct_map inj_onD prod.inject snd_conv)
    then show ?thesis by (auto simp: * Some p)
  qed
qed

section \<open>Properties\<close>

text \<open>C21. Where the controller is started with a file of per-worker tokens, a worker request is
  let through for the worker \<open>w\<close> exactly when it carries a bearer token whose digest the file
  lists for \<open>w\<close>. The file gives each worker one digest and each digest one worker, so a token
  speaks for one worker only, and no shared token is accepted beside them.\<close>

theorem token_speaks_for_one_worker:
  assumes "\<And>token. length (digest token) = 32"
    and "serve_auth fs fs' config = Inr app" and "sc_worker_tokens_file config = Some path"
  shows "\<exists>handle content entries. fs' path = Inr handle \<and> of_read handle (1024 * 1024) = Inr content
     \<and> parse_worker_tokens content = Inr entries
     \<and> distinct (map fst entries) \<and> distinct (map snd entries)
     \<and> (\<forall>headers w. (and_then (authorize_worker digest app headers) (\<lambda>who. require_identity who w) = Inr ())
          = (\<exists>token. bearer_token headers = Some token \<and> (w, digest token) \<in> set entries))"
proof -
  from assms(2,3) obtain entries where e: "load_worker_tokens fs' path = Inr entries"
    and app: "app = \<lparr>aa_api_token = as_bytes (sc_api_token config),
       aa_worker_tokens = PerWorkerTokens entries\<rparr>"
    by (auto simp: serve_auth_def resolve_worker_auth_def and_then_def Let_def split: sum.splits)
  from e obtain handle content where f: "fs' path = Inr handle" "of_read handle (1024 * 1024) = Inr content"
    "parse_worker_tokens content = Inr entries"
    by (auto simp: load_worker_tokens_def and_then_def map_err_def split: sum.splits)
  note d = parse_worker_tokens_sound [OF f(3)]
  have "(and_then (authorize_worker digest app headers) (\<lambda>who. require_identity who w) = Inr ())
     = (\<exists>token. bearer_token headers = Some token \<and> (w, digest token) \<in> set entries)" for headers w
  proof (cases "bearer_token headers")
    case None
    then show ?thesis by (simp add: authorize_worker_def ok_or_def and_then_def)
  next
    case (Some token)
    note i = per_worker_identify_iff [of entries digest token, OF _ _ assms(1)]
    show ?thesis
    proof (cases "per_worker_identify digest entries token")
      case None
      with i d have "(w, digest token) \<notin> set entries" by force
      with None Some show ?thesis
        by (simp add: authorize_worker_def ok_or_def and_then_def identify_def app)
    next
      case (Some who)
      with i d obtain v where v: "who = OneWorker v" "(v, digest token) \<in> set entries" by blast
      with d have "(w, digest token) \<in> set entries \<longleftrightarrow> w = v"
        by (metis distinct_map inj_onD prod.inject snd_conv)
      with v Some \<open>bearer_token headers = Some token\<close> show ?thesis
        by (simp add: authorize_worker_def ok_or_def and_then_def identify_def require_identity_def app)
    qed
  qed
  with f d show ?thesis by blast
qed

section \<open>A token file\<close>

lemma word_prefix_printable:
  assumes "\<And>c. c \<in> set w \<Longrightarrow> 32 < byte c \<and> byte c < 127"
  shows "word_prefix (w @ s) = w @ word_prefix s"
  using assms
proof (induction w)
  case (Cons c w)
  have "\<not> list_ex (\<lambda>v. starts_with v (c # w @ s)) white_space"
  proof
    assume "list_ex (\<lambda>v. starts_with v (c # w @ s)) white_space"
    then obtain v where v: "v \<in> set white_space" "starts_with v (c # w @ s)"
      by (auto simp: list_ex_iff)
    with white_space_ends [OF v(1)] have "hd v = c" by (cases v) auto
    with white_space_ends [OF v(1)] Cons.prems [of c] show False by auto
  qed
  with Cons show ?case by simp
qed simp

lemma split_whitespace_pair:
  assumes "\<And>c. c \<in> set (a @ b) \<Longrightarrow> 32 < byte c \<and> byte c < 127" and "a \<noteq> []" and "b \<noteq> []"
  shows "split_whitespace (a @ '' '' @ b) = [a, b]"
proof -
  have id: "trim_start (w @ s) = w @ s" if "w \<noteq> []" "\<And>c. c \<in> set w \<Longrightarrow> 32 < byte c \<and> byte c < 127" for w s
  proof -
    have "32 < byte (hd (w @ s)) \<and> byte (hd (w @ s)) < 127" using that by (simp add: hd_append)
    then show ?thesis
      unfolding trim_start_def
      by (intro strip_seqs_id) (use that(1) white_space_ends in fastforce)+
  qed
  have sp: "trim_start ('' '' @ b) = b"
  proof -
    have "find (\<lambda>w. w \<noteq> [] \<and> starts_with w ('' '' @ b)) white_space = Some '' ''"
      by (simp add: white_space_def char_of_eq_iff)
    then have "trim_start ('' '' @ b) = trim_start b"
      unfolding trim_start_def by (subst strip_seqs.simps) simp
    also have "\<dots> = b" using id [of b "[]"] assms by simp
    finally show ?thesis .
  qed
  have "word_prefix ('' '' @ b) = []" by (simp add: white_space_def char_of_eq_iff)
  then have a: "word_prefix (a @ '' '' @ b) = a" using word_prefix_printable [of a] assms by simp
  have b: "word_prefix b = b" using word_prefix_printable [of b "[]"] assms by simp
  have n: "split_whitespace [] = []"
    by (subst split_whitespace.simps) (simp add: trim_start_def strip_seqs.simps Let_def white_space_def find_None_iff)
  have "split_whitespace ('' '' @ b) = [b]"
    by (subst split_whitespace.simps) (simp only: Let_def sp b assms if_False drop_all [OF order_refl] n)
  then show ?thesis
    by (subst split_whitespace.simps)
       (use assms in \<open>simp add: id a [simplified] Let_def\<close>)
qed

definition demo_token_file :: "string" where
  "demo_token_file = ''w1 '' @ concat (replicate 32 ''aa'')"

definition demo_handle :: "opened_file" where
  "demo_handle = \<lparr>of_metadata = Inr (True, 0x180), of_read = (\<lambda>_. Inr demo_token_file)\<rparr>"

definition demo_config :: "server_config" where
  "demo_config = \<lparr>sc_api_token = ''api'', sc_worker_token = None,
     sc_worker_tokens_file = Some ''tokens'', sc_allow_shared_worker_token = False\<rparr>"

lemma decode_aa: "decode_pairs (concat (replicate n ''aa'')) = Some (replicate n 0xAA)"
  by (induction n) (auto simp: to_digit16_def byte_def)

lemma length_aa: "length (concat (replicate n ''aa'')) = 2 * n"
  by (induction n) auto

lemma set_aa: "set (concat (replicate n ''aa'')) \<subseteq> {CHR ''a''}"
  by auto

lemma split_on_other: "d \<notin> set s \<Longrightarrow> split_on d s = [s]"
  by (induction s) auto

lemma demo_tokens: "parse_worker_tokens demo_token_file = Inr [(''w1'', replicate 32 0xAA)]"
proof -
  let ?hex = "concat (replicate 32 ''aa'')"
  have c: "c \<in> set ?hex \<Longrightarrow> c = CHR ''a''" for c using set_aa [of 32] by blast
  have ne: "?hex \<noteq> []" using length_aa [of 32] by (metis list.size(3) zero_neq_numeral mult_2 numeral_plus_numeral)
  have l: "str_lines demo_token_file = [demo_token_file]"
  proof -
    have "CHR 0x0A \<notin> set demo_token_file" using c by (auto simp: demo_token_file_def)
    moreover have "last demo_token_file = CHR ''a''"
      using c ne last_in_set [OF ne] by (simp add: demo_token_file_def last_append)
    ultimately show ?thesis
      by (simp add: str_lines_def split_on_other Let_def strip_cr_def demo_token_file_def)
  qed
  have h: "split_on (CHR ''#'') demo_token_file = [demo_token_file]"
    by (rule split_on_other) (use c in \<open>auto simp: demo_token_file_def\<close>)
  have t: "trim demo_token_file = demo_token_file"
    by (rule trim_printable) (use c ne last_in_set [OF ne] in \<open>auto simp: demo_token_file_def byte_def last_append\<close>)
  have w: "split_whitespace demo_token_file = [''w1'', ?hex]"
    unfolding demo_token_file_def
    by (subst split_whitespace_pair [of "''w1''" ?hex, symmetric])
       (use ne c in \<open>auto simp: byte_def\<close>)
  have d: "decode_digest ?hex = Some (replicate 32 0xAA)"
    by (simp only: decode_digest_def length_aa decode_aa) simp
  have "demo_token_file \<noteq> []" by (simp add: demo_token_file_def)
  then show ?thesis
    by (simp add: parse_worker_tokens_def l h t w d Let_def and_then_def)
qed

theorem token_speaks_for_one_worker_witness:
  "\<exists>handle content entries. Inr demo_handle = (Inr handle :: string + _)
     \<and> of_read handle (1024 * 1024) = Inr content
     \<and> parse_worker_tokens content = Inr entries
     \<and> distinct (map fst entries) \<and> distinct (map snd entries)
     \<and> (\<forall>headers w. (and_then (authorize_worker (\<lambda>_. replicate 32 0xAA)
            \<lparr>aa_api_token = as_bytes ''api'', aa_worker_tokens = PerWorkerTokens [(''w1'', replicate 32 0xAA)]\<rparr>
            headers) (\<lambda>who. require_identity who w) = Inr ())
          = (\<exists>token. bearer_token headers = Some token \<and> (w, replicate 32 0xAA) \<in> set entries))"
proof -
  have "serve_auth (\<lambda>_. Inr demo_handle) (\<lambda>_. Inr demo_handle) demo_config
    = Inr \<lparr>aa_api_token = as_bytes ''api'', aa_worker_tokens = PerWorkerTokens [(''w1'', replicate 32 0xAA)]\<rparr>"
    by (simp add: serve_auth_def resolve_worker_auth_def config_validate_def check_tokens_file_def
        check_tokens_file_handle_def load_worker_tokens_def map_err_def and_then_def demo_config_def
        demo_handle_def demo_tokens Let_def)
  from token_speaks_for_one_worker [OF _ this, of "\<lambda>_. replicate 32 0xAA" "''tokens''"]
  show ?thesis by (simp add: demo_config_def)
qed

end
