(* ===== verification/Api_Executions.thy ===== *)
theory Api_Executions
  imports Api_Auth Control_Store
begin

text \<open>
  \<open>orchestrator-api/src/executions.rs\<close> and \<open>interactive.rs\<close>: the handlers that create, read,
  cancel, retry and control executions.

  A handler that calls the stores several times does not hold the database in between. What
  other clients commit before its \<open>n\<close>-th call is the argument \<open>others n\<close>; a handler maps the
  database to its reply, the events it broadcasts and the database it leaves.
\<close>

text \<open>A request body the framework could not decode: its status and its text.\<close>

record json_rejection =
  jr_status :: nat
  jr_text :: string

record call_env =
  en_others :: "nat \<Rightarrow> db \<Rightarrow> db"
  en_utc :: "nat \<Rightarrow> time"
  en_db :: "nat \<Rightarrow> time"
  en_coll :: "string \<Rightarrow> string"
  en_dbtext :: "string \<Rightarrow> string"
  en_rfc3339 :: "time \<Rightarrow> string"

definition decode_payload :: "json_rejection + 'a \<Rightarrow> api_error + 'a" where
  "decode_payload payload =
     map_err (\<lambda>rejection.
       if jr_status rejection = 413
       then api_error_new 413 ''PAYLOAD_TOO_LARGE'' (jr_text rejection)
       else api_validation (jr_text rejection)) payload"

definition idempotency_key :: "headers \<Rightarrow> api_error + string" where
  "idempotency_key headers =
     ok_or (Option.bind (headers ''idempotency-key'') (\<lambda>value.
       Option.bind value (\<lambda>text. if text \<noteq> [] \<and> length text \<le> 255 then Some text else None)))
       (api_validation ''Idempotency-Key must be 1-255 bytes'')"

section \<open>Identifiers\<close>

text \<open>
  The characters of \<open>value.chars().flat_map(char::to_lowercase)\<close> as far as \<open>slug\<close> sees them:
  an ASCII character, or \<open>None\<close> for one that is not. A non-ASCII character is one \<open>None\<close> per
  byte: \<open>slug\<close> writes one hyphen for any run of them. The only two non-ASCII characters whose
  lower case has an ASCII letter are the Kelvin sign U+212A and the dotted capital I U+0130,
  whose lower case goes on with a combining dot.
\<close>

fun lowercase_chars :: "string \<Rightarrow> char option list" where
  "lowercase_chars [] = []"
| "lowercase_chars (c # cs) =
     (if byte c = 0xE2 \<and> starts_with [char_of (0x84::nat), char_of (0xAA::nat)] cs
      then Some (CHR ''k'') # lowercase_chars (drop 2 cs)
      else if byte c = 0xC4 \<and> starts_with [char_of (0xB0::nat)] cs
      then Some (CHR ''i'') # None # lowercase_chars (drop 1 cs)
      else (if byte c < 128 then Some (ascii_lower c) else None) # lowercase_chars cs)"

definition is_ascii_alphanumeric :: "char \<Rightarrow> bool" where
  "is_ascii_alphanumeric c \<longleftrightarrow>
     48 \<le> byte c \<and> byte c \<le> 57 \<or> 65 \<le> byte c \<and> byte c \<le> 90 \<or> 97 \<le> byte c \<and> byte c \<le> 122"

definition trim_hyphens :: "string \<Rightarrow> string" where
  "trim_hyphens s = rev (dropWhile (\<lambda>c. c = CHR ''-'') (rev s))"

definition slug_step :: "char option \<Rightarrow> string \<times> bool \<Rightarrow> string \<times> bool" where
  "slug_step character = (\<lambda>(result, hyphen).
     case character of
       Some c \<Rightarrow>
         if is_ascii_alphanumeric c then (result @ [c], False)
         else if result \<noteq> [] \<and> \<not> hyphen then (result @ ''-'', True) else (result, hyphen)
     | None \<Rightarrow> if result \<noteq> [] \<and> \<not> hyphen then (result @ ''-'', True) else (result, hyphen))"

definition slug :: "string \<Rightarrow> string" where
  "slug value = trim_hyphens (fst (fold slug_step (lowercase_chars value) ([], False)))"

definition role_slug :: "role \<Rightarrow> string" where
  "role_slug role = (case role of
     Implementation \<Rightarrow> ''impl'' | Review \<Rightarrow> ''review'' | Documentation \<Rightarrow> ''doc''
   | UiReview \<Rightarrow> ''ui'' | IntegrationTest \<Rightarrow> ''itest'' | Interactive \<Rightarrow> ''inter'')"

text \<open>The format \<open>{ordinal:02}\<close>.\<close>

definition show02 :: "nat \<Rightarrow> string" where
  "show02 n = (if n < 10 then ''0'' else []) @ show_nat n"

definition allocate_id :: "execution_manifest \<Rightarrow> nat \<Rightarrow> api_error + execution_id" where
  "allocate_id manifest ordinal =
     (let repository = slug (last (split_on (CHR ''/'') (rr_repo (mf_repository manifest)))) in
      if repository = [] then Inl (api_validation ''repository cannot produce an execution id'')
      else
        let issue = (case map_option (\<lambda>task. slug (tr_issue_id task)) (mf_task manifest) of
               Some s \<Rightarrow> if s \<noteq> [] then s else ''adhoc'' | None \<Rightarrow> ''adhoc'');
            suffix = ''-'' @ issue @ ''-'' @ role_slug (mf_role manifest) @ ''-'' @ show02 ordinal;
            available = 63 - length suffix;
            repository = trim_hyphens (take available repository) in
        if repository = [] then Inl (api_validation ''execution id prefix is too long'')
        else Inr (repository @ suffix))"

section \<open>Creation\<close>

definition core_error_text :: "core_error \<Rightarrow> string" where
  "core_error_text error = (case error of
     InvalidManifest message \<Rightarrow> ''invalid execution manifest: '' @ message
   | UnknownExecution i \<Rightarrow> ''unknown execution: '' @ i
   | CoreIllegalTransition from to \<Rightarrow>
       ''illegal state transition: '' @ state_debug from @ '' -> '' @ state_debug to)"

definition MAX_ID_ATTEMPTS :: nat where
  "MAX_ID_ATTEMPTS = 10000"

definition new_execution :: "execution_id \<Rightarrow> execution_manifest \<Rightarrow> time \<Rightarrow> execution" where
  "new_execution i manifest now =
     \<lparr>ex_id = i, ex_role = mf_role manifest, ex_state = Queued, ex_manifest = manifest,
      ex_worker_id = None, ex_attempt_id = None, ex_session_id = None, ex_worktree_path = None,
      ex_labels = \<lparr>ol_execution_id = i, ol_worker_id = ''unassigned'',
         ol_repository = rr_repo (mf_repository manifest),
         ol_issue = map_option tr_issue_id (mf_task manifest)\<rparr>,
      ex_created_at = now, ex_updated_at = now, ex_result = None\<rparr>"

definition new_event :: "execution_id \<Rightarrow> time \<Rightarrow> execution_event" where
  "new_event i now =
     \<lparr>ev_execution_id = i, ev_attempt_id = None, ev_sequence = 0, ev_at = now,
      ev_state = Queued, ev_kind = ExecutionCreated\<rparr>"

type_synonym created_reply = "(api_error + nat \<times> execution) \<times> execution_event option \<times> db"

text \<open>The loop over ordinals; \<open>calls\<close> counts the calls the handler made before it.\<close>

function create_from ::
  "call_env \<Rightarrow> nat \<Rightarrow> execution_manifest \<Rightarrow> string \<Rightarrow> string \<Rightarrow> nat \<Rightarrow> db \<Rightarrow> created_reply" where
  "create_from env calls manifest key scope ordinal d =
     (if MAX_ID_ATTEMPTS < ordinal
      then (Inl (api_conflict ''execution identifier space is exhausted for this task and role''), None, d)
      else case allocate_id manifest ordinal of
        Inl error \<Rightarrow> (Inl error, None, d)
      | Inr i \<Rightarrow>
          (let now = en_utc env ordinal;
               execution = new_execution i manifest now;
               event = new_event i now;
               d1 = en_others env (calls + ordinal) d in
           case create_idempotent (en_dbtext env) execution event key scope d1 of
             Inr (outcome, d2) \<Rightarrow>
               (Inr (if ie_created outcome then 201 else 200, ie_execution outcome),
                map_option (\<lambda>sequence. event\<lparr>ev_sequence := sequence\<rparr>) (ie_event_sequence outcome), d2)
           | Inl error \<Rightarrow>
               (case error of
                  DuplicateExecutionId _ \<Rightarrow> create_from env calls manifest key scope (ordinal + 1) d1
                | _ \<Rightarrow> (Inl (api_store error), None, d1))))"
  by pat_completeness auto
termination
  by (relation "measure (\<lambda>(env, calls, manifest, key, scope, ordinal, d). Suc MAX_ID_ATTEMPTS - ordinal)") auto

declare create_from.simps [simp del]

definition create_execution ::
  "call_env \<Rightarrow> nat \<Rightarrow> execution_manifest \<Rightarrow> string \<Rightarrow> string \<Rightarrow> db \<Rightarrow> created_reply" where
  "create_execution env calls manifest key scope d = create_from env calls manifest key scope 1 d"

definition api_create ::
  "app_auth \<Rightarrow> call_env \<Rightarrow> headers \<Rightarrow> json_rejection + execution_manifest \<Rightarrow> db \<Rightarrow> created_reply" where
  "api_create app env headers payload d =
     (case and_then (authorize_api app headers) (\<lambda>_.
           and_then (decode_payload payload) (\<lambda>manifest.
           and_then (idempotency_key headers) (\<lambda>key.
           and_then (map_err (\<lambda>error. api_validation (core_error_text error)) (manifest_validate manifest)) (\<lambda>_.
             Inr (manifest, key))))) of
        Inl error \<Rightarrow> (Inl error, None, d)
      | Inr (manifest, key) \<Rightarrow> create_execution env 0 manifest key ''create'' d)"

definition api_retry :: "app_auth \<Rightarrow> call_env \<Rightarrow> headers \<Rightarrow> execution_id \<Rightarrow> db \<Rightarrow> created_reply" where
  "api_retry app env headers i d =
     (case and_then (authorize_api app headers) (\<lambda>_. idempotency_key headers) of
        Inl error \<Rightarrow> (Inl error, None, d)
      | Inr key \<Rightarrow>
          (let d1 = en_others env 1 d in
           case get_execution i d1 of
             Inl error \<Rightarrow> (Inl (api_store error), None, d1)
           | Inr source \<Rightarrow>
               if ex_state source \<notin> set [Failed, Cancelled]
               then (Inl (api_conflict ''only failed or cancelled executions can be retried''), None, d1)
               else create_execution env 1 (ex_manifest source) key (''retry:'' @ ex_id source) d1))"

section \<open>Reading and cancelling\<close>

definition api_read ::
  "app_auth \<Rightarrow> call_env \<Rightarrow> headers \<Rightarrow> execution_id \<Rightarrow> db \<Rightarrow> (api_error + execution) \<times> db" where
  "api_read app env headers i d =
     (case authorize_api app headers of
        Inl error \<Rightarrow> (Inl error, d)
      | Inr _ \<Rightarrow> let d1 = en_others env 1 d in (map_err api_store (get_execution i d1), d1))"

definition api_read_resources ::
  "app_auth \<Rightarrow> call_env \<Rightarrow> bool \<Rightarrow> headers \<Rightarrow> execution_id \<Rightarrow> db \<Rightarrow> (api_error + resource_record list) \<times> db" where
  "api_read_resources app env configured headers i d =
     (case authorize_api app headers of
        Inl error \<Rightarrow> (Inl error, d)
      | Inr _ \<Rightarrow>
          if \<not> configured
          then (Inl (api_error_new 500 ''CLEANUP_UNAVAILABLE'' ''cleanup authority store is not configured''), d)
          else
            let d1 = en_others env 1 d in
            (and_then (map_err api_store (cleanup_get i d1)) (\<lambda>authority.
               Inr (project_resources (en_rfc3339 env) i (ca_created_at authority) (ca_phase authority)
                 (ca_handles authority))), d1))"

definition api_cancel ::
  "app_auth \<Rightarrow> call_env \<Rightarrow> headers \<Rightarrow> execution_id \<Rightarrow> db \<Rightarrow> (api_error + nat \<times> execution) \<times> db" where
  "api_cancel app env headers i d =
     (case authorize_api app headers of
        Inl error \<Rightarrow> (Inl error, d)
      | Inr _ \<Rightarrow>
          (let d1 = en_others env 1 d in
           case request_cancellation \<lparr>ck_utc = en_utc env 1, ck_db = en_db env 1\<rparr> i d1 of
             Inl error \<Rightarrow> (Inl (api_store error), d1)
           | Inr (execution, d2) \<Rightarrow> (Inr (202, execution), d2)))"

section \<open>Control\<close>

definition api_request_control ::
  "app_auth \<Rightarrow> call_env \<Rightarrow> headers \<Rightarrow> execution_id \<Rightarrow> control_action \<Rightarrow> db
     \<Rightarrow> (api_error + nat \<times> control_request) \<times> db" where
  "api_request_control app env headers i action d =
     (case and_then (authorize_api app headers) (\<lambda>_. idempotency_key headers) of
        Inl error \<Rightarrow> (Inl error, d)
      | Inr key \<Rightarrow>
          (let d1 = en_others env 1 d in
           case request_control (en_dbtext env) (en_db env 1) i action key d1 of
             Inl error \<Rightarrow> (Inl (api_store error), d1)
           | Inr (outcome, d2) \<Rightarrow>
               (Inr (if ic_created outcome then 202 else 200, ic_request outcome), d2)))"

definition api_attach ::
  "app_auth \<Rightarrow> call_env \<Rightarrow> headers \<Rightarrow> execution_id \<Rightarrow> db \<Rightarrow> (api_error + execution_attachment) \<times> db" where
  "api_attach app env headers i d =
     (case authorize_api app headers of
        Inl error \<Rightarrow> (Inl error, d)
      | Inr _ \<Rightarrow> let d1 = en_others env 1 d in (map_err api_store (attachment_snapshot i d1), d1))"

text \<open>\<open>AttachmentMode\<close> has one mode.\<close>

datatype attachment_mode = ForkConversationMode

definition api_fork ::
  "app_auth \<Rightarrow> call_env \<Rightarrow> headers \<Rightarrow> execution_id \<Rightarrow> json_rejection + attachment_mode \<Rightarrow> db
     \<Rightarrow> (api_error + nat \<times> control_request) \<times> db" where
  "api_fork app env headers i payload d =
     (case and_then (authorize_api app headers) (\<lambda>_. decode_payload payload) of
        Inl error \<Rightarrow> (Inl error, d)
      | Inr mode \<Rightarrow>
          if mode \<noteq> ForkConversationMode then (Inl (api_validation ''unsupported attachment mode''), d)
          else api_request_control app env headers i ForkConversation d)"

section \<open>The form of an identifier\<close>

definition label_char :: "char \<Rightarrow> bool" where
  "label_char c \<longleftrightarrow> 48 \<le> byte c \<and> byte c \<le> 57 \<or> 97 \<le> byte c \<and> byte c \<le> 122"

text \<open>A host name label: what names a container, a network and a branch alike.\<close>

definition dns_label :: "string \<Rightarrow> bool" where
  "dns_label s \<longleftrightarrow> s \<noteq> [] \<and> length s \<le> 63 \<and> (\<forall>c\<in>set s. label_char c \<or> c = CHR ''-'')
     \<and> label_char (hd s) \<and> label_char (last s)"

declare byte_char_of [simp]

lemma show_nat_digits: "c \<in> set (show_nat n) \<Longrightarrow> 48 \<le> byte c \<and> byte c \<le> 57"
proof (induction n rule: show_nat.induct)
  case (1 n)
  then show ?case by (subst (asm) (2) show_nat.simps) (auto split: if_splits)
qed

lemma show_nat_not_Nil [simp]: "show_nat n \<noteq> []"
  by (subst show_nat.simps) simp

definition digits_value :: "string \<Rightarrow> nat" where
  "digits_value s = foldl (\<lambda>a c. 10 * a + (byte c - 48)) 0 s"

lemma digits_value_show_nat: "digits_value (show_nat n) = n"
proof (induction n rule: show_nat.induct)
  case (1 n)
  then show ?case by (subst show_nat.simps) (auto simp: digits_value_def)
qed

lemma show02_digits: "c \<in> set (show02 n) \<Longrightarrow> 48 \<le> byte c \<and> byte c \<le> 57"
  using show_nat_digits [of c n] by (auto simp: show02_def byte_def split: if_splits)

lemma digits_value_show02: "digits_value (show02 n) = n"
  using digits_value_show_nat [of n] by (simp add: show02_def digits_value_def byte_def)

lemma show02_not_Nil [simp]: "show02 n \<noteq> []"
  by (simp add: show02_def)

lemma ascii_lower_not_upper: "\<not> (65 \<le> byte (ascii_lower c) \<and> byte (ascii_lower c) \<le> 90)"
  by (auto simp: ascii_lower_def Let_def)

lemma lowercase_chars_lower:
  "Some c \<in> set (lowercase_chars s) \<Longrightarrow> is_ascii_alphanumeric c \<Longrightarrow> label_char c"
proof (induction s rule: lowercase_chars.induct)
  case (2 x xs)
  then show ?case
    using ascii_lower_not_upper [of x]
    by (auto simp: label_char_def is_ascii_alphanumeric_def byte_def split: if_splits)
qed simp

lemma slug_fold:
  assumes "\<And>c. Some c \<in> set xs \<Longrightarrow> is_ascii_alphanumeric c \<Longrightarrow> label_char c"
    and "\<And>c. c \<in> set (fst acc) \<Longrightarrow> label_char c \<or> c = CHR ''-''"
    and "fst acc \<noteq> [] \<Longrightarrow> label_char (hd (fst acc))"
  shows "(\<forall>c\<in>set (fst (fold slug_step xs acc)). label_char c \<or> c = CHR ''-'')
     \<and> (fst (fold slug_step xs acc) \<noteq> [] \<longrightarrow> label_char (hd (fst (fold slug_step xs acc))))"
  using assms
proof (induction xs arbitrary: acc)
  case (Cons x xs)
  show ?case
    unfolding fold_simps
    by (rule Cons.IH) (use Cons.prems in \<open>auto simp: slug_step_def hd_append split: option.splits if_splits prod.splits\<close>)
qed auto

lemma trim_hyphens_prefix: "prefix (trim_hyphens s) s"
  unfolding trim_hyphens_def
  by (metis rev_rev_ident suffix_dropWhile suffix_to_prefix)

lemma trim_hyphens_last: "trim_hyphens s \<noteq> [] \<Longrightarrow> last (trim_hyphens s) \<noteq> CHR ''-''"
  unfolding trim_hyphens_def using hd_dropWhile [of "\<lambda>c. c = CHR ''-''" "rev s"] by (simp add: last_rev)

lemma prefix_hd: "prefix a b \<Longrightarrow> a \<noteq> [] \<Longrightarrow> hd a = hd b"
  by (auto simp: prefix_def)

lemma slug_chars:
  "(\<forall>c\<in>set (slug v). label_char c \<or> c = CHR ''-'') \<and> (slug v \<noteq> [] \<longrightarrow> label_char (hd (slug v)))"
proof -
  let ?r = "fst (fold slug_step (lowercase_chars v) ([], False))"
  have "(\<forall>c\<in>set ?r. label_char c \<or> c = CHR ''-'') \<and> (?r \<noteq> [] \<longrightarrow> label_char (hd ?r))"
    by (rule slug_fold) (auto intro: lowercase_chars_lower)
  moreover have p: "prefix (slug v) ?r" unfolding slug_def by (rule trim_hyphens_prefix)
  ultimately show ?thesis
    using set_mono_prefix [OF p] prefix_hd [OF p] p by (metis prefix_Nil subsetD)
qed

lemma allocate_id_form:
  assumes "allocate_id manifest ordinal = Inr i"
  obtains repository issue where
    "i = repository @ ''-'' @ issue @ ''-'' @ role_slug (mf_role manifest) @ ''-'' @ show02 ordinal"
    "repository \<noteq> []" "label_char (hd repository)" "length i \<le> 63"
    "\<And>c. c \<in> set (repository @ issue) \<Longrightarrow> label_char c \<or> c = CHR ''-''"
proof -
  define base where "base = slug (last (split_on (CHR ''/'') (rr_repo (mf_repository manifest))))"
  define issue where "issue = (case map_option (\<lambda>task. slug (tr_issue_id task)) (mf_task manifest) of
     Some s \<Rightarrow> if s \<noteq> [] then s else ''adhoc'' | None \<Rightarrow> ''adhoc'')"
  define suffix where "suffix = ''-'' @ issue @ ''-'' @ role_slug (mf_role manifest) @ ''-'' @ show02 ordinal"
  define repository where "repository = trim_hyphens (take (63 - length suffix) base)"
  have i: "i = repository @ suffix" and ne: "repository \<noteq> []"
    using assms unfolding allocate_id_def Let_def base_def [symmetric] issue_def [symmetric]
      suffix_def [symmetric] repository_def [symmetric]
    by (auto split: if_splits)
  have p: "prefix repository (take (63 - length suffix) base)"
    unfolding repository_def by (rule trim_hyphens_prefix)
  then have pb: "prefix repository base" using take_is_prefix prefix_order.trans by blast
  have "label_char (hd repository)"
    using slug_chars [of "last (split_on (CHR ''/'') (rr_repo (mf_repository manifest)))"]
      prefix_hd [OF pb ne] pb ne unfolding base_def by auto
  moreover have "length i \<le> 63"
    using prefix_length_le [OF p] ne i by (cases repository) auto
  moreover have "\<forall>c \<in> set issue. label_char c \<or> c = CHR ''-''"
    unfolding issue_def using slug_chars
    by (auto simp: label_char_def byte_def split: option.splits if_splits)
  moreover have "\<forall>c \<in> set repository. label_char c \<or> c = CHR ''-''"
    using slug_chars set_mono_prefix [OF pb] unfolding base_def by blast
  ultimately show ?thesis using that [of repository issue] i ne by (auto simp: suffix_def)
qed

lemma role_slug_label: "c \<in> set (role_slug r) \<Longrightarrow> label_char c"
  by (cases r) (auto simp: role_slug_def label_char_def byte_def)

lemma allocate_id_label:
  assumes "allocate_id manifest ordinal = Inr i"
  shows "dns_label i"
proof -
  from assms obtain repository issue where i:
    "i = repository @ ''-'' @ issue @ ''-'' @ role_slug (mf_role manifest) @ ''-'' @ show02 ordinal"
    "repository \<noteq> []" "label_char (hd repository)" "length i \<le> 63"
    "\<And>c. c \<in> set (repository @ issue) \<Longrightarrow> label_char c \<or> c = CHR ''-''"
    by (rule allocate_id_form) blast
  have d: "\<forall>c \<in> set (show02 ordinal). label_char c" using show02_digits by (auto simp: label_char_def)
  then have "label_char (last i)" by (simp add: i(1))
  moreover have "\<forall>c \<in> set i. label_char c \<or> c = CHR ''-''"
    using i(5) d role_slug_label by (auto simp: i(1))
  ultimately show ?thesis using i(2-4) by (auto simp: dns_label_def i(1))
qed

lemma allocate_id_ordinal:
  assumes "allocate_id manifest n = Inr i" and "allocate_id manifest' n' = Inr i"
  shows "n = n'"
proof -
  have s: "\<exists>a. rsplit_once (CHR ''-'') i = Some (a, show02 n)" if a: "allocate_id manifest n = Inr i" for manifest n
  proof -
    from a obtain repository issue where
      "i = repository @ ''-'' @ issue @ ''-'' @ role_slug (mf_role manifest) @ ''-'' @ show02 n"
      by (rule allocate_id_form) blast
    moreover have "CHR ''-'' \<notin> set (show02 n)" using show02_digits [of "CHR ''-''" n] by (auto simp: byte_def)
    ultimately show ?thesis
      by (auto simp: rsplit_once_Some_iff intro!: exI [of _ "repository @ ''-'' @ issue @ ''-'' @ role_slug (mf_role manifest)"])
  qed
  from s [OF assms(1)] s [OF assms(2)] have "show02 n = show02 n'" by auto
  then show ?thesis by (metis digits_value_show02)
qed

section \<open>What creation does\<close>

text \<open>The database the \<open>n\<close>-th pass of the loop meets: the passes before it committed nothing.\<close>

definition db_at_pass :: "call_env \<Rightarrow> nat \<Rightarrow> nat \<Rightarrow> db \<Rightarrow> db" where
  "db_at_pass env calls n d = fold (\<lambda>k. en_others env (calls + k)) [1..<Suc n] d"

lemma db_at_pass_0 [simp]: "db_at_pass env calls 0 d = d"
  by (simp add: db_at_pass_def)

lemma db_at_pass_Suc: "db_at_pass env calls (Suc n) d = en_others env (calls + Suc n) (db_at_pass env calls n d)"
  by (simp add: db_at_pass_def)

text \<open>The key names the execution \<open>e\<close>, requested in this scope with this manifest.\<close>

definition key_names :: "db \<Rightarrow> string \<Rightarrow> string \<Rightarrow> execution \<Rightarrow> bool" where
  "key_names d key scope e \<longleftrightarrow>
     (case sql_lookup rt_idempotency_key key (requests d) of
        None \<Rightarrow> False
      | Some request \<Rightarrow> rt_scope request = scope \<and> rt_execution_id request = ex_id e
          \<and> map_option decode_execution (find_execution d (ex_id e)) = Some e)"

lemma create_idempotent_duplicate:
  assumes "create_idempotent dbtext e ev key scope d = Inl (DuplicateExecutionId m)"
  shows "find_execution d (ex_id e) \<noteq> None"
proof -
  have "sql_exists (\<lambda>r. ex_id r = ex_id e) (executions d)"
    using assms
    by (auto simp: create_idempotent_def and_then_def append_in_transaction_def ok_or_def Let_def
        split: if_splits option.splits sum.splits)
  then show ?thesis by (auto simp: sql_exists_iff sql_lookup_def find_None_iff)
qed

lemma create_idempotent_cases:
  assumes "create_idempotent dbtext (new_execution i m now) (new_event i now) key scope d = Inr (outcome, d')"
  obtains (created) sequence where "outcome = \<lparr>ie_execution = new_execution i m now, ie_created = True,
        ie_event_sequence = Some sequence\<rparr>"
      "find_execution d i = None" "sql_lookup rt_idempotency_key key (requests d) = None"
      "executions d' = executions d @ [row_of_execution (new_execution i m now)]"
      "key_names d' key scope (new_execution i m now)"
      "history d' i = history d i @ [(new_event i now)\<lparr>ev_sequence := sequence\<rparr>]"
  | (replayed) "d' = d" "ie_created outcome = False" "ie_event_sequence outcome = None"
      "key_names d key scope (ie_execution outcome)" "ex_manifest (ie_execution outcome) = m"
proof (cases "sql_lookup rt_idempotency_key key (requests d)")
  case None
  have new: "\<not> sql_exists (\<lambda>r. ex_id r = i) (executions d)"
    using assms None by (auto simp: create_idempotent_def new_execution_def split: if_splits)
  define d2 where "d2 = d\<lparr>executions := executions d @ [row_of_execution (new_execution i m now)],
     requests := requests d @ [\<lparr>rt_idempotency_key = key, rt_scope = scope, rt_manifest = Some m,
        rt_execution_id = i, rt_created_at = now\<rparr>]\<rparr>"
  obtain n where app: "append_in_transaction (new_event i now) d2 = Inr (n, d')"
    and outcome: "outcome = \<lparr>ie_execution = new_execution i m now, ie_created = True, ie_event_sequence = Some n\<rparr>"
    using assms None new
    by (auto simp: create_idempotent_def d2_def new_execution_def and_then_Inr_iff split: if_splits)
  note frame = append_frame [OF app]
  have none: "find_execution d i = None" using new by (simp add: sql_exists_key)
  then have some: "find_execution d' i = Some (row_of_execution (new_execution i m now))"
    by (simp add: frame d2_def sql_lookup_append new_execution_def)
  have bound: "sql_lookup rt_idempotency_key key (requests d')
      = Some \<lparr>rt_idempotency_key = key, rt_scope = scope, rt_manifest = Some m,
        rt_execution_id = i, rt_created_at = now\<rparr>"
    using None by (simp add: frame d2_def sql_lookup_append)
  have "history d2 i = history d i" by (rule history_cong) (simp add: d2_def)
  then have "history d' i = history d i @ [(new_event i now)\<lparr>ev_sequence := n\<rparr>]"
    using append_history [OF app, of i] by (simp add: new_event_def)
  moreover have "executions d' = executions d @ [row_of_execution (new_execution i m now)]"
    by (simp add: frame d2_def)
  moreover have "key_names d' key scope (new_execution i m now)"
    using some by (simp add: key_names_def bound new_execution_def decode_execution_def row_of_execution_def
        execution.defs exec_row.defs)
  ultimately show ?thesis by (rule created [OF outcome none None, rotated -1])
next
  case (Some request)
  with assms obtain row where row: "find_execution d (rt_execution_id request) = Some row"
    by (auto simp: create_idempotent_def and_then_Inr_iff ok_or_def split: if_splits option.splits)
  have i: "ex_id row = rt_execution_id request" using sql_lookup_SomeD [OF row] by simp
  from assms Some row have r: "d' = d" "rt_scope request = scope"
    "outcome = \<lparr>ie_execution = decode_execution row, ie_created = False, ie_event_sequence = None\<rparr>"
    "ex_manifest (decode_execution row) = m"
    by (auto simp: create_idempotent_def ok_or_def Let_def new_execution_def split: if_splits)
  then have "key_names d key scope (ie_execution outcome)"
    using Some row i by (simp add: key_names_def decode_execution_def execution.defs)
  with r show ?thesis by (intro replayed) simp_all
qed

text \<open>The identifiers the loop passed over are all taken.\<close>

definition passed_over :: "call_env \<Rightarrow> nat \<Rightarrow> execution_manifest \<Rightarrow> nat \<Rightarrow> db \<Rightarrow> bool" where
  "passed_over env calls manifest n d \<longleftrightarrow>
     list_all (\<lambda>k. case allocate_id manifest k of
        Inr i \<Rightarrow> find_execution (db_at_pass env calls k d) i \<noteq> None | Inl _ \<Rightarrow> False) [1..<n]"

lemma passed_over_Suc:
  "1 \<le> n \<Longrightarrow> passed_over env calls manifest (Suc n) d \<longleftrightarrow> passed_over env calls manifest n d
     \<and> (case allocate_id manifest n of
        Inr i \<Rightarrow> find_execution (db_at_pass env calls n d) i \<noteq> None | Inl _ \<Rightarrow> False)"
  by (simp add: passed_over_def)

definition created_at_pass ::
  "call_env \<Rightarrow> nat \<Rightarrow> execution_manifest \<Rightarrow> string \<Rightarrow> string \<Rightarrow> db \<Rightarrow> nat \<Rightarrow> created_reply \<Rightarrow> bool" where
  "created_at_pass env calls manifest key scope d n reply \<longleftrightarrow>
     (let before = db_at_pass env calls n d in case reply of
        (Inr (status, e), sent, d') \<Rightarrow>
          status = 201 \<and> allocate_id manifest n = Inr (ex_id e)
            \<and> e = new_execution (ex_id e) manifest (en_utc env n)
            \<and> find_execution before (ex_id e) = None
            \<and> sql_lookup rt_idempotency_key key (requests before) = None
            \<and> executions d' = executions before @ [row_of_execution e]
            \<and> key_names d' key scope e
            \<and> (\<exists>event. sent = Some event \<and> history d' (ex_id e) = history before (ex_id e) @ [event])
          \<or> status = 200 \<and> sent = None \<and> d' = before
            \<and> key_names before key scope e \<and> ex_manifest e = manifest
      | (Inl error, sent, d') \<Rightarrow>
          sent = None \<and> (d' = before \<or> d' = db_at_pass env calls (n - 1) d
            \<and> (allocate_id manifest n = Inl error \<or> n = Suc MAX_ID_ATTEMPTS)))"

lemma create_from_outcome:
  assumes "1 \<le> ordinal" and "ordinal \<le> Suc MAX_ID_ATTEMPTS" and "passed_over env calls manifest ordinal d"
    and "create_from env calls manifest key scope ordinal (db_at_pass env calls (ordinal - 1) d) = reply"
  shows "\<exists>n. 1 \<le> n \<and> n \<le> Suc MAX_ID_ATTEMPTS \<and> passed_over env calls manifest n d
     \<and> created_at_pass env calls manifest key scope d n reply"
  using assms
proof (induction "Suc MAX_ID_ATTEMPTS - ordinal" arbitrary: ordinal)
  case 0
  then have o: "ordinal = Suc MAX_ID_ATTEMPTS" by simp
  from 0(5) [unfolded create_from.simps [of _ _ _ _ _ ordinal]] o
  have "created_at_pass env calls manifest key scope d ordinal reply"
    by (auto simp: created_at_pass_def Let_def)
  with 0(2-4) show ?case by blast
next
  case (Suc x)
  then have o: "\<not> MAX_ID_ATTEMPTS < ordinal" by simp
  let ?before = "db_at_pass env calls ordinal d"
  have before: "en_others env (calls + ordinal) (db_at_pass env calls (ordinal - 1) d) = ?before"
    using Suc.prems(1) db_at_pass_Suc [of env calls "ordinal - 1" d] by simp
  note step = Suc.prems(4) [unfolded create_from.simps [of _ _ _ _ _ ordinal] Let_def before]
  have here: "created_at_pass env calls manifest key scope d ordinal reply \<Longrightarrow> ?case"
    using Suc.prems by blast
  show ?case
  proof (cases "allocate_id manifest ordinal")
    case (Inl error)
    then show ?thesis using step o by (intro here) (auto simp: created_at_pass_def Let_def)
  next
    case (Inr i)
    let ?e = "new_execution i manifest (en_utc env ordinal)" and ?v = "new_event i (en_utc env ordinal)"
    show ?thesis
    proof (cases "create_idempotent (en_dbtext env) ?e ?v key scope ?before")
      case (Inr pair)
      obtain outcome d' where pair: "pair = (outcome, d')" by force
      with Inr have c: "create_idempotent (en_dbtext env) ?e ?v key scope ?before = Inr (outcome, d')" by simp
      have i: "ex_id ?e = i" by (simp add: new_execution_def)
      from c show ?thesis
      proof (cases rule: create_idempotent_cases)
        case (created sequence)
        then show ?thesis
          using step o c \<open>allocate_id manifest ordinal = Inr i\<close> i
          by (intro here) (auto simp: created_at_pass_def Let_def)
      next
        case replayed
        then show ?thesis
          using step o c \<open>allocate_id manifest ordinal = Inr i\<close>
          by (intro here) (auto simp: created_at_pass_def Let_def)
      qed
    next
      case (Inl error)
      show ?thesis
      proof (cases "\<exists>m. error = DuplicateExecutionId m")
        case True
        then obtain m where m: "error = DuplicateExecutionId m" by blast
        have "find_execution ?before i \<noteq> None"
          using create_idempotent_duplicate [of _ ?e] Inl m by (fastforce simp: new_execution_def)
        then have "passed_over env calls manifest (Suc ordinal) d"
          using Suc.prems(1,3) Inr by (simp add: passed_over_Suc)
        moreover have "create_from env calls manifest key scope (Suc ordinal) (db_at_pass env calls (Suc ordinal - 1) d) = reply"
          using step o Inr Inl m by simp
        ultimately show ?thesis using Suc.hyps(1) [of "Suc ordinal"] Suc.hyps(2) o by simp
      next
        case False
        then show ?thesis
          using step o Inr Inl
          by (intro here) (auto simp: created_at_pass_def Let_def split: store_error.splits)
      qed
    qed
  qed
qed

section \<open>Properties\<close>

text \<open>C27. Every identifier the controller gives an execution is a host name label: 1 to 63 lower
  case letters, digits and hyphens, beginning with a letter or digit and ending with one; and the
  identifiers of different ordinals differ, so the loop never tries one twice.\<close>

theorem allocated_ids_are_labels:
  assumes "allocate_id manifest ordinal = Inr i"
  shows "dns_label i \<and> (allocate_id manifest other = Inr i \<longrightarrow> other = ordinal)"
  using allocate_id_label [OF assms] allocate_id_ordinal [OF _ assms] by blast

lemma demo_allocated: "\<exists>i. allocate_id demo_manifest 7 = Inr i"
  by (simp add: allocate_id_def demo_manifest_def slug_def slug_step_def is_ascii_alphanumeric_def
      byte_def ascii_lower_def trim_hyphens_def show02_def show_nat.simps role_slug_def Let_def)

theorem allocated_ids_are_labels_witness:
  "\<exists>i. allocate_id demo_manifest 7 = Inr i \<and> dns_label i"
  using demo_allocated allocated_ids_are_labels by blast

text \<open>C19. Creating an execution, whatever other clients commit between the passes of its loop: the
  answer 201 means that one row, for the first identifier that was free, and its creation event
  were added and the key now names it; 200 means that the key already named the execution
  returned, for the same scope and manifest, and nothing was written; and an error leaves what
  the other clients wrote. Every identifier passed over was taken.\<close>

theorem creation_is_idempotent:
  "\<exists>n. 1 \<le> n \<and> n \<le> Suc MAX_ID_ATTEMPTS \<and> passed_over env calls manifest n d
     \<and> created_at_pass env calls manifest key scope d n (create_execution env calls manifest key scope d)"
  using create_from_outcome [of 1 env calls manifest d key scope]
  by (simp add: create_execution_def passed_over_def)

end
