(* ===== verification/Event_Stream.thy ===== *)
theory Event_Stream
  imports Api_Auth Execution_Store
begin

text \<open>
  \<open>orchestrator-api/src/events.rs\<close>: the server-sent event stream of one execution. The stream
  keeps a cursor, the batch it read ahead and whether to read again; it asks the durable log
  for what is behind its cursor and uses the broadcast channel only as a signal to ask again.

  One round of the loop of \<open>next_event\<close> is \<open>next_event_round\<close>; what the round meets, the log at
  the time it is read and what waiting on the channel gives, is its input. \<open>run_stream\<close> is
  \<open>stream::unfold\<close> over a sequence of rounds. The lemmas of the stream are proved for every
  log that keeps the contract \<open>event_log\<close>.
\<close>

type_synonym log_reader = "execution_id \<Rightarrow> nat \<Rightarrow> nat \<Rightarrow> store_error + execution_event list"

record stream_state =
  ss_execution_id :: execution_id
  ss_cursor :: nat
  ss_pending :: "execution_event list"
  ss_needs_fetch :: bool

definition EVENT_BATCH_SIZE :: nat where
  "EVENT_BATCH_SIZE = 128"

text \<open>What \<open>timeout(receiver.recv())\<close> gives.\<close>

datatype wake = Elapsed | Received | Lagged | Closed

datatype stream_round = Emit execution_event stream_state | Continue stream_state | Stop

definition next_event_round :: "log_reader \<Rightarrow> wake \<Rightarrow> stream_state \<Rightarrow> stream_round" where
  "next_event_round reader wake state =
     (case ss_pending state of
        event # rest \<Rightarrow>
          (let state = state\<lparr>ss_pending := rest\<rparr> in
           if ev_sequence event \<le> ss_cursor state then Continue state
           else Emit event (state\<lparr>ss_cursor := ev_sequence event\<rparr>))
      | [] \<Rightarrow>
          if ss_needs_fetch state then
            (case reader (ss_execution_id state) (ss_cursor state) EVENT_BATCH_SIZE of
               Inr evs \<Rightarrow> Continue (state\<lparr>ss_needs_fetch := (length evs = EVENT_BATCH_SIZE),
                 ss_pending := ss_pending state @ evs\<rparr>)
             | Inl error \<Rightarrow> Stop)
          else (case wake of
               Closed \<Rightarrow> Stop
             | _ \<Rightarrow> Continue (state\<lparr>ss_needs_fetch := True\<rparr>)))"

fun run_stream ::
  "('d \<Rightarrow> log_reader) \<Rightarrow> ('d \<times> wake) list \<Rightarrow> stream_state \<Rightarrow> execution_event list" where
  "run_stream batch [] state = []"
| "run_stream batch ((d, wake) # inputs) state =
     (case next_event_round (batch d) wake state of
        Emit event state' \<Rightarrow> event # run_stream batch inputs state'
      | Continue state' \<Rightarrow> run_stream batch inputs state'
      | Stop \<Rightarrow> [])"

text \<open>\<open>str::parse::<u64>\<close>: an optional plus sign, then digits, with overflow checked.\<close>

fun parse_digits :: "nat \<Rightarrow> string \<Rightarrow> nat option" where
  "parse_digits acc [] = Some acc"
| "parse_digits acc (c # cs) =
     (if 48 \<le> byte c \<and> byte c \<le> 57 then
        let acc = acc * 10 + (byte c - 48) in
        if acc < 2 ^ 64 then parse_digits acc cs else None
      else None)"

definition parse_u64 :: "string \<Rightarrow> nat option" where
  "parse_u64 s =
     (let digits = (case s of c # cs \<Rightarrow> if c = CHR ''+'' \<and> cs \<noteq> [] then cs else s | [] \<Rightarrow> []) in
      if digits = [] then None else parse_digits 0 digits)"

definition header_cursor :: "headers \<Rightarrow> api_error + nat option" where
  "header_cursor headers = (case headers ''last-event-id'' of
     None \<Rightarrow> Inr None
   | Some value \<Rightarrow>
       and_then (ok_or (Option.bind value parse_u64)
           (api_validation ''Last-Event-ID must be an unsigned integer''))
         (\<lambda>n. Inr (Some n)))"

text \<open>The handler reads the database twice: the execution in \<open>d\<close>, the first batch in \<open>d'\<close>.\<close>

definition open_stream ::
  "app_auth \<Rightarrow> execution_id \<Rightarrow> unit + u64 option \<Rightarrow> headers \<Rightarrow> db \<Rightarrow> db \<Rightarrow> api_error + stream_state" where
  "open_stream app i query headers d d' =
     and_then (authorize_api app headers) (\<lambda>_.
     and_then (map_err (\<lambda>_. api_validation ''cursor must be an unsigned integer'') query) (\<lambda>query.
     and_then (map_err api_store (get_execution i d)) (\<lambda>_.
     and_then (header_cursor headers) (\<lambda>from_header.
       let cursor = (case from_header of Some n \<Rightarrow> n
                     | None \<Rightarrow> (case query of Some n \<Rightarrow> unat n | None \<Rightarrow> 0)) in
       if bigint_max < cursor then Inl (api_validation ''event cursor exceeds the supported range'')
       else and_then (map_err api_store (since_batch i cursor EVENT_BATCH_SIZE d')) (\<lambda>pending.
         Inr \<lparr>ss_execution_id = i, ss_cursor = cursor, ss_pending = pending,
              ss_needs_fetch = (length pending = EVENT_BATCH_SIZE)\<rparr>)))))"

section \<open>The stream over any log\<close>

definition stream_ok :: "execution_event list \<Rightarrow> stream_state \<Rightarrow> bool" where
  "stream_ok history_now state \<longleftrightarrow>
     ss_pending state = take (length (ss_pending state)) (drop (ss_cursor state) history_now)
     \<and> ss_cursor state \<le> bigint_max"

lemma stream_ok_prefix:
  assumes "stream_ok l state" and "prefix l l'"
  shows "stream_ok l' state"
proof (cases "ss_pending state = []")
  case False
  then have n: "length (ss_pending state) \<le> length l - ss_cursor state"
    using arg_cong [of _ _ length, OF conjunct1 [OF assms(1) [unfolded stream_ok_def]]] by simp
  moreover have "ss_cursor state < length l" using False n by (cases "ss_pending state") auto
  ultimately show ?thesis using assms by (auto simp: stream_ok_def prefix_def)
qed (use assms in \<open>simp add: stream_ok_def\<close>)

lemma stream_ok_ConsD:
  assumes "stream_ok l state" and "ss_pending state = e # rest"
  shows "ss_cursor state < length l" and "e = l ! ss_cursor state"
    and "rest = take (length rest) (drop (Suc (ss_cursor state)) l)"
proof -
  have t: "e # rest = take (Suc (length rest)) (drop (ss_cursor state) l)"
    using assms by (simp add: stream_ok_def)
  then show c: "ss_cursor state < length l" by (metis drop_all leI list.distinct(1) take_Nil)
  show "e = l ! ss_cursor state" "rest = take (length rest) (drop (Suc (ss_cursor state)) l)"
    using t Cons_nth_drop_Suc [OF c, symmetric] by simp_all
qed

text \<open>The logs the rounds meet: each is sound and none forgets what an earlier one held.\<close>

fun growing :: "('d \<Rightarrow> bool) \<Rightarrow> ('d \<Rightarrow> execution_event list) \<Rightarrow> execution_event list \<Rightarrow> 'd list \<Rightarrow> bool" where
  "growing ok log l [] \<longleftrightarrow> True"
| "growing ok log l (d # ds) \<longleftrightarrow> ok d \<and> prefix l (log d) \<and> growing ok log (log d) ds"

fun last_log :: "('d \<Rightarrow> execution_event list) \<Rightarrow> execution_event list \<Rightarrow> 'd list \<Rightarrow> execution_event list" where
  "last_log log l [] = l"
| "last_log log l (d # ds) = last_log log (log d) ds"

lemma growing_prefix: "growing ok log l ds \<Longrightarrow> prefix l (last_log log l ds)"
  by (induction ds arbitrary: l) (auto intro: prefix_order.trans)

lemma run_stream_Emit [simp]:
  "next_event_round (batch d) wake state = Emit e state' \<Longrightarrow>
     run_stream batch ((d, wake) # inputs) state = e # run_stream batch inputs state'"
  by simp

context event_log
begin

lemma round_ok:
  assumes "ok d" and "stream_ok (log d (ss_execution_id state)) state"
  shows "case next_event_round (batch d) wake state of
      Emit e state' \<Rightarrow> ss_cursor state < length (log d (ss_execution_id state))
        \<and> e = log d (ss_execution_id state) ! ss_cursor state
        \<and> ss_execution_id state' = ss_execution_id state \<and> ss_cursor state' = Suc (ss_cursor state)
        \<and> stream_ok (log d (ss_execution_id state)) state'
    | Continue state' \<Rightarrow> ss_execution_id state' = ss_execution_id state \<and> ss_cursor state' = ss_cursor state
        \<and> stream_ok (log d (ss_execution_id state)) state'
        \<and> (if ss_needs_fetch state
           then ss_pending state' = take EVENT_BATCH_SIZE (drop (ss_cursor state) (log d (ss_execution_id state)))
           else ss_needs_fetch state' \<and> ss_pending state' = [])
    | Stop \<Rightarrow> wake = Closed"
proof (cases "ss_pending state")
  case Nil
  have "EVENT_BATCH_SIZE \<le> bigint_max" by (simp add: EVENT_BATCH_SIZE_def bigint_max_def)
  then have "batch d (ss_execution_id state) (ss_cursor state) EVENT_BATCH_SIZE
    = Inr (take EVENT_BATCH_SIZE (drop (ss_cursor state) (log d (ss_execution_id state))))"
    using assms by (intro batch_log) (auto simp: stream_ok_def)
  with Nil assms show ?thesis
    by (auto simp: next_event_round_def stream_ok_def min_def split: wake.splits)
next
  case (Cons e rest)
  note f = stream_ok_ConsD [OF assms(2) Cons]
  have "ev_sequence e = Suc (ss_cursor state)" using f(1,2) log_sequence [OF assms(1)] by simp
  moreover have "Suc (ss_cursor state) \<le> bigint_max"
    using f(1) log_bound [OF assms(1), of "ss_execution_id state"] by simp
  ultimately show ?thesis using Cons f by (simp add: next_event_round_def stream_ok_def Let_def)
qed

lemma run_stream_prefix:
  assumes "growing ok (\<lambda>d. log d i) l (map fst inputs)" and "stream_ok l state"
    and "ss_execution_id state = i"
  shows "prefix (run_stream batch inputs state)
     (drop (ss_cursor state) (last_log (\<lambda>d. log d i) l (map fst inputs)))"
  using assms
proof (induction inputs arbitrary: l state)
  case (Cons input inputs)
  obtain d wake where input: "input = (d, wake)" by force
  let ?L = "last_log (\<lambda>d. log d i) (log d i) (map fst inputs)"
  from Cons.prems have d: "ok d" "prefix l (log d i)" "growing ok (\<lambda>d. log d i) (log d i) (map fst inputs)"
    by (simp_all add: input)
  with Cons.prems have s: "stream_ok (log d i) state" by (blast intro: stream_ok_prefix)
  note r = round_ok [OF d(1), of state wake] and IH = Cons.IH [OF d(3)]
  show ?case
  proof (cases "next_event_round (batch d) wake state")
    case (Emit e state')
    with r s Cons.prems(3) have e: "ss_cursor state < length (log d i)" "e = log d i ! ss_cursor state"
      "ss_execution_id state' = i" "ss_cursor state' = Suc (ss_cursor state)" "stream_ok (log d i) state'"
      by simp_all
    have "prefix (log d i) ?L" using growing_prefix [OF d(3)] .
    with e(1,2) have "drop (ss_cursor state) ?L = e # drop (Suc (ss_cursor state)) ?L"
      by (auto simp: prefix_def nth_append Cons_nth_drop_Suc [symmetric])
    with IH [OF e(5,3)] e(4) Emit show ?thesis by (simp add: input)
  next
    case (Continue state')
    with r s Cons.prems(3) IH [of state'] show ?thesis by (simp add: input)
  qed (simp add: input)
qed simp

text \<open>Rounds still to be waited for before the next event of a log with something to deliver.\<close>

lemma run_stream_delivers:
  assumes "growing ok (\<lambda>d. log d i) l (map fst inputs)" and "\<And>d. (d, Closed) \<notin> set inputs"
    and "stream_ok l state" and "ss_execution_id state = i" and "prefix start l"
    and "3 * (length start - ss_cursor state) \<le> length inputs + (if ss_pending state \<noteq> [] then 2
           else if ss_needs_fetch state then 1 else 0)"
  shows "prefix (drop (ss_cursor state) start) (run_stream batch inputs state)"
  using assms
proof (induction inputs arbitrary: l state)
  case Nil
  then have "length start \<le> ss_cursor state" by (auto split: if_splits)
  then show ?case by simp
next
  case (Cons input inputs)
  obtain d wake where input: "input = (d, wake)" by force
  from Cons.prems(1,2) have d: "ok d" "prefix l (log d i)"
    "growing ok (\<lambda>d. log d i) (log d i) (map fst inputs)" "wake \<noteq> Closed"
    by (auto simp: input)
  have s: "stream_ok (log d i) state" and p: "prefix start (log d i)"
    using Cons.prems d(2) by (blast intro: stream_ok_prefix prefix_order.trans)+
  note r = round_ok [OF d(1), of state wake]
  have IH: "ss_cursor state' \<le> Suc (ss_cursor state) \<Longrightarrow> stream_ok (log d i) state' \<Longrightarrow> ss_execution_id state' = i \<Longrightarrow>
      3 * (length start - ss_cursor state') \<le> length inputs + (if ss_pending state' \<noteq> [] then 2
           else if ss_needs_fetch state' then 1 else 0) \<Longrightarrow>
      prefix (drop (ss_cursor state') start) (run_stream batch inputs state')" for state'
    using Cons.IH [OF d(3)] Cons.prems(2) p by simp
  show ?case
  proof (cases "length start \<le> ss_cursor state")
    case False
    then have c: "ss_cursor state < length start" by simp
    show ?thesis
    proof (cases "next_event_round (batch d) wake state")
      case (Emit e state')
      with r s Cons.prems(4) have e: "e = log d i ! ss_cursor state"
        "ss_execution_id state' = i" "ss_cursor state' = Suc (ss_cursor state)" "stream_ok (log d i) state'"
        by simp_all
      from Cons.prems(6) c have "3 * (length start - Suc (ss_cursor state)) \<le> length inputs"
        by (auto split: if_splits)
      then have "prefix (drop (Suc (ss_cursor state)) start) (run_stream batch inputs state')"
        using IH [of state'] e by simp
      moreover have "drop (ss_cursor state) start = e # drop (Suc (ss_cursor state)) start"
        using c p e(1) by (auto simp: Cons_nth_drop_Suc [symmetric] prefix_def nth_append)
      ultimately show ?thesis using Emit by (simp add: input)
    next
      case (Continue state')
      have empty: "ss_pending state = []"
        using Continue s stream_ok_ConsD [of "log d i" state] log_sequence [OF d(1)]
        by (cases "ss_pending state") (auto simp: next_event_round_def Let_def split: if_splits)
      have "drop (ss_cursor state) (log d i) \<noteq> []"
        using c p prefix_length_le [OF p] by simp
      then have full: "take EVENT_BATCH_SIZE (drop (ss_cursor state) (log d i)) \<noteq> []"
        by (simp add: EVENT_BATCH_SIZE_def)
      from Continue r s Cons.prems(4) full have "ss_execution_id state' = i"
        "ss_cursor state' = ss_cursor state" "stream_ok (log d i) state'"
        "if ss_needs_fetch state then ss_pending state' \<noteq> [] else ss_needs_fetch state' \<and> ss_pending state' = []"
        by (auto split: if_splits)
      with IH [of state'] Cons.prems(6) empty Continue show ?thesis
        by (auto simp: input split: if_splits)
    next
      case Stop
      with r s Cons.prems(4) d(4) show ?thesis by simp
    qed
  qed simp
qed

end

end
