(* ===== verification/Api_Workers.thy ===== *)
theory Api_Workers
  imports Api_Executions Store_Machine
begin

text \<open>
  \<open>orchestrator-api/src/workers.rs\<close> and \<open>operations.rs\<close>: registration and heartbeat of workers,
  the request to clean up a retained execution, the operator's listings, and the two sweeps of
  the background task of \<open>serve\<close>.
\<close>

section \<open>The sweeps\<close>

text \<open>The clock counts nanoseconds.\<close>

definition seconds :: "int \<Rightarrow> time" where
  "seconds n = n * 1000000000"

definition HEARTBEAT_DEADLINE_SECONDS :: int where
  "HEARTBEAT_DEADLINE_SECONDS = 90"

text \<open>\<open>recover_unreachable\<close> for each worker in turn; the first error ends the sweep.\<close>

fun recover_each :: "call_env \<Rightarrow> nat \<Rightarrow> worker_id list \<Rightarrow> db \<Rightarrow> (store_error + unit) \<times> db" where
  "recover_each env calls [] d = (Inr (), d)"
| "recover_each env calls (worker # rest) d =
     (let d1 = en_others env calls d in
      case recover_unreachable (en_db env calls) (en_coll env) worker d1 of
        Inl error \<Rightarrow> (Inl error, d1)
      | Inr (_, d2) \<Rightarrow> recover_each env (calls + 1) rest d2)"

definition reap_stale :: "call_env \<Rightarrow> time \<Rightarrow> db \<Rightarrow> (store_error + worker_id list) \<times> db" where
  "reap_stale env now d =
     (let d1 = en_others env 1 d in
      case mark_stale_before (en_db env 1) (now - seconds HEARTBEAT_DEADLINE_SECONDS) d1 of
        Inl error \<Rightarrow> (Inl error, d1)
      | Inr (stale, d2) \<Rightarrow>
          (case recover_each env 2 stale d2 of
             (Inl error, d3) \<Rightarrow> (Inl error, d3)
           | (Inr _, d3) \<Rightarrow> (Inr stale, d3)))"

definition recover_stranded :: "call_env \<Rightarrow> db \<Rightarrow> (store_error + worker_id list) \<times> db" where
  "recover_stranded env d =
     (let d1 = en_others env 1 d in
      case list_workers (en_coll env) d1 of
        Inl error \<Rightarrow> (Inl error, d1)
      | Inr ws \<Rightarrow>
          (let unreachable = map wr_id (filter (\<lambda>w. wr_state w = Unreachable) ws) in
           case recover_each env 2 unreachable d1 of
             (Inl error, d2) \<Rightarrow> (Inl error, d2)
           | (Inr _, d2) \<Rightarrow> (Inr unreachable, d2)))"

section \<open>Cleanup of a retained execution\<close>

definition cleanup_unavailable :: api_error where
  "cleanup_unavailable = api_error_new 503 ''CLEANUP_UNAVAILABLE'' ''durable cleanup reconciliation is unavailable''"

definition still_active :: "cleanup_disposition \<Rightarrow> bool" where
  "still_active s = (case s of Active _ \<Rightarrow> True | RetainRequested \<Rightarrow> True | _ \<Rightarrow> False)"

definition not_yet_cleaning :: "cleanup_disposition \<Rightarrow> bool" where
  "not_yet_cleaning s = (case s of Active _ \<Rightarrow> True | RetainRequested \<Rightarrow> True | Retained \<Rightarrow> True | _ \<Rightarrow> False)"

text \<open>The branch for a retained execution: a concurrent identical request may win the transition.\<close>

definition cleanup_retained :: "call_env \<Rightarrow> execution_id \<Rightarrow> cleanup_row \<Rightarrow> db \<Rightarrow> (api_error + nat) \<times> db" where
  "cleanup_retained env i authority d =
     (let d1 = en_others env 2 d in
      case cleanup_transition (en_db env 2) i Retained CleanupPending (ca_handles authority) d1 of
        Inr (_, d2) \<Rightarrow> (Inr 202, d2)
      | Inl error \<Rightarrow>
          (let d2 = en_others env 3 d1 in
           case and_then (cleanup_get i d2) authority_disposition of
             Inl e \<Rightarrow> (Inl (api_store e), d2)
           | Inr s \<Rightarrow> if not_yet_cleaning s then (Inl (api_store error), d2) else (Inr 202, d2)))"

definition cleanup_target :: "caller \<Rightarrow> execution_id \<Rightarrow> db \<Rightarrow> api_error + cleanup_row \<times> cleanup_disposition" where
  "cleanup_target who i d =
     and_then (map_err api_store (cleanup_get i d)) (\<lambda>authority.
     and_then (case who of WorkerCaller identity \<Rightarrow> require_identity identity (ca_worker_id authority)
               | ApiCaller \<Rightarrow> Inr ()) (\<lambda>_.
     and_then (map_err api_store (authority_disposition authority)) (\<lambda>s.
       Inr (authority, s))))"

definition request_cleanup ::
  "(bytes \<Rightarrow> bytes) \<Rightarrow> app_auth \<Rightarrow> call_env \<Rightarrow> bool \<Rightarrow> headers \<Rightarrow> execution_id \<Rightarrow> db \<Rightarrow> (api_error + nat) \<times> db" where
  "request_cleanup digest app env configured headers i d =
     (case authorize_api_or_worker digest app headers of
        Inl error \<Rightarrow> (Inl error, d)
      | Inr who \<Rightarrow>
          if \<not> configured then (Inl cleanup_unavailable, d)
          else
            (let d1 = en_others env 1 d in
             case cleanup_target who i d1 of
               Inl error \<Rightarrow> (Inl error, d1)
             | Inr (authority, s) \<Rightarrow>
                 if still_active s
                 then (Inl (api_error_new 409 ''CLEANUP_EXECUTION_ACTIVE''
                        ''an active execution cannot be cleaned up''), d1)
                 else if s = Retained then cleanup_retained env i authority d1
                 else (Inr 202, d1)))"

section \<open>Registration\<close>

record worker_advertisement =
  wa_id :: worker_id
  wa_capabilities :: worker_capabilities
  wa_proof :: "capability_proof option"

definition own_liveness :: "time \<Rightarrow> worker_registration \<Rightarrow> worker_registration" where
  "own_liveness now worker =
     (let worker = worker\<lparr>wr_last_heartbeat := now\<rparr> in
      worker\<lparr>wr_state := if (case wr_proof worker of Some p \<Rightarrow> proof_is_complete p | None \<Rightarrow> False)
           \<and> wc_health_errors (wr_capabilities worker) = [] then Ready else Offline\<rparr>)"

definition api_register ::
  "(bytes \<Rightarrow> bytes) \<Rightarrow> app_auth \<Rightarrow> call_env \<Rightarrow> headers \<Rightarrow> json_rejection + worker_advertisement \<Rightarrow> db
     \<Rightarrow> (api_error + nat \<times> worker_registration) \<times> db" where
  "api_register digest app env headers payload d =
     (case and_then (authorize_worker digest app headers) (\<lambda>identity.
           and_then (decode_payload payload) (\<lambda>advertisement.
           and_then (require_identity identity (wa_id advertisement)) (\<lambda>_. Inr advertisement))) of
        Inl error \<Rightarrow> (Inl error, d)
      | Inr advertisement \<Rightarrow>
          (let worker = \<lparr>wr_id = wa_id advertisement, wr_capabilities = wa_capabilities advertisement,
                 wr_state = Offline, wr_running = 0, wr_last_heartbeat = en_utc env 1,
                 wr_proof = wa_proof advertisement\<rparr>;
               d1 = en_others env 1 d in
           case (case get_worker (wr_id worker) d1 of
                   Inr existing \<Rightarrow> Inr (worker\<lparr>wr_running := wr_running existing\<rparr>, True)
                 | Inl (NotFound _) \<Rightarrow> Inr (worker\<lparr>wr_running := 0\<rparr>, False)
                 | Inl error \<Rightarrow> Inl (api_store error)) of
             Inl error \<Rightarrow> (Inl error, d1)
           | Inr (worker, exists) \<Rightarrow>
               (let worker = own_liveness (en_utc env 2) worker;
                    d2 = en_others env 2 d1 in
                case Worker_Store.register (en_db env 2) worker d2 of
                  Inl error \<Rightarrow> (Inl (api_store error), d2)
                | Inr (_, d3) \<Rightarrow> (Inr (if exists then 200 else 201, worker), d3))))"

definition api_heartbeat ::
  "(bytes \<Rightarrow> bytes) \<Rightarrow> app_auth \<Rightarrow> call_env \<Rightarrow> headers \<Rightarrow> string \<Rightarrow> json_rejection + worker_advertisement \<Rightarrow> db
     \<Rightarrow> (api_error + worker_registration) \<times> db" where
  "api_heartbeat digest app env headers path payload d =
     (case and_then (authorize_worker digest app headers) (\<lambda>identity.
           and_then (decode_payload payload) (\<lambda>advertisement.
           and_then (require_identity identity (wa_id advertisement)) (\<lambda>_.
             if wa_id advertisement \<noteq> path
             then Inl (api_validation ''worker id does not match heartbeat path'')
             else Inr advertisement))) of
        Inl error \<Rightarrow> (Inl error, d)
      | Inr advertisement \<Rightarrow>
          (let d1 = en_others env 1 d in
           case get_worker (wa_id advertisement) d1 of
             Inl error \<Rightarrow> (Inl (api_store error), d1)
           | Inr existing \<Rightarrow>
               (let worker = own_liveness (en_utc env 2)
                      \<lparr>wr_id = wa_id advertisement, wr_capabilities = wa_capabilities advertisement,
                       wr_state = wr_state existing, wr_running = wr_running existing,
                       wr_last_heartbeat = en_utc env 1, wr_proof = wa_proof advertisement\<rparr>;
                    d2 = en_others env 2 d1 in
                case Worker_Store.heartbeat (en_db env 2) worker d2 of
                  Inl error \<Rightarrow> (Inl (api_store error), d2)
                | Inr (reply, d3) \<Rightarrow> (map_err api_store reply, d3))))"

section \<open>Listings\<close>

definition validated_limit :: "u32 option \<Rightarrow> api_error + u32" where
  "validated_limit limit =
     (let limit = (case limit of Some n \<Rightarrow> n | None \<Rightarrow> 50) in
      if 1 \<le> limit \<and> limit \<le> 100 then Inr limit
      else Inl (api_validation ''limit must be between 1 and 100''))"

definition api_list_workers ::
  "app_auth \<Rightarrow> call_env \<Rightarrow> headers \<Rightarrow> u32 option \<Rightarrow> string option \<Rightarrow> db
     \<Rightarrow> (api_error + worker_registration list) \<times> db" where
  "api_list_workers app env headers limit cursor d =
     (case and_then (authorize_api app headers) (\<lambda>_.
           and_then (validated_limit limit) (\<lambda>limit.
             if (case cursor of Some c \<Rightarrow> c = [] \<or> 255 < length c \<or> has_control c | None \<Rightarrow> False)
             then Inl (api_validation ''cursor is invalid'') else Inr limit)) of
        Inl error \<Rightarrow> (Inl error, d)
      | Inr limit \<Rightarrow>
          let d1 = en_others env 1 d in
          (map_err api_store (list_page (en_coll env) (unat limit) cursor d1), d1))"

record operational_execution =
  oe_id :: execution_id
  oe_role :: role
  oe_state :: execution_state
  oe_worker_id :: "worker_id option"
  oe_attempt_id :: "attempt_id option"
  oe_updated_at :: time

definition operational :: "execution \<Rightarrow> operational_execution" where
  "operational e = \<lparr>oe_id = ex_id e, oe_role = ex_role e, oe_state = ex_state e,
     oe_worker_id = ex_worker_id e, oe_attempt_id = ex_attempt_id e, oe_updated_at = ex_updated_at e\<rparr>"

definition operator_executions ::
  "app_auth \<Rightarrow> call_env \<Rightarrow> headers \<Rightarrow> u32 option \<Rightarrow> db \<Rightarrow> (api_error + operational_execution list) \<times> db" where
  "operator_executions app env headers limit d =
     (case and_then (authorize_api app headers) (\<lambda>_. validated_limit limit) of
        Inl error \<Rightarrow> (Inl error, d)
      | Inr limit \<Rightarrow>
          let d1 = en_others env 1 d in
          (Inr (map operational (list_operational (en_coll env) limit d1)), d1))"

record queue_summary =
  qs_queued :: nat
  qs_worker_assigned :: nat
  qs_provisioning :: nat
  qs_running :: nat
  qs_paused_for_human :: nat
  qs_review_ready :: nat
  qs_total :: nat

definition count_state :: "execution_state \<times> nat \<Rightarrow> queue_summary \<Rightarrow> queue_summary" where
  "count_state = (\<lambda>(state, count) summary.
     let summary = (case state of
            Queued \<Rightarrow> summary\<lparr>qs_queued := qs_queued summary + count\<rparr>
          | WorkerAssigned \<Rightarrow> summary\<lparr>qs_worker_assigned := qs_worker_assigned summary + count\<rparr>
          | Provisioning \<Rightarrow> summary\<lparr>qs_provisioning := qs_provisioning summary + count\<rparr>
          | Running \<Rightarrow> summary\<lparr>qs_running := qs_running summary + count\<rparr>
          | PausedForHuman \<Rightarrow> summary\<lparr>qs_paused_for_human := qs_paused_for_human summary + count\<rparr>
          | ReviewReady \<Rightarrow> summary\<lparr>qs_review_ready := qs_review_ready summary + count\<rparr>
          | _ \<Rightarrow> summary) in
     if \<not> is_terminal state then summary\<lparr>qs_total := qs_total summary + count\<rparr> else summary)"

definition summarize_counts :: "(execution_state \<times> nat) list \<Rightarrow> queue_summary" where
  "summarize_counts counts = fold count_state counts
     \<lparr>qs_queued = 0, qs_worker_assigned = 0, qs_provisioning = 0, qs_running = 0,
      qs_paused_for_human = 0, qs_review_ready = 0, qs_total = 0\<rparr>"

definition operator_queue :: "app_auth \<Rightarrow> call_env \<Rightarrow> headers \<Rightarrow> db \<Rightarrow> (api_error + queue_summary) \<times> db" where
  "operator_queue app env headers d =
     (case authorize_api app headers of
        Inl error \<Rightarrow> (Inl error, d)
      | Inr _ \<Rightarrow> let d1 = en_others env 1 d in (Inr (summarize_counts (live_state_counts (en_coll env) d1)), d1))"

definition operator_cleanup_health ::
  "app_auth \<Rightarrow> call_env \<Rightarrow> bool \<Rightarrow> headers \<Rightarrow> db \<Rightarrow> (api_error + cleanup_health_snapshot) \<times> db" where
  "operator_cleanup_health app env configured headers d =
     (case authorize_api app headers of
        Inl error \<Rightarrow> (Inl error, d)
      | Inr _ \<Rightarrow>
          if \<not> configured then (Inl cleanup_unavailable, d)
          else let d1 = en_others env 1 d in (Inr (health_snapshot d1), d1))"

section \<open>The router\<close>

text \<open>
  The requests the router dispatches, besides the event stream, which opens a stream and leaves
  the database alone, and the listing of artifacts.
\<close>

datatype api_request =
    PostExecution "json_rejection + execution_manifest"
  | GetExecution execution_id
  | GetResources execution_id
  | PostCancel execution_id
  | PostRetry execution_id
  | PostPause execution_id
  | PostResume execution_id
  | GetAttach execution_id
  | PostAttach execution_id "json_rejection + attachment_mode"
  | GetOperatorExecutions "u32 option"
  | GetOperatorQueue
  | GetOperatorCleanupHealth
  | GetWorkers "u32 option" "string option"
  | PostWorkers "json_rejection + worker_advertisement"
  | PostHeartbeat string "json_rejection + worker_advertisement"
  | PostCleanup execution_id

text \<open>The status of a reply; a handler that returns a body only answers 200.\<close>

definition reply_status :: "('a \<Rightarrow> nat) \<Rightarrow> api_error + 'a \<Rightarrow> nat" where
  "reply_status ok r = (case r of Inl e \<Rightarrow> ae_status e | Inr x \<Rightarrow> ok x)"

definition dispatch ::
  "(bytes \<Rightarrow> bytes) \<Rightarrow> app_auth \<Rightarrow> call_env \<Rightarrow> bool \<Rightarrow> headers \<Rightarrow> api_request \<Rightarrow> db \<Rightarrow> nat \<times> db" where
  "dispatch digest app env configured headers request d =
     (case request of
        PostExecution payload \<Rightarrow>
          (case api_create app env headers payload d of (r, _, d') \<Rightarrow> (reply_status fst r, d'))
      | GetExecution i \<Rightarrow> (case api_read app env headers i d of (r, d') \<Rightarrow> (reply_status (\<lambda>_. 200) r, d'))
      | GetResources i \<Rightarrow> (case api_read_resources app env configured headers i d of (r, d') \<Rightarrow> (reply_status (\<lambda>_. 200) r, d'))
      | PostCancel i \<Rightarrow> (case api_cancel app env headers i d of (r, d') \<Rightarrow> (reply_status fst r, d'))
      | PostRetry i \<Rightarrow> (case api_retry app env headers i d of (r, _, d') \<Rightarrow> (reply_status fst r, d'))
      | PostPause i \<Rightarrow> (case api_request_control app env headers i Pause d of (r, d') \<Rightarrow> (reply_status fst r, d'))
      | PostResume i \<Rightarrow> (case api_request_control app env headers i Resume d of (r, d') \<Rightarrow> (reply_status fst r, d'))
      | GetAttach i \<Rightarrow> (case api_attach app env headers i d of (r, d') \<Rightarrow> (reply_status (\<lambda>_. 200) r, d'))
      | PostAttach i payload \<Rightarrow> (case api_fork app env headers i payload d of (r, d') \<Rightarrow> (reply_status fst r, d'))
      | GetOperatorExecutions limit \<Rightarrow> (case operator_executions app env headers limit d of (r, d') \<Rightarrow> (reply_status (\<lambda>_. 200) r, d'))
      | GetOperatorQueue \<Rightarrow> (case operator_queue app env headers d of (r, d') \<Rightarrow> (reply_status (\<lambda>_. 200) r, d'))
      | GetOperatorCleanupHealth \<Rightarrow> (case operator_cleanup_health app env configured headers d of (r, d') \<Rightarrow> (reply_status (\<lambda>_. 200) r, d'))
      | GetWorkers limit cursor \<Rightarrow> (case api_list_workers app env headers limit cursor d of (r, d') \<Rightarrow> (reply_status (\<lambda>_. 200) r, d'))
      | PostWorkers payload \<Rightarrow> (case api_register digest app env headers payload d of (r, d') \<Rightarrow> (reply_status fst r, d'))
      | PostHeartbeat path payload \<Rightarrow> (case api_heartbeat digest app env headers path payload d of (r, d') \<Rightarrow> (reply_status (\<lambda>_. 200) r, d'))
      | PostCleanup i \<Rightarrow> (case request_cleanup digest app env configured headers i d of (r, d') \<Rightarrow> (reply_status id r, d')))"

section \<open>Every handler is a run of the stores\<close>

definition env_runs :: "call_env \<Rightarrow> bool" where
  "env_runs env \<longleftrightarrow> (\<forall>n x. store_step\<^sup>*\<^sup>* x (en_others env n x))"

lemma env_runsD: "env_runs env \<Longrightarrow> store_step\<^sup>*\<^sup>* x (en_others env n x)"
  by (simp add: env_runs_def)

lemma env_run_step:
  "env_runs env \<Longrightarrow> store_step (en_others env n d) d' \<Longrightarrow> store_step\<^sup>*\<^sup>* d d'"
  using env_runsD rtranclp.rtrancl_into_rtrancl by metis

lemma new_execution_fresh: "fresh_execution (new_execution i m now)"
  by (simp add: fresh_execution_def unassigned_def new_execution_def)

lemma create_from_run:
  assumes run: "env_runs env"
  shows "store_step\<^sup>*\<^sup>* d (snd (snd (create_from env calls m key scope ordinal d)))"
proof (induction "Suc MAX_ID_ATTEMPTS - ordinal" arbitrary: ordinal d)
  case 0
  then show ?case by (subst create_from.simps) simp
next
  case (Suc k)
  let ?d1 = "en_others env (calls + ordinal) d"
  have IH: "store_step\<^sup>*\<^sup>* x (snd (snd (create_from env calls m key scope (ordinal + 1) x)))" for x
    by (rule Suc.hyps) (use Suc.hyps(2) in simp)
  have "store_step\<^sup>*\<^sup>* d ?d1" by (rule env_runsD [OF run])
  then have again: "store_step\<^sup>*\<^sup>* d (snd (snd (create_from env calls m key scope (ordinal + 1) ?d1)))"
    using IH by (rule rtranclp_trans)
  have made: "store_step\<^sup>*\<^sup>* d d2"
    if "create_idempotent (en_dbtext env) (new_execution i m t) ev key scope ?d1 = Inr (out, d2)" for i t ev out d2
    by (rule env_run_step [OF run]) (rule store_step.create [OF new_execution_fresh that])
  show ?case
    by (subst create_from.simps)
      (use again made env_runsD [OF run, of d] in \<open>auto simp: Let_def split: sum.splits store_error.splits\<close>)
qed

lemma recover_each_run:
  "env_runs env \<Longrightarrow> store_step\<^sup>*\<^sup>* d (snd (recover_each env calls ws d))"
proof (induction ws arbitrary: calls d)
  case (Cons w ws)
  then show ?case
    using env_runsD [of env d calls] env_run_step [of env calls d] store_step.recover
    by (auto simp: Let_def split: sum.splits) (meson rtranclp_trans)
qed simp

lemmas handler_defs = api_create_def api_retry_def api_read_def api_read_resources_def api_cancel_def
  api_request_control_def api_attach_def api_fork_def create_execution_def
  request_cleanup_def api_register_def api_heartbeat_def api_list_workers_def
  operator_executions_def operator_queue_def operator_cleanup_health_def

lemma env_run_trans:
  "env_runs env \<Longrightarrow> store_step\<^sup>*\<^sup>* d x \<Longrightarrow> store_step\<^sup>*\<^sup>* d (en_others env n x)"
  "env_runs env \<Longrightarrow> store_step\<^sup>*\<^sup>* d (en_others env n x) \<Longrightarrow> store_step (en_others env n x) d' \<Longrightarrow> store_step\<^sup>*\<^sup>* d d'"
  using env_runsD rtranclp_trans by (metis, metis rtranclp.rtrancl_into_rtrancl)

lemma api_create_run: "env_runs env \<Longrightarrow> store_step\<^sup>*\<^sup>* d (snd (snd (api_create app env h p d)))"
  by (auto simp: api_create_def create_execution_def create_from_run split: sum.splits)

lemma api_retry_run: 
  assumes run: "env_runs env" shows "store_step\<^sup>*\<^sup>* d (snd (snd (api_retry app env h i d)))"
proof -
  have "store_step\<^sup>*\<^sup>* d (snd (snd (create_from env c m k s n (en_others env 1 d))))" for c m k s n
    using env_runsD [OF run] create_from_run [OF run] rtranclp_trans by metis
  then show ?thesis
    using env_runsD [OF run] by (auto simp: api_retry_def create_execution_def Let_def split: sum.splits)
qed

lemma api_cancel_run: "env_runs env \<Longrightarrow> store_step\<^sup>*\<^sup>* d (snd (api_cancel app env h i d))"
  using env_runsD [of env d 1] env_run_step [of env 1 d] store_step.request_cancel
  by (auto simp: api_cancel_def Let_def split: sum.splits)

lemma api_request_control_run:
  "env_runs env \<Longrightarrow> store_step\<^sup>*\<^sup>* d (snd (api_request_control app env h i action d))"
  using env_runsD [of env d 1] env_run_step [of env 1 d] store_step.control_request
  by (auto simp: api_request_control_def Let_def split: sum.splits)

lemma api_fork_run: "env_runs env \<Longrightarrow> store_step\<^sup>*\<^sup>* d (snd (api_fork app env h i p d))"
  using api_request_control_run by (auto simp: api_fork_def split: sum.splits)

lemma api_reads_run:
  assumes "env_runs env"
  shows "store_step\<^sup>*\<^sup>* d (snd (api_read app env h i d))"
    "store_step\<^sup>*\<^sup>* d (snd (api_read_resources app env conf h i d))"
    "store_step\<^sup>*\<^sup>* d (snd (api_attach app env h i d))"
    "store_step\<^sup>*\<^sup>* d (snd (api_list_workers app env h limit cursor d))"
    "store_step\<^sup>*\<^sup>* d (snd (operator_executions app env h limit d))"
    "store_step\<^sup>*\<^sup>* d (snd (operator_queue app env h d))"
    "store_step\<^sup>*\<^sup>* d (snd (operator_cleanup_health app env conf h d))"
  using env_runsD [OF assms, of d 1]
  by (auto simp: handler_defs Let_def split: sum.splits)

lemma api_register_run:
  assumes run: "env_runs env" shows "store_step\<^sup>*\<^sup>* d (snd (api_register digest app env h p d))"
proof -
  have a: "store_step\<^sup>*\<^sup>* d (en_others env 1 d)" by (rule env_runsD [OF run])
  then have b: "store_step\<^sup>*\<^sup>* d (en_others env 2 (en_others env 1 d))" by (rule env_run_trans(1) [OF run])
  have c: "store_step\<^sup>*\<^sup>* d d3" if "Worker_Store.register t w (en_others env 2 (en_others env 1 d)) = Inr (u, d3)" for t w u d3
    by (rule env_run_trans(2) [OF run b]) (rule store_step.register [OF that])
  show ?thesis
    using a b c by (auto simp: api_register_def Let_def split: sum.splits store_error.splits)
qed

lemma api_heartbeat_run:
  assumes run: "env_runs env" shows "store_step\<^sup>*\<^sup>* d (snd (api_heartbeat digest app env h path p d))"
proof -
  have a: "store_step\<^sup>*\<^sup>* d (en_others env 1 d)" by (rule env_runsD [OF run])
  then have b: "store_step\<^sup>*\<^sup>* d (en_others env 2 (en_others env 1 d))" by (rule env_run_trans(1) [OF run])
  have c: "store_step\<^sup>*\<^sup>* d d3" if "Worker_Store.heartbeat t w (en_others env 2 (en_others env 1 d)) = Inr (u, d3)" for t w u d3
    by (rule env_run_trans(2) [OF run b]) (rule store_step.heartbeat [OF that])
  show ?thesis
    using a b c by (auto simp: api_heartbeat_def Let_def split: sum.splits)
qed

lemma cleanup_retained_run:
  assumes run: "env_runs env" shows "store_step\<^sup>*\<^sup>* d (snd (cleanup_retained env i c d))"
proof -
  let ?d1 = "en_others env 2 d"
  have a: "store_step\<^sup>*\<^sup>* d ?d1" by (rule env_runsD [OF run])
  then have b: "store_step\<^sup>*\<^sup>* d (en_others env 3 ?d1)" by (rule env_run_trans(1) [OF run])
  have e: "store_step\<^sup>*\<^sup>* d d2" if "cleanup_transition t j x y hs ?d1 = Inr (u, d2)" for t j x y hs u d2
    by (rule env_run_trans(2) [OF run a]) (rule store_step.cleanup_transition [OF that])
  show ?thesis using b e by (auto simp: cleanup_retained_def Let_def split: sum.splits)
qed

lemma request_cleanup_run:
  assumes run: "env_runs env" shows "store_step\<^sup>*\<^sup>* d (snd (request_cleanup digest app env conf h i d))"
proof -
  let ?d1 = "en_others env 1 d"
  have a: "store_step\<^sup>*\<^sup>* d ?d1" by (rule env_runsD [OF run])
  have b: "store_step\<^sup>*\<^sup>* d (snd (cleanup_retained env i c ?d1))" for c
    by (rule rtranclp_trans [OF a cleanup_retained_run [OF run]])
  show ?thesis
    using a b by (auto simp: request_cleanup_def Let_def split: sum.splits)
qed

lemmas handler_runs = api_create_run api_retry_run api_cancel_run api_request_control_run api_fork_run
  api_reads_run api_register_run api_heartbeat_run request_cleanup_run

lemma dispatch_run:
  "env_runs env \<Longrightarrow> store_step\<^sup>*\<^sup>* d (snd (dispatch digest app env conf h request d))"
  by (cases request) (simp_all add: dispatch_def case_prod_unfold handler_runs)

lemma sweeps_run:
  assumes run: "env_runs env"
  shows "store_step\<^sup>*\<^sup>* d (snd (reap_stale env now d))" "store_step\<^sup>*\<^sup>* d (snd (recover_stranded env d))"
proof -
  have a: "store_step\<^sup>*\<^sup>* d (en_others env 1 d)" by (rule env_runsD [OF run])
  have m: "store_step\<^sup>*\<^sup>* d d2" if "mark_stale_before t dl (en_others env 1 d) = Inr (ws, d2)" for t dl ws d2
    by (rule env_run_trans(2) [OF run a]) (rule store_step.mark_stale [OF that])
  have r: "store_step\<^sup>*\<^sup>* d x \<Longrightarrow> store_step\<^sup>*\<^sup>* d (snd (recover_each env n ws x))" for x n ws
    using recover_each_run [OF run] rtranclp_trans by metis
  show "store_step\<^sup>*\<^sup>* d (snd (reap_stale env now d))"
    using a m r by (auto simp: reap_stale_def Let_def split: sum.splits prod.splits) (metis snd_conv)+
  show "store_step\<^sup>*\<^sup>* d (snd (recover_stranded env d))"
    using a r by (auto simp: recover_stranded_def Let_def split: sum.splits prod.splits) (metis snd_conv)+
qed

section \<open>Authorization comes first\<close>

lemma authorize_api_401:
  "authorize_api app h = Inl e \<Longrightarrow> ae_status e = 401"
  by (auto simp: authorize_api_def api_unauthorized_def api_error_new_def split: if_splits)

lemma authorize_worker_401:
  "authorize_worker digest app h = Inl e \<Longrightarrow> ae_status e = 401"
  by (auto simp: authorize_worker_def api_unauthorized_def api_error_new_def ok_or_def split: option.splits)

lemma neither_authorized:
  assumes "authorize_api app h = Inl e" and "authorize_worker digest app h = Inl e'"
  shows "\<exists>e. authorize_api_or_worker digest app h = Inl e \<and> ae_status e = 401"
  using assms
  by (auto simp: authorize_api_def authorize_worker_def authorize_api_or_worker_def api_unauthorized_def
      api_error_new_def ok_or_def split: option.splits if_splits)

lemma dispatch_unauthorized:
  assumes "authorize_api app h = Inl e" and "authorize_worker digest app h = Inl e'"
  shows "dispatch digest app env conf h request d = (401, d)"
proof -
  obtain e2 where "authorize_api_or_worker digest app h = Inl e2" "ae_status e2 = 401"
    using neither_authorized [OF assms] by blast
  then show ?thesis
    using assms authorize_api_401 [OF assms(1)] authorize_worker_401 [OF assms(2)]
    by (cases request) (simp_all add: dispatch_def handler_defs and_then_def reply_status_def)
qed

section \<open>The request for cleanup\<close>

lemma not_yet_cleaning_rank: "not_yet_cleaning s \<longleftrightarrow> disposition_rank s < disposition_rank CleanupPending"
proof (cases s)
  case (Active st)
  then show ?thesis by (cases st) (simp_all add: not_yet_cleaning_def)
qed (simp_all add: not_yet_cleaning_def)

lemma disposition_phase_rank:
  "authority_disposition c = Inr s \<Longrightarrow> phase_rank (ca_phase c) = disposition_rank s"
  by (simp add: authority_disposition_def phase_rank_def)

lemma cleanup_transition_rank:
  assumes "cleanup_transition t i s s' h d = Inr (u, d')" and "cleanups_ok d"
  shows "\<exists>c. find_cleanup d' i = Some c \<and> phase_rank (ca_phase c) = disposition_rank s'"
proof -
  note t = cleanup_transition_Inr [OF assms(1)]
  obtain c where c: "c \<in> set (cleanups d)" "ca_execution_id c = i"
    "ca_phase c \<in> {disposition_text s, disposition_text s'}" using t(4) by blast
  then have "find_cleanup d i = Some c"
    using assms(2) sql_lookup_in_set [of ca_execution_id "cleanups d" c] by (simp add: cleanups_ok_def)
  then show ?thesis using c by (auto simp: t(2) sql_lookup_update phase_rank_def)
qed

lemma cleanup_target_Inr:
  assumes "cleanup_target who i d = Inr (c, s)"
  shows "find_cleanup d i = Some c" and "authority_disposition c = Inr s"
    and "who = WorkerCaller (OneWorker w) \<Longrightarrow> ca_worker_id c = w"
  using assms
  by (auto simp: cleanup_target_def and_then_def map_err_def cleanup_get_def ok_or_def require_identity_def
      split: sum.splits option.splits if_splits caller.splits)

lemma cleanup_retained_accepted:
  assumes "cleanup_retained env i c d = (Inr status, d')" and "cleanups_ok (en_others env 2 d)"
  shows "status = 202 \<and> (\<exists>c. find_cleanup d' i = Some c \<and> disposition_rank CleanupPending \<le> phase_rank (ca_phase c))"
proof (cases "cleanup_transition (en_db env 2) i Retained CleanupPending (ca_handles c) (en_others env 2 d)")
  case (Inr p)
  obtain u d2 where p: "p = (u, d2)" by (cases p)
  show ?thesis
    using cleanup_transition_rank [OF Inr [unfolded p] assms(2)] assms(1) Inr p
    by (auto simp: cleanup_retained_def Let_def)
next
  case (Inl e)
  then obtain c' s' where "cleanup_get i d' = Inr c'" "authority_disposition c' = Inr s'"
    "\<not> not_yet_cleaning s'" "status = 202"
    using assms(1)
    by (auto simp: cleanup_retained_def Let_def and_then_def split: sum.splits if_splits)
  then show ?thesis
    by (auto simp: cleanup_get_def ok_or_def disposition_phase_rank not_yet_cleaning_rank split: option.splits)
qed

lemma request_cleanup_accepted:
  assumes run: "env_runs env" and ok: "store_ok d"
    and r: "request_cleanup digest app env conf h i d = (Inr status, d')"
  shows "status = 202 \<and> (\<exists>c. find_cleanup d' i = Some c
     \<and> disposition_rank CleanupPending \<le> phase_rank (ca_phase c)
     \<and> (\<forall>w. authorize_api_or_worker digest app h = Inr (WorkerCaller (OneWorker w)) \<longrightarrow> ca_worker_id c = w))"
proof -
  let ?d1 = "en_others env 1 d"
  from r obtain who c s where who: "authorize_api_or_worker digest app h = Inr who"
    and t: "cleanup_target who i ?d1 = Inr (c, s)"
    and branch: "s = Retained \<and> cleanup_retained env i c ?d1 = (Inr status, d')
       \<or> s \<noteq> Retained \<and> \<not> still_active s \<and> status = 202 \<and> d' = ?d1"
    by (auto simp: request_cleanup_def Let_def split: sum.splits if_splits)
  note c = cleanup_target_Inr [OF t]
  have ok1: "store_ok ?d1" by (rule stores.run_inv [OF env_runsD [OF run] ok])
  show ?thesis
  proof (cases "s = Retained")
    case True
    with branch have m: "cleanup_retained env i c ?d1 = (Inr status, d')" by simp
    have "cleanups_ok (en_others env 2 ?d1)"
      using stores.run_inv [OF env_runsD [OF run] ok1] by (simp add: store_ok_def)
    then obtain c2 where c2: "status = 202" "find_cleanup d' i = Some c2"
      "disposition_rank CleanupPending \<le> phase_rank (ca_phase c2)"
      using cleanup_retained_accepted [OF m] by blast
    have "store_step\<^sup>*\<^sup>* ?d1 d'" using cleanup_retained_run [OF run, of ?d1 i c] m by simp
    then have "cleanups_le ?d1 d'" by (rule run_cleanups [OF _ ok1])
    then obtain c3 where "find_cleanup d' i = Some c3" "ca_worker_id c3 = ca_worker_id c"
      using c(1) unfolding cleanups_le_def authority_le_def by blast
    with c2(2) have "ca_worker_id c2 = ca_worker_id c" by simp
    with c2 c(3) who show ?thesis by auto
  next
    case False
    with branch have "\<not> not_yet_cleaning s" by (auto simp: not_yet_cleaning_def still_active_def split: cleanup_disposition.splits)
    with False branch c who show ?thesis
      by (auto simp: disposition_phase_rank not_yet_cleaning_rank)
  qed
qed

lemma request_cleanup_active:
  assumes "find_cleanup (en_others env 1 d) i = Some c" and "authority_disposition c = Inr s"
    and "still_active s"
  shows "\<exists>e. fst (request_cleanup digest app env conf h i d) = Inl e"
    and "snd (request_cleanup digest app env conf h i d) \<in> {d, en_others env 1 d}"
  using assms
  by (auto simp: request_cleanup_def cleanup_target_def Let_def and_then_def map_err_def cleanup_get_def ok_or_def
      split: sum.splits if_splits caller.splits)

end
