(* ===== verification/Api_Properties.thy ===== *)
theory Api_Properties
  imports Event_Stream Api_Workers Demo_Run
begin

text \<open>
  The properties of the HTTP interface that rest on the whole persistence layer: what a client of
  the event stream sees, that every handler is a run of the stores, and what an accepted request
  for cleanup promises.
\<close>

section \<open>The event stream over the stores\<close>

text \<open>Databases met one after the other, each reached from the one before it.\<close>

fun db_run :: "db \<Rightarrow> db list \<Rightarrow> bool" where
  "db_run d [] \<longleftrightarrow> True"
| "db_run d (x # xs) \<longleftrightarrow> store_step\<^sup>*\<^sup>* d x \<and> db_run x xs"

abbreviation read_batch :: "db \<Rightarrow> log_reader" where
  "read_batch d i a l \<equiv> since_batch i a l d"

lemma db_run_growing:
  assumes "db_run d ds" and "store_ok d"
  shows "growing events_ok (\<lambda>d. history d i) (history d i) ds"
  using assms
proof (induction ds arbitrary: d)
  case (Cons x xs)
  have "store_ok x" using Cons.prems stores.run_inv by auto
  with Cons show ?case using run_history [of d x i] by (auto simp: store_ok_def)
qed simp

lemma last_log_history: "last_log (\<lambda>d. history d i) (history d i) ds = history (last (d # ds)) i"
  by (induction ds arbitrary: d) auto

lemma open_stream_ok:
  assumes "open_stream app i query headers d0 d = Inr state" and "store_ok d"
  shows "stream_ok (history d i) state \<and> ss_execution_id state = i"
proof -
  have b: "EVENT_BATCH_SIZE \<le> bigint_max" by (simp add: EVENT_BATCH_SIZE_def bigint_max_def)
  have e: "events_ok d" using assms(2) by (simp add: store_ok_def)
  show ?thesis
    using assms(1) since_batch_history [OF e _ b]
    by (auto simp: open_stream_def and_then_Inr_iff map_err_def stream_ok_def Let_def not_less min_def
        split: sum.splits if_splits simp del: length_history)
qed

lemma stream_sequences:
  assumes "prefix es (drop c (history d i))" and "events_ok d"
  shows "map ev_sequence es = [Suc c..<Suc c + length es]"
proof (rule nth_equalityI)
  fix k assume "k < length (map ev_sequence es)"
  then have k: "k < length es" by simp
  from assms(1) obtain r where r: "drop c (history d i) = es @ r" by (auto simp: prefix_def)
  then have "length es + length r = length (history d i) - c" by (metis length_append length_drop)
  with k have c: "c + k < length (history d i)" by simp
  have "es ! k = drop c (history d i) ! k" using k r by (simp add: nth_append)
  also have "\<dots> = history d i ! (c + k)" using c by simp
  finally show "map ev_sequence es ! k = [Suc c..<Suc c + length es] ! k"
    using history_sequence [OF assms(2) c] k by (simp del: upt_Suc)
qed (simp del: upt_Suc)

section \<open>A request\<close>

definition demo_app :: app_auth where
  "demo_app = \<lparr>aa_api_token = as_bytes ''t'', aa_worker_tokens = SharedWorkerToken (as_bytes ''u'')\<rparr>"

definition demo_headers :: headers where
  "demo_headers name = (if name = ''authorization'' then Some (Some ''Bearer t'') else None)"

definition demo_env :: call_env where
  "demo_env = \<lparr>en_others = (\<lambda>_ d. d), en_utc = (\<lambda>_. 9), en_db = (\<lambda>_. 9), en_coll = id, en_dbtext = id,
     en_rfc3339 = (\<lambda>_. [])\<rparr>"

lemma demo_env_runs: "env_runs demo_env"
  by (simp add: env_runs_def demo_env_def)

lemma demo_bearer: "bearer_token demo_headers = Some (as_bytes ''t'')"
  by (simp add: bearer_token_def demo_headers_def strip_prefix_def)

lemma demo_authorized: "authorize_api demo_app demo_headers = Inr ()"
  using constant_time_eq_iff [of "as_bytes ''t''" "as_bytes ''t''"]
  by (simp add: authorize_api_def authorize_bearer_def demo_bearer static_validate_def demo_app_def as_bytes_def)

lemma demo_stream:
  "open_stream demo_app ''e1'' (Inr None) demo_headers demo_queued demo_queued
     = Inr \<lparr>ss_execution_id = ''e1'', ss_cursor = 0, ss_pending = history demo_queued ''e1'', ss_needs_fetch = False\<rparr>"
proof -
  have "events_ok demo_queued" using reachable_ok [OF demo_reachable(2)] by (simp add: store_ok_def)
  moreover have l: "length (events_of ''e1'' demo_queued) \<le> 1"
    by (simp add: demo_queued_def events_of_def demo_created_def)
  ultimately have "since_batch ''e1'' 0 EVENT_BATCH_SIZE demo_queued = Inr (history demo_queued ''e1'')"
    by (subst since_batch_history) (simp_all add: EVENT_BATCH_SIZE_def bigint_max_def)
  moreover have "get_execution ''e1'' demo_queued = Inr demo_execution"
    by (simp add: get_execution_def demo_queued_def demo_eval sql_lookup_def ok_or_def and_then_def)
  ultimately show ?thesis
    using l by (simp add: open_stream_def demo_authorized and_then_def map_err_def header_cursor_def demo_headers_def
      EVENT_BATCH_SIZE_def)
qed

section \<open>Properties\<close>

text \<open>C17. A client of the event stream sees the history of its execution, from its cursor on, exactly
  once and in order: whatever other transactions commit while the stream runs and however the
  broadcast channel behaves, what was sent is a prefix of the recorded history behind the cursor,
  numbered without a gap.\<close>

theorem stream_sends_history_once:
  assumes "reachable d" and "open_stream app i query headers d0 d = Inr state"
    and "db_run d (map fst inputs)"
  shows "prefix (run_stream read_batch inputs state)
      (drop (ss_cursor state) (history (last (d # map fst inputs)) i))
    \<and> map ev_sequence (run_stream read_batch inputs state)
      = [Suc (ss_cursor state)..<Suc (ss_cursor state) + length (run_stream read_batch inputs state)]"
proof -
  have ok: "store_ok d" by (rule reachable_ok [OF assms(1)])
  have "store_ok (last (x # xs))" if "db_run x xs" "store_ok x" for x xs
    using that by (induction xs arbitrary: x) (auto dest: stores.run_inv)
  then have l: "events_ok (last (d # map fst inputs))"
    using assms(3) ok by (simp add: store_ok_def del: last.simps)
  have p: "prefix (run_stream read_batch inputs state)
      (drop (ss_cursor state) (history (last (d # map fst inputs)) i))"
    using pg_log.run_stream_prefix [OF db_run_growing [OF assms(3) ok]] open_stream_ok [OF assms(2) ok]
    by (simp add: last_log_history del: last.simps)
  from p stream_sequences [OF p l] show ?thesis ..
qed

theorem stream_sends_history_once_witness:
  "\<exists>state. open_stream demo_app ''e1'' (Inr None) demo_headers demo_queued demo_queued = Inr state
    \<and> prefix (run_stream read_batch [(demo_queued, Elapsed), (demo_cancelling, Received)] state)
        (drop (ss_cursor state) (history demo_cancelling ''e1''))"
  using stream_sends_history_once [OF demo_reachable(2) demo_stream,
      of "[(demo_queued, Elapsed), (demo_cancelling, Received)]"] demo_stream demo_run by auto

text \<open>C18. The stream delivers: every event recorded when the stream was opened is sent within three
  rounds of its loop per event, whatever is appended meanwhile, as long as the broadcast channel
  is not closed.\<close>

theorem stream_delivers:
  assumes "reachable d" and "open_stream app i query headers d0 d = Inr state"
    and "db_run d (map fst inputs)" and "\<And>x. (x, Closed) \<notin> set inputs"
    and "3 * (length (history d i) - ss_cursor state) \<le> length inputs"
  shows "prefix (drop (ss_cursor state) (history d i)) (run_stream read_batch inputs state)"
proof -
  have ok: "store_ok d" by (rule reachable_ok [OF assms(1)])
  show ?thesis
    by (rule pg_log.run_stream_delivers [OF db_run_growing [OF assms(3) ok, of i] assms(4)])
      (use open_stream_ok [OF assms(2) ok] assms(5) in auto)
qed

theorem stream_delivers_witness:
  "\<exists>state. open_stream demo_app ''e1'' (Inr None) demo_headers demo_queued demo_queued = Inr state
    \<and> prefix (drop (ss_cursor state) (history demo_queued ''e1''))
        (run_stream read_batch [(demo_queued, Elapsed), (demo_queued, Received), (demo_cancelling, Lagged)] state)"
proof -
  have l: "length (history demo_queued ''e1'') \<le> 1"
    by (simp add: demo_queued_def events_of_def demo_created_def)
  show ?thesis
    using stream_delivers [OF demo_reachable(2) demo_stream,
      of "[(demo_queued, Elapsed), (demo_queued, Received), (demo_cancelling, Lagged)]"]
      demo_stream demo_run l by auto
qed

text \<open>C9. The interface moves the database through the stores' transactions only: with other clients
  doing the same, whatever request is handled, the database it leaves is reached from the one it
  met by committed transactions; so it is reachable again, and every property of runs of the
  stores holds of the controller. The two background sweeps are such runs as well.\<close>

theorem controller_refines_stores:
  assumes "env_runs env" and "reachable d"
  shows "store_step\<^sup>*\<^sup>* d (snd (dispatch digest app env configured headers request d))
    \<and> reachable (snd (dispatch digest app env configured headers request d))
    \<and> store_step\<^sup>*\<^sup>* d (snd (reap_stale env now d)) \<and> store_step\<^sup>*\<^sup>* d (snd (recover_stranded env d))"
  using dispatch_run [OF assms(1)] sweeps_run [OF assms(1)] reachable_run [OF assms(2)] by blast

theorem controller_refines_stores_witness:
  "reachable (snd (dispatch (\<lambda>t. t) demo_app demo_env True demo_headers (PostCancel ''e1'') demo_queued))"
  using controller_refines_stores [OF demo_env_runs demo_reachable(2)] by blast



text \<open>C20. An accepted request for cleanup promises that the cleanup is under way: the authority of
  the execution has reached \<open>CLEANUP_PENDING\<close> or a later phase in the database the handler leaves,
  also when a concurrent request won the race; and a worker's own token gets there only for an
  authority of that worker. An execution that is still active is refused and nothing is written
  for it.\<close>

theorem cleanup_request_is_durable:
  assumes "env_runs env" and "reachable d"
    and "request_cleanup digest app env configured headers i d = (reply, d')"
  shows "(case reply of
      Inr status \<Rightarrow> status = 202 \<and> (\<exists>c. find_cleanup d' i = Some c
        \<and> disposition_rank CleanupPending \<le> phase_rank (ca_phase c)
        \<and> (\<forall>w. authorize_api_or_worker digest app headers = Inr (WorkerCaller (OneWorker w)) \<longrightarrow> ca_worker_id c = w))
    | Inl _ \<Rightarrow> True)
    \<and> (case find_cleanup (en_others env 1 d) i of
        Some c \<Rightarrow> (case authority_disposition c of
            Inr s \<Rightarrow> still_active s \<longrightarrow> (\<exists>e. reply = Inl e) \<and> d' \<in> {d, en_others env 1 d}
          | Inl _ \<Rightarrow> True)
      | None \<Rightarrow> True)"
proof -
  have "case reply of
      Inr status \<Rightarrow> status = 202 \<and> (\<exists>c. find_cleanup d' i = Some c
        \<and> disposition_rank CleanupPending \<le> phase_rank (ca_phase c)
        \<and> (\<forall>w. authorize_api_or_worker digest app headers = Inr (WorkerCaller (OneWorker w)) \<longrightarrow> ca_worker_id c = w))
    | Inl _ \<Rightarrow> True"
    using request_cleanup_accepted [OF assms(1) reachable_ok [OF assms(2)]] assms(3)
    by (auto split: sum.splits)
  moreover have "(\<exists>e. reply = Inl e) \<and> d' \<in> {d, en_others env 1 d}"
    if "find_cleanup (en_others env 1 d) i = Some c" "authority_disposition c = Inr s" "still_active s" for c s
    using request_cleanup_active [OF that, of digest app configured headers] assms(3) by auto
  ultimately show ?thesis by (auto split: option.splits sum.splits)
qed

theorem cleanup_request_is_durable_witness:
  "\<exists>e. fst (request_cleanup (\<lambda>t. t) demo_app demo_env True demo_headers ''e1'' demo_prepared) = Inl e"
proof -
  have "authority_disposition demo_authority = Inr (Active StageReserved)"
    by (simp add: authority_disposition_def demo_authority_def disposition_from_str_def)
  then show ?thesis
    using cleanup_request_is_durable [OF demo_env_runs demo_reachable(4), of "\<lambda>t. t" demo_app True
        demo_headers "''e1''" _ _, OF surjective_pairing] demo_prepared_authority
    by (simp add: demo_env_def still_active_def)
qed

end
