(* ===== verification/Sha256.thy ===== *)
theory Sha256
  imports Prelude
begin

text \<open>
  The routine \<open>sha256_hex\<close> of \<open>orchestrator-persistence/src/artifacts.rs\<close>, step by step on
  32-bit words: padding, message schedule, the rounds, and the hexadecimal rendering.
\<close>

unbundle bit_operations_syntax

definition INITIAL :: "u32 list" where
  "INITIAL = [0x6a09e667, 0xbb67ae85, 0x3c6ef372, 0xa54ff53a, 0x510e527f, 0x9b05688c, 0x1f83d9ab,
     0x5be0cd19]"

definition K :: "u32 list" where
  "K = concat
    [[0x428a2f98, 0x71374491, 0xb5c0fbcf, 0xe9b5dba5],
     [0x3956c25b, 0x59f111f1, 0x923f82a4, 0xab1c5ed5],
     [0xd807aa98, 0x12835b01, 0x243185be, 0x550c7dc3],
     [0x72be5d74, 0x80deb1fe, 0x9bdc06a7, 0xc19bf174],
     [0xe49b69c1, 0xefbe4786, 0x0fc19dc6, 0x240ca1cc],
     [0x2de92c6f, 0x4a7484aa, 0x5cb0a9dc, 0x76f988da],
     [0x983e5152, 0xa831c66d, 0xb00327c8, 0xbf597fc7],
     [0xc6e00bf3, 0xd5a79147, 0x06ca6351, 0x14292967],
     [0x27b70a85, 0x2e1b2138, 0x4d2c6dfc, 0x53380d13],
     [0x650a7354, 0x766a0abb, 0x81c2c92e, 0x92722c85],
     [0xa2bfe8a1, 0xa81a664b, 0xc24b8b70, 0xc76c51a3],
     [0xd192e819, 0xd6990624, 0xf40e3585, 0x106aa070],
     [0x19a4c116, 0x1e376c08, 0x2748774c, 0x34b0bcb5],
     [0x391c0cb3, 0x4ed8aa4a, 0x5b9cca4f, 0x682e6ff3],
     [0x748f82ee, 0x78a5636f, 0x84c87814, 0x8cc70208],
     [0x90befffa, 0xa4506ceb, 0xbef9a3f7, 0xc67178f2]]"

section \<open>Padding\<close>

text \<open>The loop \<open>while message.len() % 64 != 56\<close>.\<close>

function pad_zeros :: "u8 list \<Rightarrow> u8 list" where
  "pad_zeros message = (if length message mod 64 \<noteq> 56 then pad_zeros (message @ [0]) else message)"
  by pat_completeness auto
termination
proof (relation "measure (\<lambda>m. if length m mod 64 \<le> 56 then 56 - length m mod 64 else 120 - length m mod 64)")
  fix message :: "u8 list"
  assume "length message mod 64 \<noteq> 56"
  moreover have "length message mod 64 < 64" by simp
  ultimately show "(message @ [0], message) \<in> measure
      (\<lambda>m. if length m mod 64 \<le> 56 then 56 - length m mod 64 else 120 - length m mod 64)"
    by (auto simp: mod_Suc)
qed simp

declare pad_zeros.simps [simp del]

definition to_be_bytes64 :: "u64 \<Rightarrow> u8 list" where
  "to_be_bytes64 w = map (\<lambda>k. ucast (drop_bit (8 * k) w)) [7, 6, 5, 4, 3, 2, 1, 0]"

definition pad_message :: "u8 list \<Rightarrow> u8 list" where
  "pad_message bytes =
     (let bit_len = (of_nat (length bytes) :: u64) * 8 in
      pad_zeros (bytes @ [0x80]) @ to_be_bytes64 bit_len)"

section \<open>Rounds\<close>

definition from_be_bytes32 :: "u8 list \<Rightarrow> u32" where
  "from_be_bytes32 b = push_bit 24 (ucast (b ! 0)) OR push_bit 16 (ucast (b ! 1))
     OR push_bit 8 (ucast (b ! 2)) OR ucast (b ! 3)"

text \<open>\<open>u32::rotate_right\<close>.\<close>

definition rotr :: "nat \<Rightarrow> u32 \<Rightarrow> u32" where
  "rotr n w = drop_bit n w OR push_bit (32 - n) w"

text \<open>\<open>chunks_exact\<close>: the remainder is dropped.\<close>

function chunks_exact :: "nat \<Rightarrow> 'a list \<Rightarrow> 'a list list" where
  "chunks_exact n xs =
     (if n = 0 \<or> length xs < n then [] else take n xs # chunks_exact n (drop n xs))"
  by pat_completeness auto
termination by (relation "measure (\<lambda>(n, xs). length xs)") auto

declare chunks_exact.simps [simp del]

definition schedule_word :: "u32 list \<Rightarrow> nat \<Rightarrow> u32" where
  "schedule_word schedule index =
     (let w15 = schedule ! (index - 15); w2 = schedule ! (index - 2);
          s0 = rotr 7 w15 XOR rotr 18 w15 XOR drop_bit 3 w15;
          s1 = rotr 17 w2 XOR rotr 19 w2 XOR drop_bit 10 w2 in
      schedule ! (index - 16) + s0 + schedule ! (index - 7) + s1)"

text \<open>The array of 64 words, filled from the chunk and then word by word.\<close>

definition schedule_of :: "u8 list \<Rightarrow> u32 list" where
  "schedule_of chunk =
     fold (\<lambda>index schedule. schedule[index := schedule_word schedule index]) [16..<64]
       (map from_be_bytes32 (chunks_exact 4 chunk) @ replicate (64 - length (chunks_exact 4 chunk)) 0)"

type_synonym hash_state = "u32 \<times> u32 \<times> u32 \<times> u32 \<times> u32 \<times> u32 \<times> u32 \<times> u32"

definition hash_round :: "u32 \<Rightarrow> u32 \<Rightarrow> hash_state \<Rightarrow> hash_state" where
  "hash_round k w = (\<lambda>(a, b, c, d, e, f, g, h).
     let s1 = rotr 6 e XOR rotr 11 e XOR rotr 25 e;
         choice = (e AND f) XOR (NOT e AND g);
         temp1 = h + s1 + choice + k + w;
         s0 = rotr 2 a XOR rotr 13 a XOR rotr 22 a;
         majority = (a AND b) XOR (a AND c) XOR (b AND c);
         temp2 = s0 + majority in
     (temp1 + temp2, a, b, c, d + temp1, e, f, g))"

definition hash_vars :: "u32 list \<Rightarrow> hash_state" where
  "hash_vars hash = (hash ! 0, hash ! 1, hash ! 2, hash ! 3, hash ! 4, hash ! 5, hash ! 6, hash ! 7)"

definition hash_chunk :: "u8 list \<Rightarrow> u32 list \<Rightarrow> u32 list" where
  "hash_chunk chunk hash =
     (let schedule = schedule_of chunk;
          (a, b, c, d, e, f, g, h) =
            fold (\<lambda>index. hash_round (K ! index) (schedule ! index)) [0..<64] (hash_vars hash) in
      map2 (+) hash [a, b, c, d, e, f, g, h])"

section \<open>Rendering\<close>

definition hex_digit :: "nat \<Rightarrow> char" where
  "hex_digit n = char_of (if n < 10 then 48 + n else 87 + n)"

text \<open>The format \<open>{word:08x}\<close>.\<close>

definition hex08 :: "u32 \<Rightarrow> string" where
  "hex08 w = map (\<lambda>k. hex_digit (unat (drop_bit (4 * k) w) mod 16)) [7, 6, 5, 4, 3, 2, 1, 0]"

definition sha256_hex :: "u8 list \<Rightarrow> string" where
  "sha256_hex bytes =
     concat (map hex08 (fold hash_chunk (chunks_exact 64 (pad_message bytes)) INITIAL))"

section \<open>The standard\<close>

text \<open>
  FIPS 180-4 as it is written: the padding by the least number of zero bytes, the message
  schedule as a recurrence, the functions of section 4.1.2 with the rotation of words.
\<close>

definition Ch :: "u32 \<Rightarrow> u32 \<Rightarrow> u32 \<Rightarrow> u32" where
  "Ch x y z = (x AND y) XOR (NOT x AND z)"

definition Maj :: "u32 \<Rightarrow> u32 \<Rightarrow> u32 \<Rightarrow> u32" where
  "Maj x y z = (x AND y) XOR (x AND z) XOR (y AND z)"

definition Sigma0 :: "u32 \<Rightarrow> u32" where
  "Sigma0 x = word_rotr 2 x XOR word_rotr 13 x XOR word_rotr 22 x"

definition Sigma1 :: "u32 \<Rightarrow> u32" where
  "Sigma1 x = word_rotr 6 x XOR word_rotr 11 x XOR word_rotr 25 x"

definition sigma0 :: "u32 \<Rightarrow> u32" where
  "sigma0 x = word_rotr 7 x XOR word_rotr 18 x XOR drop_bit 3 x"

definition sigma1 :: "u32 \<Rightarrow> u32" where
  "sigma1 x = word_rotr 17 x XOR word_rotr 19 x XOR drop_bit 10 x"

fun W :: "u32 list \<Rightarrow> nat \<Rightarrow> u32" where
  "W m t = (if t < 16 then m ! t
     else sigma1 (W m (t - 2)) + W m (t - 7) + sigma0 (W m (t - 15)) + W m (t - 16))"

declare W.simps [simp del]

fun fips_rounds :: "u32 list \<Rightarrow> nat \<Rightarrow> hash_state \<Rightarrow> hash_state" where
  "fips_rounds m 0 v = v"
| "fips_rounds m (Suc t) v =
     (case fips_rounds m t v of (a, b, c, d, e, f, g, h) \<Rightarrow>
        let T1 = h + Sigma1 e + Ch e f g + K ! t + W m t;
            T2 = Sigma0 a + Maj a b c in
        (T1 + T2, a, b, c, d + T1, e, f, g))"

definition block_words :: "u8 list \<Rightarrow> u32 list" where
  "block_words block = map (\<lambda>j. from_be_bytes32 (take 4 (drop (4 * j) block))) [0..<16]"

definition fips_block :: "u8 list \<Rightarrow> u32 list \<Rightarrow> u32 list" where
  "fips_block block hash =
     (let m = block_words block;
          (a, b, c, d, e, f, g, h) = fips_rounds m 64 (hash_vars hash) in
      map2 (+) [a, b, c, d, e, f, g, h] hash)"

definition fips_padding :: "u8 list \<Rightarrow> u8 list" where
  "fips_padding bytes =
     (let k = (LEAST k. (length bytes + 1 + k) mod 64 = 56) in
      bytes @ [0x80] @ replicate k 0 @ to_be_bytes64 (8 * of_nat (length bytes)))"

definition fips_sha256 :: "u8 list \<Rightarrow> u32 list" where
  "fips_sha256 bytes =
     (let padded = fips_padding bytes in
      fold (\<lambda>j. fips_block (take 64 (drop (64 * j) padded))) [0..<length padded div 64] INITIAL)"

section \<open>The routine meets the standard\<close>

lemma pad_zeros_least:
  "pad_zeros m = m @ replicate (LEAST k. (length m + k) mod 64 = 56) 0"
proof (induction m rule: pad_zeros.induct)
  case (1 m)
  show ?case
  proof (cases "length m mod 64 = 56")
    case True
    then have "(LEAST k. (length m + k) mod 64 = 56) = 0" by (intro Least_eq_0) simp
    with True show ?thesis by (simp add: pad_zeros.simps [of m])
  next
    case False
    let ?P = "\<lambda>k. (length m + k) mod 64 = 56"
    have "length m mod 64 + (120 - length m mod 64) = 120"
      using mod_less_divisor [of 64 "length m"] by linarith
    then have "(length m mod 64 + (120 - length m mod 64)) mod 64 = 56" by simp
    then have "?P (120 - length m mod 64)" by (simp only: mod_add_left_eq)
    then have "Least ?P = Suc (LEAST k. ?P (Suc k))" by (rule Least_Suc) (use False in simp)
    with 1 [OF False] False show ?thesis by (simp add: pad_zeros.simps [of m] replicate_app_Cons_same)
  qed
qed

lemma pad_message_fips: "pad_message bytes = fips_padding bytes"
  using pad_zeros_least [of "bytes @ [0x80]"]
  by (simp add: pad_message_def fips_padding_def Let_def mult.commute)

lemma rotr_word_rotr:
  assumes "0 < n" and "n < 32"
  shows "rotr n w = word_rotr n w"
proof (rule bit_word_eqI)
  fix k assume "k < LENGTH(32)"
  then have k: "k < 32" by simp
  show "bit (rotr n w) k \<longleftrightarrow> bit (word_rotr n w) k"
  proof (cases "k + n < 32")
    case True
    then show ?thesis
      using k assms by (auto simp: rotr_def bit_word_rotr_iff bit_or_iff bit_drop_bit_eq bit_push_bit_iff add.commute)
  next
    case False
    then have "(k + n) mod 32 = k + n - 32" using k assms by (simp add: mod_if)
    moreover have "\<not> bit w (n + k)" using False by (intro impossible_bit) simp
    ultimately show ?thesis
      using False k assms by (auto simp: rotr_def bit_word_rotr_iff bit_or_iff bit_drop_bit_eq bit_push_bit_iff)
  qed
qed

lemma chunks_exact_nth:
  assumes "0 < n"
  shows "chunks_exact n xs = map (\<lambda>j. take n (drop (n * j) xs)) [0..<length xs div n]"
proof (induction "length xs" arbitrary: xs rule: less_induct)
  case less
  show ?case
  proof (cases "length xs < n")
    case True
    then show ?thesis by (simp add: chunks_exact.simps)
  next
    case False
    have l: "length xs div n = Suc (length (drop n xs) div n)"
      using False assms by (simp add: le_div_geq)
    have "chunks_exact n (drop n xs) = map (\<lambda>j. take n (drop (n * Suc j) xs)) [0..<length (drop n xs) div n]"
      using less [of "drop n xs"] False assms by (simp add: add.commute)
    with False assms show ?thesis
      by (simp only: l upt_conv_Cons zero_less_Suc map_Suc_upt [symmetric] list.map map_map o_def)
        (simp add: chunks_exact.simps [of n xs])
  qed
qed

lemma schedule_word_W:
  assumes "16 \<le> n" and "\<And>j. j < n \<Longrightarrow> f ! j = W m j"
  shows "schedule_word f n = W m n"
proof -
  have "schedule_word f n = W m (n - 16) + sigma0 (W m (n - 15)) + W m (n - 7) + sigma1 (W m (n - 2))"
    using assms by (simp add: schedule_word_def sigma0_def sigma1_def rotr_word_rotr Let_def)
  also have "\<dots> = W m n" using assms(1) by (subst (5) W.simps) (simp add: ac_simps)
  finally show ?thesis .
qed

lemma schedule_fold:
  assumes "length m = 16" and "16 \<le> n" and "n \<le> 64"
  defines "f \<equiv> \<lambda>n. fold (\<lambda>index schedule. schedule[index := schedule_word schedule index]) [16..<n] (m @ replicate 48 0)"
  shows "length (f n) = 64 \<and> (\<forall>j<n. f n ! j = W m j)"
  using assms(2,3)
proof (induction n rule: dec_induct)
  case base
  then show ?case using assms(1) by (simp add: f_def W.simps nth_append)
next
  case (step n)
  have IH: "length (f n) = 64" "\<And>j. j < n \<Longrightarrow> f n ! j = W m j" using step by simp_all
  have S: "f (Suc n) = (f n)[n := W m n]"
    using step(1) schedule_word_W [OF step(1) IH(2)] by (simp add: f_def)
  show ?case using IH step(1,4) by (auto simp: S nth_list_update less_Suc_eq)
qed

lemma schedule_of_nth:
  assumes "length chunk = 64" and "j < 64"
  shows "schedule_of chunk ! j = W (block_words chunk) j"
proof -
  have c: "chunks_exact 4 chunk = map (\<lambda>j. take 4 (drop (4 * j) chunk)) [0..<16]"
    using chunks_exact_nth [of 4 chunk] assms(1) by simp
  have m: "map from_be_bytes32 (chunks_exact 4 chunk) = block_words chunk"
    unfolding c block_words_def by (simp del: upt_rec_numeral)
  have l: "length (chunks_exact 4 chunk) = 16" unfolding c by (simp del: upt_rec_numeral)
  have "length (block_words chunk) = 16" by (simp add: block_words_def del: upt_rec_numeral)
  from schedule_fold [OF this, of 64] show ?thesis
    using assms(2) unfolding schedule_of_def m l by (simp del: upt_rec_numeral)
qed

lemma fips_rounds_fold:
  assumes "\<And>j. j < n \<Longrightarrow> s ! j = W m j"
  shows "fold (\<lambda>index. hash_round (K ! index) (s ! index)) [0..<n] v = fips_rounds m n v"
  using assms
  by (induction n)
    (auto simp: hash_round_def Sigma0_def Sigma1_def Ch_def Maj_def rotr_word_rotr Let_def split: prod.splits)

lemma map2_add_commute: "map2 (+) xs ys = map2 (+) ys (xs :: u32 list)"
  by (subst zip_commute) (simp add: case_prod_unfold add.commute)

lemma hash_chunk_fips:
  assumes "length chunk = 64"
  shows "hash_chunk chunk hash = fips_block chunk hash"
proof -
  obtain a b c d e f gh where r0: "fips_rounds (block_words chunk) 64 (hash_vars hash) = (a, b, c, d, e, f, gh)"
    by (rule prod_cases7)
  obtain g h where gh: "gh = (g, h)" by (cases gh)
  note r = r0 [unfolded gh]
  have "fold (\<lambda>index. hash_round (K ! index) (schedule_of chunk ! index)) [0..<64] (hash_vars hash)
    = (a, b, c, d, e, f, g, h)"
    unfolding r [symmetric] by (rule fips_rounds_fold) (rule schedule_of_nth [OF assms])
  then have "hash_chunk chunk hash = map2 (+) hash [a, b, c, d, e, f, g, h]"
    unfolding hash_chunk_def Let_def by (simp only: prod.case)
  moreover have "fips_block chunk hash = map2 (+) [a, b, c, d, e, f, g, h] hash"
    unfolding fips_block_def Let_def r by (simp only: prod.case)
  ultimately show ?thesis using map2_add_commute by metis
qed

lemma fold_hash_chunks:
  assumes "n * 64 \<le> length p"
  shows "fold hash_chunk (map (\<lambda>j. take 64 (drop (64 * j) p)) [0..<n]) h
    = fold (\<lambda>j. fips_block (take 64 (drop (64 * j) p))) [0..<n] h"
  using assms by (induction n) (simp_all add: hash_chunk_fips)

lemma sha256_fips: "sha256_hex bytes = concat (map hex08 (fips_sha256 bytes))"
proof -
  let ?p = "fips_padding bytes"
  have "chunks_exact 64 ?p = map (\<lambda>j. take 64 (drop (64 * j) ?p)) [0..<length ?p div 64]"
    by (rule chunks_exact_nth) simp
  with fold_hash_chunks [of "length ?p div 64" ?p INITIAL] show ?thesis
    by (simp add: sha256_hex_def fips_sha256_def pad_message_fips Let_def)
qed

section \<open>The form of a digest\<close>

definition lower_hex :: "char \<Rightarrow> bool" where
  "lower_hex c \<longleftrightarrow> 48 \<le> byte c \<and> byte c \<le> 57 \<or> 97 \<le> byte c \<and> byte c \<le> 102"

lemma hex08_form: "length (hex08 w) = 8 \<and> (\<forall>c\<in>set (hex08 w). lower_hex c)"
proof -
  have "lower_hex (hex_digit n)" if "n < 16" for n
    using that by (simp add: lower_hex_def hex_digit_def byte_def)
  then show ?thesis by (simp add: hex08_def)
qed

lemma fips_rounds_block_length: "length hash = 8 \<Longrightarrow> length (hash_chunk chunk hash) = 8"
  by (auto simp: hash_chunk_def Let_def split: prod.splits)

lemma fold_hash_length: "length h = 8 \<Longrightarrow> length (fold hash_chunk cs h) = 8"
  by (induction cs arbitrary: h) (simp_all add: fips_rounds_block_length)

lemma sha256_hex_form: "length (sha256_hex bytes) = 64 \<and> (\<forall>c\<in>set (sha256_hex bytes). lower_hex c)"
proof -
  let ?h = "fold hash_chunk (chunks_exact 64 (pad_message bytes)) INITIAL"
  have "length ?h = 8" by (rule fold_hash_length) (simp add: INITIAL_def)
  moreover have "sum_list (map (length \<circ> hex08) ws) = 8 * length ws" for ws
    by (induction ws) (simp_all add: hex08_form)
  ultimately show ?thesis using hex08_form by (auto simp: sha256_hex_def length_concat)
qed


end
