(* ===== verification/Artifact_Store.thy ===== *)
theory Artifact_Store
  imports Api_Executions Sha256
begin

text \<open>
  \<open>orchestrator-persistence/src/artifacts.rs\<close>: artifacts are rows that name a blob by its digest;
  the blob is a file under the state root, written beside its place, linked into it without
  overwriting, and read back.

  The file system is a state: what \<open>lstat\<close> reports at a path, and the contents of the regular
  files by inode. Each call of it may fail (\<open>io_fail n\<close>, the text of the error), and before each
  call other processes may have changed it (\<open>io_others n\<close>).
\<close>

section \<open>Files\<close>

type_synonym path = "string list"

datatype fs_node = Directory | Symlink path | RegularFile nat | OtherNode

record fs =
  fs_lstat :: "path \<Rightarrow> fs_node option"
  fs_data :: "nat \<Rightarrow> bytes"
  fs_readonly :: "nat \<Rightarrow> bool"
  fs_next :: nat

record io_env =
  io_fail :: "nat \<Rightarrow> string option"
  io_others :: "nat \<Rightarrow> fs \<Rightarrow> fs"
  io_uuid :: string

type_synonym 'a io = "fs \<Rightarrow> (store_error + 'a) \<times> fs"

definition io_error :: "string \<Rightarrow> store_error" where
  "io_error error = Conflict (''artifact filesystem error: '' @ error)"

definition io_return :: "'a \<Rightarrow> 'a io" where
  "io_return x s = (Inr x, s)"

definition io_throw :: "store_error \<Rightarrow> 'a io" where
  "io_throw e s = (Inl e, s)"

definition io_bind :: "'a io \<Rightarrow> ('a \<Rightarrow> 'b io) \<Rightarrow> 'b io" where
  "io_bind f g s = (case f s of (Inl e, s') \<Rightarrow> (Inl e, s') | (Inr x, s') \<Rightarrow> g x s')"

definition io_call :: "io_env \<Rightarrow> nat \<Rightarrow> 'a io \<Rightarrow> 'a io" where
  "io_call env n f s =
     (let s' = io_others env n s in
      case io_fail env n of Some e \<Rightarrow> (Inl (io_error e), s') | None \<Rightarrow> f s')"

text \<open>What a path leads to when links are followed; the kernel gives up after 40 links.\<close>

fun fs_follow :: "nat \<Rightarrow> fs \<Rightarrow> path \<Rightarrow> fs_node option" where
  "fs_follow 0 s p = None"
| "fs_follow (Suc n) s p =
     (case fs_lstat s p of Some (Symlink q) \<Rightarrow> fs_follow n s q | node \<Rightarrow> node)"

definition fs_stat :: "fs \<Rightarrow> path \<Rightarrow> fs_node option" where
  "fs_stat s p = fs_follow 40 s p"

definition not_found :: string where
  "not_found = ''No such file or directory (os error 2)''"

definition symlink_metadata :: "path \<Rightarrow> fs_node io" where
  "symlink_metadata p s = (case fs_lstat s p of
     Some node \<Rightarrow> (Inr node, s) | None \<Rightarrow> (Inl (io_error not_found), s))"

definition open_read :: "path \<Rightarrow> fs_node io" where
  "open_read p s = (case fs_stat s p of
     Some node \<Rightarrow> (Inr node, s) | None \<Rightarrow> (Inl (io_error not_found), s))"

definition read_to_end :: "nat \<Rightarrow> bytes io" where
  "read_to_end inode s = (Inr (fs_data s inode), s)"

text \<open>\<open>create_dir_all\<close>: every missing ancestor, from the outermost inwards.\<close>

fun mkdirs :: "path list \<Rightarrow> unit io" where
  "mkdirs [] s = (Inr (), s)"
| "mkdirs (p # ps) s =
     (case fs_stat s p of
        Some Directory \<Rightarrow> mkdirs ps s
      | Some _ \<Rightarrow> (Inl (io_error ''File exists (os error 17)''), s)
      | None \<Rightarrow>
          if fs_lstat s p \<noteq> None then (Inl (io_error ''File exists (os error 17)''), s)
          else mkdirs ps (s\<lparr>fs_lstat := (fs_lstat s)(p \<mapsto> Directory)\<rparr>))"

definition create_dir_all :: "path \<Rightarrow> unit io" where
  "create_dir_all p = mkdirs (map (\<lambda>n. take n p) [1..<Suc (length p)])"

definition create_new :: "path \<Rightarrow> nat io" where
  "create_new p s =
     (if fs_lstat s p \<noteq> None then (Inl (io_error ''File exists (os error 17)''), s)
      else let n = fs_next s in
        (Inr n, s\<lparr>fs_lstat := (fs_lstat s)(p \<mapsto> RegularFile n), fs_data := (fs_data s)(n := []),
                  fs_readonly := (fs_readonly s)(n := False), fs_next := n + 1\<rparr>))"

definition write_all :: "nat \<Rightarrow> bytes \<Rightarrow> unit io" where
  "write_all inode b s = (Inr (), s\<lparr>fs_data := (fs_data s)(inode := fs_data s inode @ b)\<rparr>)"

definition set_readonly :: "nat \<Rightarrow> unit io" where
  "set_readonly inode s = (Inr (), s\<lparr>fs_readonly := (fs_readonly s)(inode := True)\<rparr>)"

text \<open>\<open>hard_link\<close>: the result says whether the name was new; an existing name is left alone.\<close>

definition hard_link :: "path \<Rightarrow> path \<Rightarrow> bool io" where
  "hard_link original link s =
     (case fs_lstat s original of
        None \<Rightarrow> (Inl (io_error not_found), s)
      | Some node \<Rightarrow>
          if fs_lstat s link \<noteq> None then (Inr False, s)
          else (Inr True, s\<lparr>fs_lstat := (fs_lstat s)(link \<mapsto> node)\<rparr>))"

section \<open>Blobs\<close>

definition is_regular :: "fs_node \<Rightarrow> bool" where
  "is_regular node = (case node of RegularFile _ \<Rightarrow> True | _ \<Rightarrow> False)"

definition inode_of :: "fs_node \<Rightarrow> nat" where
  "inode_of node = (case node of RegularFile n \<Rightarrow> n | _ \<Rightarrow> 0)"

definition verify_blob :: "io_env \<Rightarrow> nat \<Rightarrow> path \<Rightarrow> bytes \<Rightarrow> unit io" where
  "verify_blob env k p expected =
     io_bind (io_call env k (open_read p)) (\<lambda>opened.
     io_bind (io_call env (k + 1) (io_return ())) (\<lambda>_.
     io_bind (io_call env (k + 2) (symlink_metadata p)) (\<lambda>linked.
       if \<not> is_regular linked \<or> \<not> is_regular opened
       then io_throw (Conflict ''artifact blob path is not a regular file'')
       else if opened \<noteq> linked
       then io_throw (Conflict ''artifact blob identity changed during verification'')
       else io_bind (io_call env (k + 3) (read_to_end (inode_of opened))) (\<lambda>contents.
         if length contents \<noteq> length expected \<or> sha256_hex contents \<noteq> sha256_hex expected
         then io_throw (Conflict ''artifact blob content does not match its SHA-256 path'')
         else io_return ()))))"

text \<open>\<open>Path::parent\<close>: the root has none.\<close>

definition path_parent :: "path \<Rightarrow> path option" where
  "path_parent p = (if p = [] then None else Some (butlast p))"

fun reject_symlinks :: "io_env \<Rightarrow> nat \<Rightarrow> path list \<Rightarrow> unit io" where
  "reject_symlinks env k [] = io_return ()"
| "reject_symlinks env k (directory # rest) =
     io_bind (io_call env k (symlink_metadata directory)) (\<lambda>metadata.
       if metadata \<noteq> Directory
       then io_throw (Conflict ''artifact directory ancestry is not a regular directory'')
       else reject_symlinks env (k + 1) rest)"

definition reject_symlink_directory :: "io_env \<Rightarrow> nat \<Rightarrow> path \<Rightarrow> unit io" where
  "reject_symlink_directory env k p =
     reject_symlinks env k (List.map_filter id
       [Some p, path_parent p, Option.bind (path_parent p) path_parent])"

text \<open>Make the written file read-only, link it into place unless the place is taken, read it back.\<close>

definition publish_blob :: "io_env \<Rightarrow> path \<Rightarrow> nat \<Rightarrow> path \<Rightarrow> bytes \<Rightarrow> unit io" where
  "publish_blob env temporary file p bytes =
     io_bind (io_call env 12 (io_return ())) (\<lambda>_.
     io_bind (io_call env 13 (set_readonly file)) (\<lambda>_.
     io_bind (io_call env 14 (io_return ())) (\<lambda>_.
     io_bind (io_call env 15 (hard_link temporary p)) (\<lambda>linked.
     io_bind (if linked then io_call env 16 (io_return ()) else io_return ()) (\<lambda>_.
       verify_blob env 17 p bytes)))))"

definition pending_path :: "io_env \<Rightarrow> path \<Rightarrow> path" where
  "pending_path env parent = parent @ [''.pending-'' @ io_uuid env]"

definition install_blob :: "io_env \<Rightarrow> path \<Rightarrow> path \<Rightarrow> bytes \<Rightarrow> unit io" where
  "install_blob env parent p bytes =
     io_bind (io_call env 10 (create_new (pending_path env parent))) (\<lambda>file.
     io_bind (io_call env 11 (write_all file bytes)) (\<lambda>_.
       publish_blob env (pending_path env parent) file p bytes))"

definition persist_blob :: "io_env \<Rightarrow> path \<Rightarrow> bytes \<Rightarrow> unit io" where
  "persist_blob env p bytes =
     (case path_parent p of
        None \<Rightarrow> io_throw (Conflict ''artifact path lacks parent'')
      | Some parent \<Rightarrow>
          io_bind (io_call env 1 (create_dir_all parent)) (\<lambda>_.
          io_bind (reject_symlink_directory env 2 parent) (\<lambda>_.
          io_bind (io_call env 5 (\<lambda>s. (Inr (fs_lstat s p), s))) (\<lambda>existing.
            if existing \<noteq> None then verify_blob env 6 p bytes
            else install_blob env parent p bytes))))"

section \<open>Rows\<close>

record blob_row =
  bl_sha256 :: string
  bl_size_bytes :: nat
  bl_relative_path :: string
  bl_created_at :: time

record artifact_row =
  ar_execution_id :: execution_id
  ar_name :: string
  ar_sha256 :: string
  ar_media_type :: string
  ar_created_at :: time

record artifact_tables =
  blobs :: "blob_row list"
  artifacts :: "artifact_row list"

record artifact =
  af_execution_id :: execution_id
  af_name :: string
  af_sha256 :: string
  af_size_bytes :: nat
  af_media_type :: string
  af_created_at :: time

definition validate_name :: "string \<Rightarrow> store_error + unit" where
  "validate_name name =
     (if name = [] \<or> 255 < length name \<or> name = ''.'' \<or> name = ''..''
         \<or> CHR ''/'' \<in> set name \<or> CHR 0x5C \<in> set name \<or> has_control name
      then Inl (InvalidArtifactName name) else Inr ())"

definition execution_exists :: "execution_id \<Rightarrow> db \<Rightarrow> bool" where
  "execution_exists i d = sql_exists (\<lambda>r. ex_id r = i) (executions d)"

text \<open>The transaction of \<open>store\<close>: \<open>INSERT ... ON CONFLICT DO NOTHING\<close> into both tables.\<close>

definition insert_blob :: "string \<Rightarrow> nat \<Rightarrow> string \<Rightarrow> time \<Rightarrow> artifact_tables \<Rightarrow> artifact_tables" where
  "insert_blob digest size_bytes relative now t =
     (if sql_exists (\<lambda>b. bl_sha256 b = digest) (blobs t) then t
      else t\<lparr>blobs := blobs t @ [\<lparr>bl_sha256 = digest, bl_size_bytes = size_bytes,
              bl_relative_path = relative, bl_created_at = now\<rparr>]\<rparr>)"

definition record_artifact ::
  "execution_id \<Rightarrow> string \<Rightarrow> string \<Rightarrow> string \<Rightarrow> string \<Rightarrow> nat \<Rightarrow> time \<Rightarrow> artifact_tables
     \<Rightarrow> store_error + artifact_tables" where
  "record_artifact i name media_type digest relative size_bytes now t =
     (let t1 = insert_blob digest size_bytes relative now t in
      case find (\<lambda>a. ar_execution_id a = i \<and> ar_name a = name) (artifacts t1) of
        None \<Rightarrow> Inr (t1\<lparr>artifacts := artifacts t1 @ [\<lparr>ar_execution_id = i, ar_name = name,
                  ar_sha256 = digest, ar_media_type = media_type, ar_created_at = now\<rparr>]\<rparr>)
      | Some existing \<Rightarrow>
          if ar_sha256 existing \<noteq> digest \<or> ar_media_type existing \<noteq> media_type
          then Inl (Conflict (''artifact name '' @ name @ '' is already associated with different content''))
          else Inr t1)"

definition decode_artifact :: "artifact_row \<times> blob_row \<Rightarrow> artifact" where
  "decode_artifact row =
     \<lparr>af_execution_id = ar_execution_id (fst row), af_name = ar_name (fst row),
      af_sha256 = ar_sha256 (fst row), af_size_bytes = bl_size_bytes (snd row),
      af_media_type = ar_media_type (fst row), af_created_at = ar_created_at (fst row)\<rparr>"

definition list_artifacts ::
  "(string \<Rightarrow> string) \<Rightarrow> execution_id \<Rightarrow> db \<Rightarrow> artifact_tables \<Rightarrow> store_error + artifact list" where
  "list_artifacts coll i d t =
     (if \<not> execution_exists i d then Inl (NotFound i)
      else Inr (map decode_artifact
        (sort_key (\<lambda>row. ar_created_at (fst row)) (sort_key (\<lambda>row. coll (ar_name (fst row)))
          (filter (\<lambda>(a, b). bl_sha256 b = ar_sha256 a \<and> ar_execution_id a = i)
             (List.product (artifacts t) (blobs t)))))))"

text \<open>
  \<open>store\<close>: the existence of the execution is read in \<open>d\<close>, the rows are written to \<open>t\<close> and the
  listing that ends it reads what other clients made of them meanwhile, \<open>later\<close>. The first two
  characters of a digest name the directory.
\<close>

definition store_artifact ::
  "(string \<Rightarrow> string) \<Rightarrow> io_env \<Rightarrow> path \<Rightarrow> time \<Rightarrow> execution_id \<Rightarrow> string \<Rightarrow> string \<Rightarrow> bytes \<Rightarrow> db
     \<Rightarrow> artifact_tables \<Rightarrow> (artifact_tables \<Rightarrow> artifact_tables) \<Rightarrow> fs
     \<Rightarrow> (store_error + artifact) \<times> artifact_tables \<times> fs" where
  "store_artifact coll env root now i name media_type bytes d t later s =
     (case validate_name name of
        Inl error \<Rightarrow> (Inl error, t, s)
      | Inr _ \<Rightarrow>
          if trim media_type = [] \<or> 255 < length media_type
          then (Inl (InvalidArtifactName ''artifact media type must be 1-255 bytes''), t, s)
          else if \<not> execution_exists i d then (Inl (NotFound i), t, s)
          else
            (let digest = sha256_hex bytes;
                 relative = ''artifacts/'' @ take 2 digest @ ''/'' @ digest;
                 destination = root @ [''artifacts'', take 2 digest, digest] in
             case persist_blob env destination bytes s of
               (Inl error, s') \<Rightarrow> (Inl error, t, s')
             | (Inr _, s') \<Rightarrow>
                 if 2 ^ 63 \<le> length bytes then (Inl (Conflict ''artifact length exceeds BIGINT''), t, s')
                 else case record_artifact i name media_type digest relative (length bytes) now t of
                   Inl error \<Rightarrow> (Inl error, t, s')
                 | Inr t1 \<Rightarrow>
                     (and_then (list_artifacts coll i d (later t1)) (\<lambda>listed.
                        ok_or (find (\<lambda>a. af_name a = name) listed) (NotFound name)), later t1, s')))"

definition api_list_artifacts ::
  "app_auth \<Rightarrow> call_env \<Rightarrow> headers \<Rightarrow> execution_id \<Rightarrow> db \<Rightarrow> artifact_tables \<Rightarrow> api_error + artifact list" where
  "api_list_artifacts app env headers i d t =
     and_then (authorize_api app headers) (\<lambda>_. map_err api_store (list_artifacts (en_coll env) i d t))"

section \<open>Blobs are never overwritten\<close>

text \<open>What is in \<open>b\<close> is in \<open>s\<close>: names keep their nodes and files their contents.\<close>

definition fs_extends :: "fs \<Rightarrow> fs \<Rightarrow> bool" where
  "fs_extends b s \<longleftrightarrow> (\<forall>q node. fs_lstat b q = Some node \<longrightarrow> fs_lstat s q = Some node)
     \<and> fs_next b \<le> fs_next s \<and> (\<forall>n < fs_next b. fs_data s n = fs_data b n)"

definition io_keeps :: "fs \<Rightarrow> 'a io \<Rightarrow> bool" where
  "io_keeps b f \<longleftrightarrow> (\<forall>s. fs_extends b s \<longrightarrow> fs_extends b (snd (f s)))"

text \<open>Other processes of the system add files and change none.\<close>

definition io_friendly :: "io_env \<Rightarrow> bool" where
  "io_friendly env \<longleftrightarrow> (\<forall>b n s. fs_extends b s \<longrightarrow> fs_extends b (io_others env n s))"

named_theorems keeps

lemma fs_extends_refl [simp]: "fs_extends s s"
  by (simp add: fs_extends_def)

lemma io_keepsD: "io_keeps b f \<Longrightarrow> fs_extends b s \<Longrightarrow> f s = (r, s') \<Longrightarrow> fs_extends b s'"
  by (metis io_keeps_def snd_conv)

lemma keeps_return [keeps]: "io_keeps b (io_return x)" "io_keeps b (io_throw e)"
  by (simp_all add: io_keeps_def io_return_def io_throw_def)

lemma keeps_bind [keeps]: "io_keeps b f \<Longrightarrow> (\<And>x. io_keeps b (g x)) \<Longrightarrow> io_keeps b (io_bind f g)"
  by (auto simp: io_keeps_def io_bind_def split: prod.splits sum.splits)

lemma keeps_call [keeps]: "io_friendly env \<Longrightarrow> io_keeps b f \<Longrightarrow> io_keeps b (io_call env n f)"
  by (simp add: io_keeps_def io_call_def io_friendly_def Let_def split: option.split)

lemma keeps_if [keeps]: "(c \<Longrightarrow> io_keeps b f) \<Longrightarrow> (\<not> c \<Longrightarrow> io_keeps b g) \<Longrightarrow> io_keeps b (if c then f else g)"
  by simp

lemma keeps_reads [keeps]:
  "io_keeps b (open_read p)" "io_keeps b (symlink_metadata p)" "io_keeps b (read_to_end n)"
  "io_keeps b (\<lambda>s. (Inr (fs_lstat s p), s))" "io_keeps b (set_readonly n)"
  by (auto simp: io_keeps_def open_read_def symlink_metadata_def read_to_end_def set_readonly_def
      fs_extends_def split: option.split)

lemma keeps_new_name:
  "fs_extends b s \<Longrightarrow> fs_lstat s p = None \<Longrightarrow> fs_extends b (s\<lparr>fs_lstat := (fs_lstat s)(p \<mapsto> node)\<rparr>)"
  by (auto simp: fs_extends_def)

lemma keeps_mkdirs: "io_keeps b (mkdirs ps)"
  unfolding io_keeps_def
proof (intro allI impI)
  fix s assume "fs_extends b s"
  then show "fs_extends b (snd (mkdirs ps s))"
    by (induction ps arbitrary: s) (auto simp: keeps_new_name split: option.split fs_node.split)
qed

lemma keeps_create_dir_all [keeps]: "io_keeps b (create_dir_all p)"
  by (simp add: create_dir_all_def keeps_mkdirs)

lemma keeps_reject [keeps]: "io_friendly env \<Longrightarrow> io_keeps b (reject_symlink_directory env k p)"
proof -
  assume f: "io_friendly env"
  have "io_keeps b (reject_symlinks env k ps)" for ps
    by (induction ps arbitrary: k) (auto intro!: keeps f)
  then show ?thesis unfolding reject_symlink_directory_def by blast
qed

lemma keeps_hard_link [keeps]: "io_keeps b (hard_link p q)"
  by (auto simp: io_keeps_def hard_link_def intro: keeps_new_name split: option.split)

lemma keeps_verify [keeps]: "io_friendly env \<Longrightarrow> io_keeps b (verify_blob env k p e)"
  unfolding verify_blob_def by (intro keeps)

text \<open>The inode of the new file is not one of \<open>b\<close>.\<close>

lemma keeps_create_write:
  assumes "io_friendly env" and "\<And>n. io_keeps b (g n)"
  shows "io_keeps b (io_bind (io_call env j (create_new t)) (\<lambda>n.
     io_bind (io_call env k (write_all n bytes)) (\<lambda>_. g n)))"
  unfolding io_keeps_def
proof (intro allI impI)
  fix s assume s: "fs_extends b s"
  let ?s1 = "io_others env j s"
  have s1: "fs_extends b ?s1" using s assms(1) by (simp add: io_friendly_def)
  show "fs_extends b (snd (io_bind (io_call env j (create_new t)) (\<lambda>n.
     io_bind (io_call env k (write_all n bytes)) (\<lambda>_. g n)) s))"
  proof (cases "io_call env j (create_new t) s")
    case (Pair r s2)
    show ?thesis
    proof (cases r)
      case (Inl e)
      with Pair s1 show ?thesis
        by (auto simp: io_bind_def io_call_def create_new_def Let_def split: option.splits if_splits)
    next
      case (Inr n)
      with Pair s1 have n: "fs_next b \<le> n" and s2: "fs_extends b s2"
        by (auto simp: io_call_def create_new_def fs_extends_def Let_def split: option.splits if_splits)
      have "io_keeps b (write_all n bytes)"
        using n by (auto simp: io_keeps_def write_all_def fs_extends_def)
      then have "io_keeps b (io_bind (io_call env k (write_all n bytes)) (\<lambda>_. g n))"
        by (intro keeps assms)
      with Inr Pair s2 show ?thesis by (simp add: io_bind_def [of "io_call env j _"] io_keeps_def)
    qed
  qed
qed

lemma keeps_publish [keeps]: "io_friendly env \<Longrightarrow> io_keeps b (publish_blob env t n p bytes)"
  unfolding publish_blob_def by (intro keeps)

lemma keeps_install [keeps]: "io_friendly env \<Longrightarrow> io_keeps b (install_blob env parent p bytes)"
  unfolding install_blob_def by (intro keeps_create_write keeps)

lemma persist_blob_keeps:
  assumes "io_friendly env"
  shows "io_keeps b (persist_blob env p bytes)"
  using assms unfolding persist_blob_def by (cases "path_parent p") (auto intro!: keeps)

section \<open>A stored blob is verified\<close>

definition blob_at :: "fs \<Rightarrow> path \<Rightarrow> bytes \<Rightarrow> bool" where
  "blob_at s p bytes \<longleftrightarrow> (case fs_lstat s p of
     Some (RegularFile n) \<Rightarrow> length (fs_data s n) = length bytes \<and> sha256_hex (fs_data s n) = sha256_hex bytes
   | _ \<Rightarrow> False)"

lemma io_bind_Inr:
  "io_bind f g s = (Inr y, s') \<longleftrightarrow> (\<exists>x s1. f s = (Inr x, s1) \<and> g x s1 = (Inr y, s'))"
  by (auto simp: io_bind_def split: prod.splits sum.splits)

lemma io_call_Inr:
  "io_call env n f s = (Inr y, s') \<longleftrightarrow> io_fail env n = None \<and> f (io_others env n s) = (Inr y, s')"
  by (auto simp: io_call_def Let_def split: option.splits)

lemma verify_blob_sound:
  assumes "io_friendly env" and "verify_blob env k p bytes s = (Inr (), s')"
  shows "blob_at s' p bytes"
proof -
  from assms(2) obtain node s1 where l: "fs_lstat s1 p = Some node" and r: "is_regular node"
    and s': "s' = io_others env (k + 3) s1"
    and c: "length (fs_data s' (inode_of node)) = length bytes"
      "sha256_hex (fs_data s' (inode_of node)) = sha256_hex bytes"
    by (auto simp: verify_blob_def io_bind_Inr io_call_Inr io_throw_def io_return_def read_to_end_def
        symlink_metadata_def open_read_def split: if_splits option.splits)
  have "fs_extends s1 s'" using assms(1) by (simp add: s' io_friendly_def)
  with l have "fs_lstat s' p = Some node" by (simp add: fs_extends_def)
  with r c show ?thesis by (auto simp: blob_at_def is_regular_def inode_of_def split: fs_node.splits)
qed

lemma persist_blob_sound:
  assumes "io_friendly env" and "persist_blob env p bytes s = (Inr (), s')"
  shows "blob_at s' p bytes"
  using assms(2)
  by (auto simp: persist_blob_def install_blob_def publish_blob_def io_bind_Inr io_throw_def
      dest!: verify_blob_sound [OF assms(1)] split: option.splits if_splits)

section \<open>The rows\<close>

text \<open>The primary keys and the foreign key of the two tables.\<close>

definition artifacts_ok :: "artifact_tables \<Rightarrow> bool" where
  "artifacts_ok t \<longleftrightarrow> distinct (map bl_sha256 (blobs t))
     \<and> distinct (map (\<lambda>a. (ar_execution_id a, ar_name a)) (artifacts t))
     \<and> ar_sha256 ` set (artifacts t) \<subseteq> bl_sha256 ` set (blobs t)"

lemma insert_blob_ok:
  assumes "artifacts_ok t"
  shows "artifacts (insert_blob digest n relative now t) = artifacts t"
    and "prefix (blobs t) (blobs (insert_blob digest n relative now t))"
    and "artifacts_ok (insert_blob digest n relative now t)"
    and "digest \<in> bl_sha256 ` set (blobs (insert_blob digest n relative now t))"
  using assms by (auto simp: insert_blob_def artifacts_ok_def sql_exists_iff)

lemma record_artifact_Inr:
  assumes "record_artifact i name media digest relative n now t = Inr t'" and ok: "artifacts_ok t"
  shows "artifacts_ok t' \<and> prefix (artifacts t) (artifacts t') \<and> prefix (blobs t) (blobs t')
    \<and> (\<exists>a \<in> set (artifacts t'). ar_execution_id a = i \<and> ar_name a = name \<and> ar_sha256 a = digest
         \<and> ar_media_type a = media)"
proof -
  define t1 where "t1 = insert_blob digest n relative now t"
  note b = insert_blob_ok [OF ok, of digest n relative now, folded t1_def]
  show ?thesis
  proof (cases "find (\<lambda>a. ar_execution_id a = i \<and> ar_name a = name) (artifacts t1)")
    case None
    with assms(1) have "t' = t1\<lparr>artifacts := artifacts t1 @ [\<lparr>ar_execution_id = i, ar_name = name,
        ar_sha256 = digest, ar_media_type = media, ar_created_at = now\<rparr>]\<rparr>"
      by (simp add: record_artifact_def t1_def [symmetric] Let_def)
    with None b show ?thesis by (auto simp: artifacts_ok_def find_None_iff)
  next
    case (Some existing)
    with assms(1) have "t' = t1" "ar_sha256 existing = digest" "ar_media_type existing = media"
      by (auto simp: record_artifact_def t1_def [symmetric] Let_def split: if_splits)
    with find_SomeD [OF Some] b show ?thesis by auto
  qed
qed

lemma find_artifact_key:
  assumes "artifacts_ok t" and "a \<in> set (artifacts t)"
  shows "find (\<lambda>b. ar_execution_id b = ar_execution_id a \<and> ar_name b = ar_name a) (artifacts t) = Some a"
  using sql_lookup_in_set [of "\<lambda>a. (ar_execution_id a, ar_name a)" "artifacts t" a] assms
  by (simp add: artifacts_ok_def sql_lookup_def)

lemma record_artifact_conflict:
  assumes "artifacts_ok t" and "a \<in> set (artifacts t)"
    and "ar_sha256 a \<noteq> digest \<or> ar_media_type a \<noteq> media"
  shows "\<exists>e. record_artifact (ar_execution_id a) (ar_name a) media digest relative n now t = Inl e"
  using find_artifact_key [OF assms(1,2)] assms(3) insert_blob_ok(1) [OF assms(1)]
  by (simp add: record_artifact_def Let_def)

lemma list_artifacts_mem:
  assumes "artifacts_ok t" and "execution_exists i d" and a: "a \<in> set (artifacts t)" "ar_execution_id a = i"
  shows "\<exists>listed f. list_artifacts coll i d t = Inr listed \<and> find (\<lambda>f. af_name f = ar_name a) listed = Some f
    \<and> af_execution_id f = i \<and> af_sha256 f = ar_sha256 a \<and> af_media_type f = ar_media_type a"
proof -
  define joined where "joined = sort_key (\<lambda>row. ar_created_at (fst row)) (sort_key (\<lambda>row. coll (ar_name (fst row)))
     (filter (\<lambda>(a, b). bl_sha256 b = ar_sha256 a \<and> ar_execution_id a = i) (List.product (artifacts t) (blobs t))))"
  have l: "list_artifacts coll i d t = Inr (map decode_artifact joined)"
    using assms(2) by (simp add: list_artifacts_def joined_def)
  have mem: "(x, b) \<in> set joined \<longleftrightarrow> x \<in> set (artifacts t) \<and> b \<in> set (blobs t) \<and> bl_sha256 b = ar_sha256 x
      \<and> ar_execution_id x = i" for x b
    by (auto simp: joined_def)
  have "ar_sha256 a \<in> bl_sha256 ` set (blobs t)" using assms(1) a(1) by (auto simp: artifacts_ok_def)
  then obtain b where "b \<in> set (blobs t)" "bl_sha256 b = ar_sha256 a" by auto
  with a have "(a, b) \<in> set joined" by (simp add: mem)
  then have "find (\<lambda>f. af_name f = ar_name a) (map decode_artifact joined) \<noteq> None"
    unfolding find_None_iff by (auto simp: decode_artifact_def intro!: bexI [of _ "(a, b)"])
  then obtain f where f: "find (\<lambda>f. af_name f = ar_name a) (map decode_artifact joined) = Some f" by blast
  from find_SomeD [OF f] obtain x y where x: "(x, y) \<in> set joined" "f = decode_artifact (x, y)" "af_name f = ar_name a"
    by auto
  with mem [of x y] have "x \<in> set (artifacts t)" "ar_execution_id x = i" "ar_name x = ar_name a"
    by (simp_all add: decode_artifact_def)
  with find_artifact_key [OF assms(1), of x] find_artifact_key [OF assms(1) a(1)] a(2) have "x = a" by simp
  with l f x a(2) show ?thesis by (simp add: decode_artifact_def)
qed

text \<open>The file written beside the blob's place keeps its name.\<close>

lemma create_new_named:
  "create_new p s = (Inr n, s') \<Longrightarrow> fs_lstat s' p = Some (RegularFile n)"
  by (auto simp: create_new_def Let_def split: if_splits)

lemma mkdirs_other: "p \<notin> set ps \<Longrightarrow> fs_lstat (snd (mkdirs ps s)) p = fs_lstat s p"
  by (induction ps arbitrary: s) (auto split: option.split fs_node.split)

lemma create_dir_all_other: "length q < length p \<Longrightarrow> fs_lstat (snd (create_dir_all q s)) p = fs_lstat s p"
  unfolding create_dir_all_def by (rule mkdirs_other) auto

lemma reject_quiet:
  assumes "\<And>n s. io_others env n s = s"
  shows "snd (reject_symlink_directory env k p s) = s"
proof -
  have "snd (reject_symlinks env k ps s) = s" for ps
    by (induction ps arbitrary: k)
      (simp_all add: io_bind_def io_call_def symlink_metadata_def io_return_def io_throw_def assms
        split: prod.split sum.split option.split)
  then show ?thesis unfolding reject_symlink_directory_def .
qed

lemma install_leaves_pending:
  assumes "io_friendly env" and "install_blob env parent p bytes s = (Inr (), s')"
    and quiet: "\<And>n s. io_others env n s = s"
  shows "\<exists>n. fs_lstat s' (pending_path env parent) = Some (RegularFile n)"
proof -
  from assms(2) obtain n s1 u s2 where s1: "create_new (pending_path env parent) s = (Inr n, s1)"
    and s2: "write_all n bytes s1 = (Inr u, s2)"
    and rest: "publish_blob env (pending_path env parent) n p bytes s2 = (Inr (), s')"
    unfolding install_blob_def io_bind_Inr io_call_Inr quiet by blast
  have "fs_lstat s2 (pending_path env parent) = Some (RegularFile n)"
    using create_new_named [OF s1] s2 by (auto simp: write_all_def)
  moreover have "fs_extends s2 s'" by (rule io_keepsD [OF keeps_publish [OF assms(1)] _ rest]) simp
  ultimately show ?thesis by (auto simp: fs_extends_def)
qed

lemma pending_file_stays:
  assumes quiet: "\<And>n s. io_others env n s = s" and p: "path_parent p = Some parent"
    and "fs_lstat s p = None" and "persist_blob env p bytes s = (Inr (), s')"
  shows "\<exists>n. fs_lstat s' (pending_path env parent) = Some (RegularFile n)"
proof -
  have friendly: "io_friendly env" by (simp add: io_friendly_def quiet)
  have len: "length parent < length p" using p by (auto simp: path_parent_def split: if_splits)
  from assms(4) p obtain s1 u s2 where s1: "create_dir_all parent s = (Inr (), s1)"
    and s2: "reject_symlink_directory env 2 parent s1 = (Inr u, s2)"
    and rest: "(if fs_lstat s2 p \<noteq> None then verify_blob env 6 p bytes else install_blob env parent p bytes) s2 = (Inr (), s')"
    by (auto simp: persist_blob_def io_bind_Inr io_call_Inr quiet)
  have "s2 = s1" using reject_quiet [OF quiet, of 2 parent s1] s2 by simp
  moreover have "fs_lstat s1 p = None" using create_dir_all_other [OF len, of s] s1 assms(3) by simp
  ultimately have "install_blob env parent p bytes s1 = (Inr (), s')" using rest by simp
  then show ?thesis by (rule install_leaves_pending [OF friendly _ quiet])
qed

section \<open>Storing\<close>

lemma store_artifact_Inr:
  assumes "store_artifact coll env root now i name media bytes d t later s = (Inr a, t', s')"
  obtains t1 s1 where "validate_name name = Inr ()" "execution_exists i d"
    "persist_blob env (root @ [''artifacts'', take 2 (sha256_hex bytes), sha256_hex bytes]) bytes s = (Inr (), s')"
    "record_artifact i name media (sha256_hex bytes)
       (''artifacts/'' @ take 2 (sha256_hex bytes) @ ''/'' @ sha256_hex bytes) (length bytes) now t = Inr t1"
    "t' = later t1"
    "and_then (list_artifacts coll i d t') (\<lambda>listed. ok_or (find (\<lambda>a. af_name a = name) listed) (NotFound name)) = Inr a"
  using assms
  by (auto simp: store_artifact_def Let_def split: sum.splits if_splits prod.splits)

text \<open>Other clients add rows and change none.\<close>

definition rows_kept :: "(artifact_tables \<Rightarrow> artifact_tables) \<Rightarrow> bool" where
  "rows_kept later \<longleftrightarrow> (\<forall>t. artifacts_ok t \<longrightarrow> artifacts_ok (later t)
     \<and> prefix (artifacts t) (artifacts (later t)) \<and> prefix (blobs t) (blobs (later t)))"

definition blob_path :: "path \<Rightarrow> bytes \<Rightarrow> path" where
  "blob_path root bytes = root @ [''artifacts'', take 2 (sha256_hex bytes), sha256_hex bytes]"

lemma store_artifact_sound:
  assumes "io_friendly env" and "artifacts_ok t" and "rows_kept later"
    and "store_artifact coll env root now i name media bytes d t later s = (Inr a, t', s')"
  shows "fs_extends s s' \<and> blob_at s' (blob_path root bytes) bytes
    \<and> artifacts_ok t' \<and> prefix (artifacts t) (artifacts t')
    \<and> af_execution_id a = i \<and> af_name a = name \<and> af_sha256 a = sha256_hex bytes \<and> af_media_type a = media"
proof -
  from assms(4) obtain t1 s1 where n: "execution_exists i d"
    and p: "persist_blob env (blob_path root bytes) bytes s = (Inr (), s')"
    and r: "record_artifact i name media (sha256_hex bytes)
       (''artifacts/'' @ take 2 (sha256_hex bytes) @ ''/'' @ sha256_hex bytes) (length bytes) now t = Inr t1"
    and t': "t' = later t1"
    and l: "and_then (list_artifacts coll i d t') (\<lambda>listed. ok_or (find (\<lambda>a. af_name a = name) listed) (NotFound name)) = Inr a"
    unfolding blob_path_def by (rule store_artifact_Inr)
  note r1 = record_artifact_Inr [OF r assms(2)]
  then obtain x where x: "x \<in> set (artifacts t1)" "ar_execution_id x = i" "ar_name x = name"
    "ar_sha256 x = sha256_hex bytes" "ar_media_type x = media" by blast
  have k: "artifacts_ok t'" "prefix (artifacts t1) (artifacts t')"
    using assms(3) r1 by (simp_all add: rows_kept_def t')
  then have "x \<in> set (artifacts t')" using x(1) set_mono_prefix by blast
  from list_artifacts_mem [OF k(1) n this x(2), of coll] l x
  have "af_execution_id a = i \<and> af_name a = name \<and> af_sha256 a = sha256_hex bytes \<and> af_media_type a = media"
    by (auto simp: ok_or_def dest: find_SomeD)
  moreover have "fs_extends s s'" by (rule io_keepsD [OF persist_blob_keeps [OF assms(1)] _ p]) simp
  ultimately show ?thesis
    using persist_blob_sound [OF assms(1) p] k r1 prefix_order.trans by blast
qed

lemma store_artifact_conflict:
  assumes "artifacts_ok t" and "x \<in> set (artifacts t)" "ar_execution_id x = i" "ar_name x = name"
    and "ar_sha256 x \<noteq> sha256_hex bytes \<or> ar_media_type x \<noteq> media"
    and "store_artifact coll env root now i name media bytes d t later s = (r, t', s')"
  shows "(\<exists>e. r = Inl e) \<and> t' = t"
proof -
  have "\<exists>e. record_artifact i name media (sha256_hex bytes) rel n now t = Inl e" for rel n
    using record_artifact_conflict [OF assms(1,2,5)] assms(3,4) by blast
  then show ?thesis
    using assms(6)
    by (auto simp: store_artifact_def Let_def split: sum.splits if_splits prod.splits) (metis Inl_Inr_False)+
qed

section \<open>Properties\<close>

text \<open>C25. A stored artifact is durable and immutable, whatever other processes add meanwhile: when
  storing succeeds, a regular file with as many bytes and the same digest is at the path of its
  digest, no file that was there before has changed, and the artifact returned names that digest;
  storing other content or another media type under a name that is taken is refused and leaves
  the rows as they were.\<close>

theorem artifacts_are_immutable:
  assumes "io_friendly env" and "artifacts_ok t" and "rows_kept later"
    and "store_artifact coll env root now i name media bytes d t later s = (r, t', s')"
  shows "(case r of
      Inr a \<Rightarrow> fs_extends s s' \<and> blob_at s' (blob_path root bytes) bytes
        \<and> artifacts_ok t' \<and> prefix (artifacts t) (artifacts t')
        \<and> af_execution_id a = i \<and> af_name a = name \<and> af_sha256 a = sha256_hex bytes \<and> af_media_type a = media
    | Inl _ \<Rightarrow> True)
    \<and> ((\<exists>x \<in> set (artifacts t). ar_execution_id x = i \<and> ar_name x = name
          \<and> (ar_sha256 x \<noteq> sha256_hex bytes \<or> ar_media_type x \<noteq> media))
        \<longrightarrow> (\<exists>e. r = Inl e) \<and> t' = t)"
proof -
  have "case r of
      Inr a \<Rightarrow> fs_extends s s' \<and> blob_at s' (blob_path root bytes) bytes
        \<and> artifacts_ok t' \<and> prefix (artifacts t) (artifacts t')
        \<and> af_execution_id a = i \<and> af_name a = name \<and> af_sha256 a = sha256_hex bytes \<and> af_media_type a = media
    | Inl _ \<Rightarrow> True"
    using store_artifact_sound [OF assms(1-3)] assms(4) by (cases r) auto
  moreover have "(\<exists>x \<in> set (artifacts t). ar_execution_id x = i \<and> ar_name x = name
          \<and> (ar_sha256 x \<noteq> sha256_hex bytes \<or> ar_media_type x \<noteq> media))
        \<longrightarrow> (\<exists>e. r = Inl e) \<and> t' = t"
    using store_artifact_conflict [OF assms(2) _ _ _ _ assms(4)] by blast
  ultimately show ?thesis by blast
qed

text \<open>C37. The file a blob is first written to is never removed: after storing a blob that was not
  there, its \<open>.pending\<close> name is still in the directory.\<close>

theorem pending_names_accumulate:
  assumes "\<And>n s. io_others env n s = s" and "fs_lstat s (blob_path root bytes) = None"
    and "persist_blob env (blob_path root bytes) bytes s = (Inr (), s')"
  shows "\<exists>n. fs_lstat s' (pending_path env (root @ [''artifacts'', take 2 (sha256_hex bytes)])) = Some (RegularFile n)"
  by (rule pending_file_stays [OF assms(1) _ assms(2,3)]) (simp add: path_parent_def blob_path_def butlast_append)

section \<open>A blob on an empty disk\<close>

definition empty_disk :: fs where
  "empty_disk = \<lparr>fs_lstat = [[] \<mapsto> Directory], fs_data = (\<lambda>_. []), fs_readonly = (\<lambda>_. False), fs_next = 0\<rparr>"

definition quiet_io :: io_env where
  "quiet_io = \<lparr>io_fail = (\<lambda>_. None), io_others = (\<lambda>_ s. s), io_uuid = ''u''\<rparr>"

lemma quiet_io_sel [simp]:
  "io_fail quiet_io n = None" "io_others quiet_io n s = s" "io_uuid quiet_io = ''u''"
  by (simp_all add: quiet_io_def)

lemma quiet_io_friendly: "io_friendly quiet_io"
  by (simp add: io_friendly_def)

lemma demo_persist: "\<exists>s'. persist_blob quiet_io (blob_path [] bytes) bytes empty_disk = (Inr (), s')"
proof -
  have "sha256_hex bytes \<noteq> ''.pending-u''" using sha256_hex_form [of bytes] by auto
  then show ?thesis
    by (simp add: persist_blob_def blob_path_def path_parent_def io_bind_def io_call_def
        create_dir_all_def empty_disk_def fs_stat_def numeral_eq_Suc Let_def reject_symlink_directory_def
        List.map_filter_simps symlink_metadata_def io_return_def install_blob_def pending_path_def create_new_def
        write_all_def publish_blob_def set_readonly_def hard_link_def verify_blob_def open_read_def
        is_regular_def read_to_end_def inode_of_def)
qed

definition demo_tables :: artifact_tables where
  "demo_tables = \<lparr>blobs = [], artifacts = []\<rparr>"

definition demo_executions :: "db \<Rightarrow> db" where
  "demo_executions d = d\<lparr>executions := [row_of_execution (new_execution ''e1'' demo_manifest 1)]\<rparr>"

lemma demo_exists: "execution_exists ''e1'' (demo_executions d)"
  by (simp add: execution_exists_def demo_executions_def sql_exists_def new_execution_def)

lemma demo_store:
  "\<exists>a t' s'. store_artifact id quiet_io [] 1 ''e1'' ''report.md'' ''text/markdown'' [65] (demo_executions empty_db)
       demo_tables id empty_disk = (Inr a, t', s')"
proof -
  obtain s' where "persist_blob quiet_io [''artifacts'', take 2 (sha256_hex [65]), sha256_hex [65]] [65] empty_disk = (Inr (), s')"
    using demo_persist [of "[65]"] by (auto simp: blob_path_def)
  moreover have "trim ''text/markdown'' = ''text/markdown''" by (rule trim_printable) (simp_all add: byte_def)
  ultimately show ?thesis
    by (simp add: store_artifact_def validate_name_def byte_def demo_exists record_artifact_def insert_blob_def
        demo_tables_def sql_exists_def list_artifacts_def decode_artifact_def ok_or_def Let_def)
qed

theorem artifacts_are_immutable_witness:
  "\<exists>a t' s'. store_artifact id quiet_io [] 1 ''e1'' ''report.md'' ''text/markdown'' [65] (demo_executions empty_db)
       demo_tables id empty_disk = (Inr a, t', s')
     \<and> blob_at s' (blob_path [] [65]) [65] \<and> af_sha256 a = sha256_hex [65]"
proof -
  obtain a t' s' where st: "store_artifact id quiet_io [] 1 ''e1'' ''report.md'' ''text/markdown'' [65]
      (demo_executions empty_db) demo_tables id empty_disk = (Inr a, t', s')"
    using demo_store by blast
  have "artifacts_ok demo_tables" "rows_kept id" by (simp_all add: artifacts_ok_def demo_tables_def rows_kept_def)
  from artifacts_are_immutable [OF quiet_io_friendly this st] st show ?thesis by auto
qed

theorem pending_names_accumulate_witness:
  "\<exists>s' n. persist_blob quiet_io (blob_path [] [65]) [65] empty_disk = (Inr (), s')
     \<and> fs_lstat s' (pending_path quiet_io [''artifacts'', take 2 (sha256_hex [65])]) = Some (RegularFile n)"
proof -
  obtain s' where s': "persist_blob quiet_io (blob_path [] [65]) [65] empty_disk = (Inr (), s')"
    using demo_persist by blast
  have "fs_lstat empty_disk (blob_path [] [65]) = None" by (simp add: empty_disk_def blob_path_def)
  from pending_names_accumulate [OF quiet_io_sel(2) this s'] s' show ?thesis by auto
qed

end
