(* ===== verification/Health_Monitor.thy ===== *)
theory Health_Monitor
  imports Lifecycle
begin

text \<open>
  The watchdog of a running execution: \<open>HealthMonitor\<close> (\<open>orchestrator-worker/src/health.rs\<close>) and
  the throttle of its samples (\<open>run.rs\<close>). Monotonic instants and durations are nanoseconds since
  an arbitrary origin; \<open>duration_since\<close> saturates at zero, which is subtraction of natural
  numbers.
\<close>

section \<open>Measurements\<close>

text \<open>
  A double precision number: a finite one is its signed mantissa times a power of two.
\<close>

datatype f64 = Finite int int | PosInfinity | NegInfinity | NotANumber

definition f64_greater :: "f64 \<Rightarrow> int \<Rightarrow> bool" where
  "f64_greater x n = (case x of
     Finite mantissa e \<Rightarrow>
       if 0 \<le> e then n < mantissa * 2 ^ nat e else n * 2 ^ nat (- e) < mantissa
   | PosInfinity \<Rightarrow> True | NegInfinity \<Rightarrow> False | NotANumber \<Rightarrow> False)"

type_synonym instant = nat
type_synonym duration = nat

definition from_secs :: "nat \<Rightarrow> duration" where
  "from_secs n = n * 10 ^ 9"

definition as_secs :: "duration \<Rightarrow> u64" where
  "as_secs t = of_nat (t div 10 ^ 9)"

record resource_sample =
  sm_cpu_percent :: f64
  sm_io_bytes :: "u64 option"
  sm_rss_bytes :: "u64 option"
  sm_disk_bytes :: "u64 option"
  sm_current_command :: "string option"

datatype health_assessment =
    AssessedHealthy
  | AssessedQuiet u64
  | InactiveWarning u64
  | AssessedFailed failure_class

section \<open>The monitor\<close>

record health_monitor =
  hm_started_at :: instant
  hm_last_event_at :: instant
  hm_last_progress_at :: instant
  hm_last_io_bytes :: "u64 option"
  hm_saturated_since :: "instant option"
  hm_paused_at :: "instant option"
  hm_warned :: bool
  hm_inactivity :: duration
  hm_wall_clock :: duration
  hm_cpu_saturation :: duration

definition CPU_SATURATION_PERCENT :: int where
  "CPU_SATURATION_PERCENT = 95"

definition new_at :: "instant \<Rightarrow> duration \<Rightarrow> duration \<Rightarrow> duration \<Rightarrow> health_monitor" where
  "new_at started_at inactivity wall_clock cpu_saturation =
     \<lparr>hm_started_at = started_at, hm_last_event_at = started_at, hm_last_progress_at = started_at,
      hm_last_io_bytes = None, hm_saturated_since = None, hm_paused_at = None, hm_warned = False,
      hm_inactivity = inactivity, hm_wall_clock = wall_clock, hm_cpu_saturation = cpu_saturation\<rparr>"

definition default_at :: "instant \<Rightarrow> health_monitor" where
  "default_at started_at = new_at started_at (from_secs 900) (from_secs 14400) (from_secs 3600)"

definition record_event :: "instant \<Rightarrow> health_monitor \<Rightarrow> health_monitor" where
  "record_event t m = m\<lparr>hm_last_event_at := t, hm_warned := False\<rparr>"

definition monitor_pause :: "instant \<Rightarrow> health_monitor \<Rightarrow> health_monitor" where
  "monitor_pause t m = (if hm_paused_at m = None then m\<lparr>hm_paused_at := Some t\<rparr> else m)"

definition monitor_resume :: "instant \<Rightarrow> health_monitor \<Rightarrow> health_monitor" where
  "monitor_resume t m = (case hm_paused_at m of
     None \<Rightarrow> m
   | Some paused_at \<Rightarrow>
       let suspended = t - paused_at in
       m\<lparr>hm_paused_at := None,
         hm_started_at := hm_started_at m + suspended,
         hm_last_event_at := hm_last_event_at m + suspended,
         hm_last_progress_at := hm_last_progress_at m + suspended,
         hm_saturated_since := map_option (\<lambda>since. since + suspended) (hm_saturated_since m)\<rparr>)"

text \<open>The bookkeeping of the I/O counter at the head of \<open>assess\<close>.\<close>

definition observe_io :: "instant \<Rightarrow> u64 option \<Rightarrow> health_monitor \<Rightarrow> health_monitor" where
  "observe_io now io m = (case io of
     None \<Rightarrow> m
   | Some io_bytes \<Rightarrow>
       let risen = (case hm_last_io_bytes m of Some previous \<Rightarrow> previous < io_bytes | None \<Rightarrow> False);
           m = (if risen then m\<lparr>hm_last_progress_at := now, hm_warned := False\<rparr> else m) in
       m\<lparr>hm_last_io_bytes := Some io_bytes\<rparr>)"

text \<open>The rest of \<open>assess\<close>, once the wall clock is checked and the counter observed.\<close>

definition assess_activity :: "instant \<Rightarrow> f64 \<Rightarrow> health_monitor \<Rightarrow> health_assessment \<times> health_monitor" where
  "assess_activity now cpu_percent m =
     (let silent_for = now - hm_last_event_at m;
          inactive_for = now - max (hm_last_event_at m) (hm_last_progress_at m);
          saturated = f64_greater cpu_percent CPU_SATURATION_PERCENT;
          since = (case hm_saturated_since m of Some since \<Rightarrow> since | None \<Rightarrow> now);
          m' = m\<lparr>hm_saturated_since := (if saturated then Some since else None)\<rparr> in
      if inactive_for > hm_inactivity m then (AssessedFailed Inactivity, m)
      else if saturated \<and> now - since \<ge> hm_cpu_saturation m then (AssessedFailed ResourceViolation, m')
      else if \<not> hm_warned m \<and> inactive_for \<ge> hm_inactivity m div 2
      then (InactiveWarning (as_secs inactive_for), m'\<lparr>hm_warned := True\<rparr>)
      else if silent_for > hm_inactivity m then (AssessedQuiet (as_secs silent_for), m')
      else (AssessedHealthy, m'))"

definition assess :: "instant \<Rightarrow> resource_sample \<Rightarrow> health_monitor \<Rightarrow> health_assessment \<times> health_monitor" where
  "assess now sample m =
     (if hm_paused_at m \<noteq> None then (AssessedHealthy, m)
      else if now - hm_started_at m > hm_wall_clock m then (AssessedFailed Timeout, m)
      else assess_activity now (sm_cpu_percent sample) (observe_io now (sm_io_bytes sample) m))"

section \<open>Emission of samples\<close>

definition verdict_of :: "health_assessment \<Rightarrow> watchdog_verdict" where
  "verdict_of assessment = (case assessment of
     AssessedHealthy \<Rightarrow> Healthy | AssessedQuiet _ \<Rightarrow> QuietHealthy
   | InactiveWarning _ \<Rightarrow> Healthy | AssessedFailed _ \<Rightarrow> Stalled)"

record sample_throttle =
  th_last_emitted_at :: "instant option"
  th_last_verdict :: "watchdog_verdict option"

definition empty_throttle :: sample_throttle where
  "empty_throttle = \<lparr>th_last_emitted_at = None, th_last_verdict = None\<rparr>"

definition is_due :: "instant \<Rightarrow> watchdog_verdict \<Rightarrow> sample_throttle \<Rightarrow> bool" where
  "is_due now verdict th \<longleftrightarrow>
     th_last_emitted_at th = None \<or> th_last_verdict th \<noteq> Some verdict
     \<or> (case th_last_emitted_at th of Some emitted \<Rightarrow> emitted + from_secs 60 \<le> now | None \<Rightarrow> False)"

definition mark_emitted :: "instant \<Rightarrow> watchdog_verdict \<Rightarrow> sample_throttle \<Rightarrow> sample_throttle" where
  "mark_emitted now verdict th = \<lparr>th_last_emitted_at = Some now, th_last_verdict = Some verdict\<rparr>"

section \<open>Histories of a monitor\<close>

text \<open>What the drive loop does to its monitor, with the instant of each call.\<close>

datatype monitor_call =
    CallEvent instant
  | CallPause instant
  | CallResume instant
  | CallAssess instant resource_sample

fun call_at :: "monitor_call \<Rightarrow> instant" where
  "call_at (CallEvent t) = t"
| "call_at (CallPause t) = t"
| "call_at (CallResume t) = t"
| "call_at (CallAssess t _) = t"

text \<open>
  The assessments made, each with the instant it was made at; \<open>None\<close> stands for an assessment
  of a paused execution.
\<close>

fun monitor_run :: "monitor_call list \<Rightarrow> health_monitor \<Rightarrow> (health_assessment option) list \<times> health_monitor" where
  "monitor_run [] m = ([], m)"
| "monitor_run (CallEvent t # cs) m = monitor_run cs (record_event t m)"
| "monitor_run (CallPause t # cs) m = monitor_run cs (monitor_pause t m)"
| "monitor_run (CallResume t # cs) m = monitor_run cs (monitor_resume t m)"
| "monitor_run (CallAssess t sample # cs) m =
     (let (assessment, m') = assess t sample m; (rest, m'') = monitor_run cs m' in
      ((if hm_paused_at m = None then Some assessment else None) # rest, m''))"

text \<open>
  The same history on a clock that stands still while the execution is paused: pauses and what
  happens in them are cut out, and every other instant moves back by the time suspended before it.
\<close>

fun cut_pauses :: "monitor_call list \<Rightarrow> instant option \<Rightarrow> duration \<Rightarrow> monitor_call list" where
  "cut_pauses [] paused_at suspended = []"
| "cut_pauses (CallEvent t # cs) paused_at suspended =
     CallEvent (t - suspended) # cut_pauses cs paused_at suspended"
| "cut_pauses (CallPause t # cs) paused_at suspended =
     cut_pauses cs (case paused_at of None \<Rightarrow> Some t | Some p \<Rightarrow> Some p) suspended"
| "cut_pauses (CallResume t # cs) paused_at suspended =
     (case paused_at of None \<Rightarrow> cut_pauses cs None suspended
      | Some p \<Rightarrow> cut_pauses cs None (suspended + (t - p)))"
| "cut_pauses (CallAssess t sample # cs) paused_at suspended =
     (case paused_at of None \<Rightarrow> CallAssess (t - suspended) sample # cut_pauses cs None suspended
      | Some p \<Rightarrow> cut_pauses cs (Some p) suspended)"

text \<open>The calls come in order, and no event is recorded while the execution is paused.\<close>

fun calls_ok :: "monitor_call list \<Rightarrow> instant \<Rightarrow> bool \<Rightarrow> bool" where
  "calls_ok [] now paused = True"
| "calls_ok (c # cs) now paused = (now \<le> call_at c
     \<and> (case c of CallEvent _ \<Rightarrow> \<not> paused | _ \<Rightarrow> True)
     \<and> calls_ok cs (call_at c)
         (case c of CallPause _ \<Rightarrow> True | CallResume _ \<Rightarrow> False | _ \<Rightarrow> paused))"

text \<open>A monitor seen on the clock that is \<open>suspended\<close> behind.\<close>

definition behind :: "duration \<Rightarrow> health_monitor \<Rightarrow> health_monitor" where
  "behind suspended m = m\<lparr>hm_started_at := hm_started_at m - suspended,
     hm_last_event_at := hm_last_event_at m - suspended,
     hm_last_progress_at := hm_last_progress_at m - suspended,
     hm_saturated_since := map_option (\<lambda>since. since - suspended) (hm_saturated_since m),
     hm_paused_at := None\<rparr>"

definition not_before :: "duration \<Rightarrow> health_monitor \<Rightarrow> bool" where
  "not_before suspended m \<longleftrightarrow> suspended \<le> hm_started_at m \<and> suspended \<le> hm_last_event_at m
     \<and> suspended \<le> hm_last_progress_at m
     \<and> (case hm_saturated_since m of Some since \<Rightarrow> suspended \<le> since | None \<Rightarrow> True)"

lemma behind_sel [simp]:
  "hm_started_at (behind s m) = hm_started_at m - s" "hm_last_event_at (behind s m) = hm_last_event_at m - s"
  "hm_last_progress_at (behind s m) = hm_last_progress_at m - s"
  "hm_saturated_since (behind s m) = map_option (\<lambda>since. since - s) (hm_saturated_since m)"
  "hm_paused_at (behind s m) = None" "hm_last_io_bytes (behind s m) = hm_last_io_bytes m"
  "hm_warned (behind s m) = hm_warned m" "hm_inactivity (behind s m) = hm_inactivity m"
  "hm_wall_clock (behind s m) = hm_wall_clock m" "hm_cpu_saturation (behind s m) = hm_cpu_saturation m"
  by (simp_all add: behind_def)

lemma observe_io_behind:
  "observe_io (t - s) io (behind s m) = behind s (observe_io t io m)"
  by (cases m) (auto simp: observe_io_def behind_def Let_def split: option.splits)

lemma observe_io_sel [simp]:
  "hm_paused_at (observe_io t io m) = hm_paused_at m" "hm_wall_clock (observe_io t io m) = hm_wall_clock m"
  "hm_started_at (observe_io t io m) = hm_started_at m"
  by (auto simp: observe_io_def Let_def split: option.splits)

lemma observe_io_not_before: "not_before s m \<Longrightarrow> s \<le> t \<Longrightarrow> not_before s (observe_io t io m)"
  by (auto simp: observe_io_def not_before_def Let_def split: option.splits)

lemma behind_update:
  "behind s (m\<lparr>hm_saturated_since := x\<rparr>) = (behind s m)\<lparr>hm_saturated_since := map_option (\<lambda>since. since - s) x\<rparr>"
  "behind s (m\<lparr>hm_warned := b\<rparr>) = (behind s m)\<lparr>hm_warned := b\<rparr>"
  by (simp_all add: behind_def)

lemma assess_activity_behind:
  assumes n: "not_before s m" and t: "s \<le> t"
  shows "assess_activity (t - s) cpu (behind s m) = apsnd (behind s) (assess_activity t cpu m)"
    and "not_before s (snd (assess_activity t cpu m))"
    and "hm_paused_at (snd (assess_activity t cpu m)) = hm_paused_at m"
proof -
  define x where "x = max (hm_last_event_at m) (hm_last_progress_at m)"
  have max: "max (hm_last_event_at m - s) (hm_last_progress_at m - s) = x - s"
    by (simp add: x_def max_def)
  have e: "s + (hm_last_event_at m - s) = hm_last_event_at m"
    and i: "s + (x - s) = x"
    using n t by (auto simp: not_before_def max_def x_def)
  show "assess_activity (t - s) cpu (behind s m) = apsnd (behind s) (assess_activity t cpu m)"
  proof (cases "hm_saturated_since m")
    case None
    then show ?thesis unfolding assess_activity_def
      by (simp add: max e i Let_def behind_update flip: x_def)
  next
    case (Some since)
    then have "s + (since - s) = since" using n t by (auto simp: not_before_def)
    with Some show ?thesis unfolding assess_activity_def
      by (simp add: max e i Let_def behind_update flip: x_def)
  qed
  show "not_before s (snd (assess_activity t cpu m))"
    using n t by (auto simp: assess_activity_def Let_def not_before_def split: option.splits)
  show "hm_paused_at (snd (assess_activity t cpu m)) = hm_paused_at m"
    by (simp add: assess_activity_def Let_def)
qed

lemma assess_behind:
  assumes "not_before s m" and "s \<le> t" and "hm_paused_at m = None"
  shows "assess (t - s) sample (behind s m) = apsnd (behind s) (assess t sample m)"
    and "not_before s (snd (assess t sample m))" and "hm_paused_at (snd (assess t sample m)) = None"
proof -
  have w: "s + (hm_started_at m - s) = hm_started_at m"
    using assms(1,2) by (auto simp: not_before_def)
  note r = assess_activity_behind [OF observe_io_not_before [OF assms(1,2)] assms(2)]
  show "assess (t - s) sample (behind s m) = apsnd (behind s) (assess t sample m)"
    using assms(3) by (simp add: assess_def w observe_io_behind r(1))
  show "not_before s (snd (assess t sample m))" "hm_paused_at (snd (assess t sample m)) = None"
    using assms(1,3) r(2,3) by (simp_all add: assess_def)
qed

lemma behind_calls:
  "behind s (record_event t m) = record_event (t - s) (behind s m)"
  "behind s (monitor_pause t m) = behind s m"
  "hm_paused_at m = Some p \<Longrightarrow> s \<le> p \<Longrightarrow> not_before s m
     \<Longrightarrow> behind (s + (t - p)) (monitor_resume t m) = behind s m \<and> not_before (s + (t - p)) (monitor_resume t m)"
  by (auto simp: behind_def record_event_def monitor_pause_def monitor_resume_def not_before_def Let_def
      option.map_comp comp_def split: option.splits)

lemma monitor_run_cut:
  assumes "calls_ok cs now (hm_paused_at m \<noteq> None)" and "not_before s m" and "s \<le> now"
    and "case hm_paused_at m of Some p \<Rightarrow> s \<le> p \<and> p \<le> now | None \<Rightarrow> True"
  shows "filter (\<lambda>a. a \<noteq> None) (fst (monitor_run cs m))
    = fst (monitor_run (cut_pauses cs (hm_paused_at m) s) (behind s m))"
  using assms
proof (induction cs arbitrary: m now s)
  case (Cons c cs)
  show ?case
  proof (cases c)
    case (CallEvent t)
    then have "not_before s (record_event t m)" "hm_paused_at m = None" "s \<le> t"
      using Cons.prems by (auto simp: not_before_def record_event_def)
    with Cons.IH [of t "record_event t m" s] Cons.prems CallEvent show ?thesis
      by (simp add: behind_calls) (simp add: record_event_def)
  next
    case (CallPause t)
    have "not_before s (monitor_pause t m)" "s \<le> t"
      using Cons.prems CallPause by (auto simp: not_before_def monitor_pause_def)
    with Cons.IH [of t "monitor_pause t m" s] Cons.prems CallPause show ?thesis
      by (auto simp: behind_calls) (auto simp: monitor_pause_def split: option.splits)
  next
    case (CallResume t)
    show ?thesis
    proof (cases "hm_paused_at m")
      case None
      with Cons.IH [of t m s] Cons.prems CallResume show ?thesis by (simp add: monitor_resume_def)
    next
      case (Some p)
      then have "hm_paused_at (monitor_resume t m) = None" by (simp add: monitor_resume_def Let_def)
      moreover have "s + (t - p) \<le> t" using Cons.prems CallResume Some by auto
      ultimately show ?thesis
        using Cons.IH [of t "monitor_resume t m" "s + (t - p)"] Cons.prems CallResume Some
          behind_calls(3) [OF Some, of s t] by simp
    qed
  next
    case (CallAssess t sample)
    show ?thesis
    proof (cases "hm_paused_at m")
      case None
      have t: "s \<le> t" using Cons.prems CallAssess by simp
      note a = assess_behind [OF Cons.prems(2) t None, of sample]
      obtain r m' where r: "assess t sample m = (r, m')" by (cases "assess t sample m")
      with Cons.IH [of t m' s] Cons.prems CallAssess None t a show ?thesis
        by (simp add: split_beta)
    next
      case (Some p)
      with Cons.IH [of t m s] Cons.prems CallAssess show ?thesis
        by (simp add: assess_def split_beta)
    qed
  qed
qed simp

text \<open>The instants of the assessments of a history.\<close>

fun assess_times :: "monitor_call list \<Rightarrow> instant list" where
  "assess_times [] = []"
| "assess_times (CallAssess t _ # cs) = t # assess_times cs"
| "assess_times (_ # cs) = assess_times cs"

fun never_paused :: "monitor_call list \<Rightarrow> bool" where
  "never_paused [] = True"
| "never_paused (CallPause _ # cs) = False"
| "never_paused (_ # cs) = never_paused cs"

lemma cut_never_paused: "never_paused (cut_pauses cs p s)"
  by (induction cs p s rule: cut_pauses.induct) (auto split: option.splits)

lemma assess_fixed:
  "hm_started_at (snd (assess t sample m)) = hm_started_at m"
  "hm_wall_clock (snd (assess t sample m)) = hm_wall_clock m"
  "hm_paused_at (snd (assess t sample m)) = hm_paused_at m"
  by (simp_all add: assess_def assess_activity_def Let_def)

lemma assess_timeout:
  "hm_paused_at m = None \<Longrightarrow>
   fst (assess t sample m) = AssessedFailed Timeout \<longleftrightarrow> hm_wall_clock m < t - hm_started_at m"
  by (simp add: assess_def assess_activity_def Let_def)

lemma monitor_run_timeout:
  assumes "never_paused cs" and "hm_paused_at m = None"
  shows "list_all2 (\<lambda>t r. r = Some (AssessedFailed Timeout) \<longleftrightarrow> hm_wall_clock m < t - hm_started_at m)
    (assess_times cs) (fst (monitor_run cs m))"
  using assms
proof (induction cs m rule: monitor_run.induct)
  case (5 t sample cs m)
  have "list_all2 (\<lambda>t r. r = Some (AssessedFailed Timeout) \<longleftrightarrow> hm_wall_clock m < t - hm_started_at m)
      (assess_times cs) (fst (monitor_run cs (snd (assess t sample m))))"
    using "5.IH" [OF refl prod.collapse] "5.prems" by (simp add: assess_fixed)
  with 5 assess_timeout [of m t sample] show ?case by (simp add: split_beta)
qed (auto simp: record_event_def monitor_resume_def)


definition idle_sample :: resource_sample where
  "idle_sample = \<lparr>sm_cpu_percent = Finite 1 0, sm_io_bytes = None, sm_rss_bytes = None,
     sm_disk_bytes = None, sm_current_command = None\<rparr>"


end
