(* ===== verification/Storage_Model.thy ===== *)
theory Storage_Model
  imports Execution
begin

text \<open>
  The records of the execution storage (\<open>execution-storage/src/model.rs\<close>): the directory layout of
  an execution, backend identities, allocation receipts and the phase journal, with their
  validation. A path is the list of its components, so equality of paths is the component-wise
  equality of \<open>PathBuf\<close>; the list of a relative path begins with the component \<open>.\<close>, which an
  absolute path never has.
\<close>

section \<open>Paths\<close>

type_synonym fspath = "string list"

definition path_text :: "fspath \<Rightarrow> string" where
  "path_text p = (if p = [] then ''/''
     else if hd p = ''.'' then tl (concat (map ((#) (CHR ''/'')) (tl p)))
     else concat (map ((#) (CHR ''/'')) p))"

text \<open>The path a text names: empty components and components \<open>.\<close> are dropped.\<close>

definition path_of_text :: "string \<Rightarrow> fspath" where
  "path_of_text s =
     (let cs = filter (\<lambda>c. c \<noteq> [] \<and> c \<noteq> ''.'') (split_on (CHR ''/'') s) in
      if starts_with ''/'' s then cs else ''.'' # cs)"

text \<open>\<open>Path::file_stem\<close> of the last component: what precedes its last dot, or all of it where the
  only dot leads.\<close>

definition file_stem :: "fspath \<Rightarrow> string option" where
  "file_stem p = (if p = [] \<or> last p = ''..'' then None
     else Some (case rsplit_once (CHR ''.'') (last p) of
       Some (before, _) \<Rightarrow> if before = [] then last p else before
     | None \<Rightarrow> last p))"

section \<open>Requests and layouts\<close>

datatype storage_error =
    InvalidRequest string
  | StorageUnavailable string
  | IdentityMismatch string
  | JournalError string
  | CommandError string
  | DockerCapabilityError string
  | StorageCleanup string

definition ALLOCATION_API_VERSION :: string where
  "ALLOCATION_API_VERSION = ''autospec.dev/execution-storage/v1alpha1''"

definition GIB :: u64 where
  "GIB = 1024 * 1024 * 1024"

definition checked_mul :: "u64 \<Rightarrow> u64 \<Rightarrow> u64 option" where
  "checked_mul a b = (if unat a * unat b < 2 ^ 64 then Some (a * b) else None)"

definition disk_gib_to_bytes :: "u64 \<Rightarrow> storage_error + u64" where
  "disk_gib_to_bytes disk_gib =
     (if disk_gib = 0 then Inl (InvalidRequest ''disk_gib must be greater than zero'')
      else ok_or (checked_mul disk_gib GIB) (InvalidRequest ''disk_gib overflows bytes''))"

record execution_layout =
  ly_state_root :: fspath
  ly_root :: fspath
  ly_repository :: fspath
  ly_session :: fspath
  ly_conversation :: fspath
  ly_credentials :: fspath
  ly_runtime :: fspath
  ly_journal :: fspath

definition lower_or_digit :: "char \<Rightarrow> bool" where
  "lower_or_digit c \<longleftrightarrow> 97 \<le> byte c \<and> byte c \<le> 122 \<or> 48 \<le> byte c \<and> byte c \<le> 57"

definition validate_execution_id :: "string \<Rightarrow> storage_error + unit" where
  "validate_execution_id i =
     (if 1 \<le> length i \<and> length i \<le> 63
         \<and> (case i of c # _ \<Rightarrow> lower_or_digit c | [] \<Rightarrow> False)
         \<and> list_all (\<lambda>c. lower_or_digit c \<or> c = CHR ''-'') i
      then Inr ()
      else Inl (InvalidRequest (''execution_id is not a safe path component: '' @ i)))"

definition new_layout :: "fspath \<Rightarrow> execution_id \<Rightarrow> storage_error + execution_layout" where
  "new_layout state_root i =
     and_then (validate_execution_id i) (\<lambda>_.
       let root = state_root @ [''executions'', i]; session = root @ [''session''] in
       Inr \<lparr>ly_state_root = state_root, ly_root = root, ly_repository = root @ [''repository''],
            ly_session = session, ly_conversation = session @ [''conversation''],
            ly_credentials = root @ [''credentials''], ly_runtime = root @ [''runtime''],
            ly_journal = state_root @ [''execution-storage'', i @ ''.json'']\<rparr>)"

section \<open>Backend identities\<close>

record apfs_identity =
  af_container :: string
  af_container_uuid :: string
  af_volume :: string
  af_volume_name :: string
  af_volume_uuid :: string
  af_ownership_token :: string

record lvm_identity =
  lv_volume_group :: string
  lv_volume_group_uuid :: string
  lv_logical_volume :: string
  lv_logical_volume_uuid :: string
  lv_filesystem_uuid :: string
  lv_ownership_token :: string

datatype backend_identity = Apfs apfs_identity | Lvm lvm_identity

definition filesystem_id :: "backend_identity \<Rightarrow> string" where
  "filesystem_id b = (case b of Apfs a \<Rightarrow> af_volume_uuid a | Lvm l \<Rightarrow> lv_filesystem_uuid l)"

definition identity_token :: "backend_identity \<Rightarrow> string" where
  "identity_token b = (case b of Apfs a \<Rightarrow> af_ownership_token a | Lvm l \<Rightarrow> lv_ownership_token l)"

definition identity_fields :: "backend_identity \<Rightarrow> (string \<times> string) list" where
  "identity_fields b = (case b of
     Apfs a \<Rightarrow> [(''APFS container'', af_container a), (''APFS container UUID'', af_container_uuid a),
       (''APFS volume'', af_volume a), (''APFS volume name'', af_volume_name a),
       (''APFS volume UUID'', af_volume_uuid a), (''ownership token'', af_ownership_token a)]
   | Lvm l \<Rightarrow> [(''LVM volume group'', lv_volume_group l), (''LVM volume group UUID'', lv_volume_group_uuid l),
       (''LVM logical volume'', lv_logical_volume l),
       (''LVM logical volume UUID'', lv_logical_volume_uuid l),
       (''filesystem UUID'', lv_filesystem_uuid l), (''ownership token'', lv_ownership_token l)])"

definition identity_validate :: "backend_identity \<Rightarrow> storage_error + unit" where
  "identity_validate b =
     (case find (\<lambda>(_, value). value = []) (identity_fields b) of
        Some (name, _) \<Rightarrow> Inl (IdentityMismatch (name @ '' is empty''))
      | None \<Rightarrow> Inr ())"

definition identity_validate_created :: "backend_identity \<Rightarrow> storage_error + unit" where
  "identity_validate_created b = (case b of
     Lvm l \<Rightarrow>
       if list_ex (\<lambda>value. value = []) [lv_volume_group l, lv_volume_group_uuid l, lv_logical_volume l,
            lv_logical_volume_uuid l, lv_ownership_token l]
       then Inl (IdentityMismatch ''created LVM identity is incomplete'')
       else Inr ()
   | Apfs _ \<Rightarrow> identity_validate b)"

section \<open>Receipts\<close>

record docker_bind_proof =
  db_daemon_id :: string
  db_verifier :: string
  db_method_version :: string
  db_source_path :: fspath
  db_filesystem_id :: string

record allocation_receipt =
  rc_api_version :: string
  rc_labels :: ownership_labels
  rc_reserved_bytes :: u64
  rc_mount_path :: fspath
  rc_backend_kind :: string
  rc_backend_key :: string
  rc_pool_identity :: string
  rc_backend :: backend_identity
  rc_docker_bind :: docker_bind_proof

definition receipt_validate ::
  "ownership_labels \<Rightarrow> execution_layout \<Rightarrow> allocation_receipt \<Rightarrow> storage_error + unit" where
  "receipt_validate expected_labels expected_layout r =
     (if rc_api_version r \<noteq> ALLOCATION_API_VERSION
      then Inl (IdentityMismatch (''allocation API version '' @ rc_api_version r @ '' is not ''
             @ ALLOCATION_API_VERSION))
      else if rc_labels r \<noteq> expected_labels
      then Inl (IdentityMismatch ''ownership labels differ from the requested execution'')
      else if rc_mount_path r \<noteq> ly_root expected_layout
      then Inl (IdentityMismatch (''receipt mount '' @ path_text (rc_mount_path r) @ '' is not ''
             @ path_text (ly_root expected_layout)))
      else if rc_reserved_bytes r = 0 \<or> rc_backend_kind r = [] \<or> rc_backend_key r = []
              \<or> rc_pool_identity r = []
      then Inl (IdentityMismatch ''reserved byte count is zero'')
      else and_then (identity_validate (rc_backend r)) (\<lambda>_.
        let bind = rc_docker_bind r in
        if db_daemon_id bind = [] \<or> db_verifier bind = [] \<or> db_method_version bind = []
           \<or> db_source_path bind \<noteq> rc_mount_path r \<or> db_filesystem_id bind = []
        then Inl (IdentityMismatch ''Docker bind proof does not match the allocation'')
        else Inr ()))"

section \<open>The phase journal\<close>

datatype allocation_phase = Allocating | AllocationReady | Releasing

datatype release_phase = ReleaseMounted | ReleaseUnmounted | ObjectAbsent

datatype backend_state = Mounted | Unmounted | Absent

record phase_journal =
  pj_api_version :: string
  pj_phase :: allocation_phase
  pj_labels :: ownership_labels
  pj_reserved_bytes :: u64
  pj_mount_path :: fspath
  pj_backend_kind :: string
  pj_backend_key :: string
  pj_pool_identity :: string
  pj_ownership_token :: string
  pj_backend :: "backend_identity option"
  pj_receipt :: "allocation_receipt option"
  pj_release_phase :: "release_phase option"

definition journal_allocating ::
  "ownership_labels \<Rightarrow> u64 \<Rightarrow> fspath \<Rightarrow> string \<Rightarrow> string \<Rightarrow> string \<Rightarrow> string \<Rightarrow> phase_journal" where
  "journal_allocating labels reserved_bytes mount_path kind key pool token =
     \<lparr>pj_api_version = ALLOCATION_API_VERSION, pj_phase = Allocating, pj_labels = labels,
      pj_reserved_bytes = reserved_bytes, pj_mount_path = mount_path, pj_backend_kind = kind,
      pj_backend_key = key, pj_pool_identity = pool, pj_ownership_token = token,
      pj_backend = None, pj_receipt = None, pj_release_phase = None\<rparr>"

definition with_backend_identity :: "backend_identity \<Rightarrow> phase_journal \<Rightarrow> phase_journal" where
  "with_backend_identity b j = j\<lparr>pj_backend := Some b\<rparr>"

definition journal_from_receipt :: "allocation_phase \<Rightarrow> allocation_receipt \<Rightarrow> phase_journal" where
  "journal_from_receipt phase r =
     \<lparr>pj_api_version = ALLOCATION_API_VERSION, pj_phase = phase, pj_labels = rc_labels r,
      pj_reserved_bytes = rc_reserved_bytes r, pj_mount_path = rc_mount_path r,
      pj_backend_kind = rc_backend_kind r, pj_backend_key = rc_backend_key r,
      pj_pool_identity = rc_pool_identity r, pj_ownership_token = identity_token (rc_backend r),
      pj_backend = Some (rc_backend r), pj_receipt = Some r, pj_release_phase = None\<rparr>"

definition journal_ready :: "allocation_receipt \<Rightarrow> phase_journal" where
  "journal_ready r = journal_from_receipt AllocationReady r"

definition journal_releasing :: "allocation_receipt \<Rightarrow> release_phase \<Rightarrow> phase_journal" where
  "journal_releasing r phase = (journal_from_receipt Releasing r)\<lparr>pj_release_phase := Some phase\<rparr>"

definition journal_mismatch :: "'a \<Rightarrow> storage_error + 'b" where
  "journal_mismatch _ = Inl (IdentityMismatch ''journal phase and receipt presence disagree'')"

definition journal_shape :: "execution_layout \<Rightarrow> phase_journal \<Rightarrow> storage_error + unit" where
  "journal_shape layout j =
     (case (pj_phase j, pj_receipt j, pj_release_phase j) of
        (Allocating, None, None) \<Rightarrow> Inr ()
      | (AllocationReady, Some r, None) \<Rightarrow>
          if pj_backend j = Some (rc_backend r) then receipt_validate (pj_labels j) layout r
          else journal_mismatch j
      | (Releasing, Some r, Some _) \<Rightarrow>
          if pj_backend j = Some (rc_backend r) then receipt_validate (pj_labels j) layout r
          else journal_mismatch j
      | _ \<Rightarrow> journal_mismatch j)"

definition journal_validate :: "execution_layout \<Rightarrow> phase_journal \<Rightarrow> storage_error + unit" where
  "journal_validate layout j =
     (if pj_api_version j \<noteq> ALLOCATION_API_VERSION
         \<or> ol_execution_id (pj_labels j)
             \<noteq> (case file_stem (ly_journal layout) of Some s \<Rightarrow> s | None \<Rightarrow> [])
         \<or> pj_mount_path j \<noteq> ly_root layout \<or> pj_reserved_bytes j = 0
         \<or> pj_backend_kind j = [] \<or> pj_backend_key j = [] \<or> pj_pool_identity j = []
         \<or> pj_ownership_token j = []
      then Inl (IdentityMismatch ''journal identity does not match its deterministic path'')
      else and_then (case pj_backend j of
          None \<Rightarrow> Inr ()
        | Some b \<Rightarrow>
            and_then (if pj_phase j = Allocating then identity_validate_created b
                      else identity_validate b) (\<lambda>_.
              if identity_token b \<noteq> pj_ownership_token j
              then Inl (IdentityMismatch ''journal ownership token differs from backend identity'')
              else Inr ()))
        (\<lambda>_. journal_shape layout j))"

section \<open>What layouts and validation give\<close>

lemma disk_gib_to_bytes_Inr:
  assumes "disk_gib_to_bytes g = Inr n"
  shows "unat n = unat g * 2 ^ 30" and "n \<noteq> 0"
proof -
  have l: "unat g * unat GIB < 2 ^ 64" and n: "n = g * GIB" and g: "g \<noteq> 0"
    using assms by (auto simp: disk_gib_to_bytes_def checked_mul_def ok_or_Inr_iff split: if_splits)
  have G: "unat GIB = 2 ^ 30" by (simp add: GIB_def)
  show u: "unat n = unat g * 2 ^ 30" using l by (simp add: n unat_word_ariths G)
  show "n \<noteq> 0" using u g by (auto simp: unat_eq_zero)
qed

lemma new_layout_Inr:
  assumes "new_layout state_root i = Inr layout"
  shows "ly_root layout = state_root @ [''executions'', i]"
    and "ly_journal layout = state_root @ [''execution-storage'', i @ ''.json'']"
    and "file_stem (ly_journal layout) = Some i"
    and "i \<noteq> []" and "CHR ''/'' \<notin> set i" and "CHR ''.'' \<notin> set i"
proof -
  have v: "i \<noteq> []" "\<forall>c\<in>set i. lower_or_digit c \<or> c = CHR ''-''"
    using assms by (auto simp: new_layout_def validate_execution_id_def list_all_iff and_then_Inr_iff
        split: if_splits)
  show l: "ly_root layout = state_root @ [''executions'', i]"
    "ly_journal layout = state_root @ [''execution-storage'', i @ ''.json'']"
    using assms by (auto simp: new_layout_def Let_def and_then_Inr_iff)
  show "i \<noteq> []" by (rule v)
  show s: "CHR ''/'' \<notin> set i" "CHR ''.'' \<notin> set i"
    using v(2) by (auto simp: lower_or_digit_def byte_def)
  have "rsplit_once (CHR ''.'') (i @ ''.json'') = Some (i, ''json'')"
    by (simp add: rsplit_once_Some_iff)
  then show "file_stem (ly_journal layout) = Some i"
    using v(1) by (simp add: l(2) file_stem_def)
qed

lemma receipt_validate_Inr:
  assumes "receipt_validate labels layout r = Inr ()"
  shows "rc_labels r = labels" "rc_mount_path r = ly_root layout" "rc_reserved_bytes r \<noteq> 0"
    "identity_validate (rc_backend r) = Inr ()" "db_source_path (rc_docker_bind r) = ly_root layout"
  using assms by (auto simp: receipt_validate_def Let_def and_then_Inr_iff split: if_splits)

lemma identity_validate_token: "identity_validate b = Inr () \<Longrightarrow> identity_token b \<noteq> []"
  by (cases b) (auto simp: identity_validate_def identity_fields_def identity_token_def split: if_splits)

lemma identity_validate_created: "identity_validate b = Inr () \<Longrightarrow> identity_validate_created b = Inr ()"
  by (cases b) (auto simp: identity_validate_def identity_fields_def identity_validate_created_def
      split: if_splits)

text \<open>A journal built from a valid receipt is one that reading accepts.\<close>

lemma journal_from_receipt_validates:
  assumes "new_layout state_root i = Inr layout" and "receipt_validate (rc_labels r) layout r = Inr ()"
    and "ol_execution_id (rc_labels r) = i"
  shows "journal_validate layout (journal_ready r) = Inr ()"
    and "journal_validate layout (journal_releasing r p) = Inr ()"
  using receipt_validate_Inr [OF assms(2)] new_layout_Inr(3) [OF assms(1)] assms(2,3)
    identity_validate_token [of "rc_backend r"]
  by (auto simp: journal_validate_def journal_ready_def journal_releasing_def journal_from_receipt_def
      journal_shape_def receipt_validate_def split: if_splits)

end
