(* ===== verification/Worker_Handles.thy ===== *)
theory Worker_Handles
  imports Storage_Model
begin

text \<open>
  The resources of a running execution, the guard that owns them
  (\<open>orchestrator-worker/src/cleanup_guard.rs\<close>), the JSON document in which the worker keeps them in
  its cleanup authority (\<open>cleanup_handles\<close> of \<open>run.rs\<close>) and the reading of that document after a
  crash (\<open>system.rs\<close>). A derived \<open>Deserialize\<close> takes each field from the object by its name; the
  positional form that serde also reads is written by nothing and is not modelled.
\<close>

section \<open>Resources\<close>

text \<open>\<open>git_worktree::Worktree\<close>, \<open>runtime_traits\<close> and \<open>harness_traits\<close>.\<close>

record git_worktree =
  wt_execution_id :: execution_id
  wt_path :: string
  wt_branch :: string
  wt_base_sha :: string
  wt_repository :: string

record verified_bind_mount =
  bm_source :: fspath
  bm_target :: string
  bm_writable :: bool

record verified_agent_container =
  vc_container_id :: string
  vc_daemon_id :: string
  vc_labels :: ownership_labels
  vc_mounts :: "verified_bind_mount list"

record environment_handle =
  eh_execution_id :: execution_id
  eh_network :: string
  eh_agent_container :: string
  eh_verified :: verified_agent_container
  eh_service_containers :: "string list"
  eh_volumes :: "string list"
  eh_credentials_path :: "fspath option"

record session_ref =
  sf_id :: session_id
  sf_path :: string
  sf_execution_id :: execution_id
  sf_worktree_path :: string

record adopted_execution =
  ad_receipt :: allocation_receipt
  ad_worktree :: git_worktree
  ad_environment :: environment_handle
  ad_session :: session_ref

record diff_capture =
  dc_patch :: string
  dc_changed_files :: "string list"

text \<open>The guard; the lifecycle it calls is passed to its operations.\<close>

record cleanup_guard =
  cg_execution :: execution
  cg_receipt :: "allocation_receipt option"
  cg_worktree :: "git_worktree option"
  cg_environment :: "environment_handle option"
  cg_session :: "session_ref option"
  cg_runtime_created :: bool
  cg_agent_stopped :: bool

definition new_guard :: "execution \<Rightarrow> cleanup_guard" where
  "new_guard execution = \<lparr>cg_execution = execution, cg_receipt = None, cg_worktree = None,
     cg_environment = None, cg_session = None, cg_runtime_created = False, cg_agent_stopped = False\<rparr>"

section \<open>Writing the handles\<close>

definition json_opt :: "('a \<Rightarrow> json) \<Rightarrow> 'a option \<Rightarrow> json" where
  "json_opt f x = (case x of None \<Rightarrow> JNull | Some a \<Rightarrow> f a)"

definition path_json :: "fspath \<Rightarrow> json" where
  "path_json p = JString (path_text p)"

definition strings_json :: "string list \<Rightarrow> json" where
  "strings_json xs = JArray (map JString xs)"

definition labels_json :: "ownership_labels \<Rightarrow> json" where
  "labels_json l = JObject
     ([(''execution_id'', JString (ol_execution_id l)), (''worker_id'', JString (ol_worker_id l)),
       (''repository'', JString (ol_repository l))]
      @ (case ol_issue l of None \<Rightarrow> [] | Some issue \<Rightarrow> [(''issue'', JString issue)]))"

definition identity_json :: "backend_identity \<Rightarrow> json" where
  "identity_json b = (case b of
     Apfs a \<Rightarrow> JObject [(''kind'', JString ''apfs''), (''container'', JString (af_container a)),
       (''container_uuid'', JString (af_container_uuid a)), (''volume'', JString (af_volume a)),
       (''volume_name'', JString (af_volume_name a)), (''volume_uuid'', JString (af_volume_uuid a)),
       (''ownership_token'', JString (af_ownership_token a))]
   | Lvm l \<Rightarrow> JObject [(''kind'', JString ''lvm''), (''volume_group'', JString (lv_volume_group l)),
       (''volume_group_uuid'', JString (lv_volume_group_uuid l)),
       (''logical_volume'', JString (lv_logical_volume l)),
       (''logical_volume_uuid'', JString (lv_logical_volume_uuid l)),
       (''filesystem_uuid'', JString (lv_filesystem_uuid l)),
       (''ownership_token'', JString (lv_ownership_token l))])"

definition bind_proof_json :: "docker_bind_proof \<Rightarrow> json" where
  "bind_proof_json p = JObject [(''daemon_id'', JString (db_daemon_id p)),
     (''verifier'', JString (db_verifier p)), (''method_version'', JString (db_method_version p)),
     (''source_path'', path_json (db_source_path p)),
     (''filesystem_id'', JString (db_filesystem_id p))]"

definition receipt_json :: "allocation_receipt \<Rightarrow> json" where
  "receipt_json r = JObject [(''api_version'', JString (rc_api_version r)),
     (''labels'', labels_json (rc_labels r)), (''reserved_bytes'', JNumber (uint (rc_reserved_bytes r))),
     (''mount_path'', path_json (rc_mount_path r)), (''backend_kind'', JString (rc_backend_kind r)),
     (''backend_key'', JString (rc_backend_key r)), (''pool_identity'', JString (rc_pool_identity r)),
     (''backend'', identity_json (rc_backend r)), (''docker_bind'', bind_proof_json (rc_docker_bind r))]"

definition worktree_json :: "git_worktree \<Rightarrow> json" where
  "worktree_json w = JObject [(''execution_id'', JString (wt_execution_id w)),
     (''path'', JString (wt_path w)), (''branch'', JString (wt_branch w)),
     (''base_sha'', JString (wt_base_sha w)), (''repository'', JString (wt_repository w))]"

definition mount_json :: "verified_bind_mount \<Rightarrow> json" where
  "mount_json m = JObject [(''source'', path_json (bm_source m)), (''target'', JString (bm_target m)),
     (''writable'', JBool (bm_writable m))]"

definition environment_json :: "environment_handle \<Rightarrow> json" where
  "environment_json e = JObject [(''execution_id'', JString (eh_execution_id e)),
     (''network'', JString (eh_network e)), (''agent_container'', JString (eh_agent_container e)),
     (''container_id'', JString (vc_container_id (eh_verified e))),
     (''daemon_id'', JString (vc_daemon_id (eh_verified e))),
     (''labels'', labels_json (vc_labels (eh_verified e))),
     (''mounts'', JArray (map mount_json (vc_mounts (eh_verified e)))),
     (''service_containers'', strings_json (eh_service_containers e)),
     (''volumes'', strings_json (eh_volumes e)),
     (''credentials_path'', json_opt path_json (eh_credentials_path e))]"

definition session_json :: "session_ref \<Rightarrow> json" where
  "session_json s = JObject [(''id'', JString (sf_id s)), (''path'', JString (sf_path s)),
     (''execution_id'', JString (sf_execution_id s)), (''worktree_path'', JString (sf_worktree_path s))]"

definition cleanup_handles :: "execution \<Rightarrow> cleanup_guard \<Rightarrow> json" where
  "cleanup_handles execution guard = JObject
     [(''receipt'', json_opt receipt_json (cg_receipt guard)),
      (''worktree'', json_opt worktree_json (cg_worktree guard)),
      (''runtime'', json_opt environment_json (cg_environment guard)),
      (''runtime_selector'', json_opt labels_json
         (if cg_runtime_created guard then Some (ex_labels execution) else None)),
      (''session'', json_opt session_json (cg_session guard))]"

section \<open>Reading them back\<close>

definition from_field :: "(json \<Rightarrow> 'a option) \<Rightarrow> string \<Rightarrow> json \<Rightarrow> 'a option" where
  "from_field dec k v = Option.bind (json_get v k) dec"

definition from_nullable :: "(json \<Rightarrow> 'a option) \<Rightarrow> json \<Rightarrow> 'a option option" where
  "from_nullable dec v = (if v = JNull then Some None else map_option Some (dec v))"

text \<open>An absent field of type \<open>Option\<close> is \<open>None\<close>.\<close>

definition from_optional :: "(json \<Rightarrow> 'a option) \<Rightarrow> string \<Rightarrow> json \<Rightarrow> 'a option option" where
  "from_optional dec k v = (case v of
     JObject _ \<Rightarrow> (case json_get v k of None \<Rightarrow> Some None | Some x \<Rightarrow> from_nullable dec x)
   | _ \<Rightarrow> None)"

definition path_from :: "json \<Rightarrow> fspath option" where
  "path_from v = map_option path_of_text (json_as_str v)"

definition bool_from :: "json \<Rightarrow> bool option" where
  "bool_from v = (case v of JBool b \<Rightarrow> Some b | _ \<Rightarrow> None)"

definition u64_from :: "json \<Rightarrow> u64 option" where
  "u64_from v = (case v of JNumber n \<Rightarrow> u64_try_from n | _ \<Rightarrow> None)"

fun map_all :: "('a \<Rightarrow> 'b option) \<Rightarrow> 'a list \<Rightarrow> 'b list option" where
  "map_all f [] = Some []"
| "map_all f (x # xs) = Option.bind (f x) (\<lambda>y. map_option ((#) y) (map_all f xs))"

definition list_from :: "(json \<Rightarrow> 'a option) \<Rightarrow> json \<Rightarrow> 'a list option" where
  "list_from dec v = (case v of JArray xs \<Rightarrow> map_all dec xs | _ \<Rightarrow> None)"

definition labels_from :: "json \<Rightarrow> ownership_labels option" where
  "labels_from v =
     Option.bind (from_field json_as_str ''execution_id'' v) (\<lambda>e.
     Option.bind (from_field json_as_str ''worker_id'' v) (\<lambda>w.
     Option.bind (from_field json_as_str ''repository'' v) (\<lambda>r.
     Option.bind (from_optional json_as_str ''issue'' v) (\<lambda>i.
       Some \<lparr>ol_execution_id = e, ol_worker_id = w, ol_repository = r, ol_issue = i\<rparr>))))"

definition apfs_from :: "json \<Rightarrow> apfs_identity option" where
  "apfs_from v =
     Option.bind (from_field json_as_str ''container'' v) (\<lambda>c.
     Option.bind (from_field json_as_str ''container_uuid'' v) (\<lambda>cu.
     Option.bind (from_field json_as_str ''volume'' v) (\<lambda>n.
     Option.bind (from_field json_as_str ''volume_name'' v) (\<lambda>nn.
     Option.bind (from_field json_as_str ''volume_uuid'' v) (\<lambda>nu.
     Option.bind (from_field json_as_str ''ownership_token'' v) (\<lambda>t.
       Some \<lparr>af_container = c, af_container_uuid = cu, af_volume = n, af_volume_name = nn,
             af_volume_uuid = nu, af_ownership_token = t\<rparr>))))))"

definition lvm_from :: "json \<Rightarrow> lvm_identity option" where
  "lvm_from v =
     Option.bind (from_field json_as_str ''volume_group'' v) (\<lambda>g.
     Option.bind (from_field json_as_str ''volume_group_uuid'' v) (\<lambda>gu.
     Option.bind (from_field json_as_str ''logical_volume'' v) (\<lambda>n.
     Option.bind (from_field json_as_str ''logical_volume_uuid'' v) (\<lambda>nu.
     Option.bind (from_field json_as_str ''filesystem_uuid'' v) (\<lambda>fu.
     Option.bind (from_field json_as_str ''ownership_token'' v) (\<lambda>t.
       Some \<lparr>lv_volume_group = g, lv_volume_group_uuid = gu, lv_logical_volume = n,
             lv_logical_volume_uuid = nu, lv_filesystem_uuid = fu, lv_ownership_token = t\<rparr>))))))"

definition identity_from :: "json \<Rightarrow> backend_identity option" where
  "identity_from v =
     Option.bind (from_field json_as_str ''kind'' v) (\<lambda>kind.
       if kind = ''apfs'' then map_option Apfs (apfs_from v)
       else if kind = ''lvm'' then map_option Lvm (lvm_from v)
       else None)"

definition bind_proof_from :: "json \<Rightarrow> docker_bind_proof option" where
  "bind_proof_from v =
     Option.bind (from_field json_as_str ''daemon_id'' v) (\<lambda>d.
     Option.bind (from_field json_as_str ''verifier'' v) (\<lambda>r.
     Option.bind (from_field json_as_str ''method_version'' v) (\<lambda>m.
     Option.bind (from_field path_from ''source_path'' v) (\<lambda>s.
     Option.bind (from_field json_as_str ''filesystem_id'' v) (\<lambda>f.
       Some \<lparr>db_daemon_id = d, db_verifier = r, db_method_version = m, db_source_path = s,
             db_filesystem_id = f\<rparr>)))))"

definition receipt_from :: "json \<Rightarrow> allocation_receipt option" where
  "receipt_from v =
     Option.bind (from_field json_as_str ''api_version'' v) (\<lambda>a.
     Option.bind (from_field labels_from ''labels'' v) (\<lambda>l.
     Option.bind (from_field u64_from ''reserved_bytes'' v) (\<lambda>n.
     Option.bind (from_field path_from ''mount_path'' v) (\<lambda>m.
     Option.bind (from_field json_as_str ''backend_kind'' v) (\<lambda>bk.
     Option.bind (from_field json_as_str ''backend_key'' v) (\<lambda>key.
     Option.bind (from_field json_as_str ''pool_identity'' v) (\<lambda>p.
     Option.bind (from_field identity_from ''backend'' v) (\<lambda>b.
     Option.bind (from_field bind_proof_from ''docker_bind'' v) (\<lambda>d.
       Some \<lparr>rc_api_version = a, rc_labels = l, rc_reserved_bytes = n, rc_mount_path = m,
             rc_backend_kind = bk, rc_backend_key = key, rc_pool_identity = p, rc_backend = b,
             rc_docker_bind = d\<rparr>)))))))))"

text \<open>\<open>DurableWorktreeHandle\<close> and \<open>durable_worktree\<close>, and likewise for the others.\<close>

definition worktree_from :: "json \<Rightarrow> git_worktree option" where
  "worktree_from v =
     Option.bind (from_field json_as_str ''execution_id'' v) (\<lambda>e.
     Option.bind (from_field json_as_str ''path'' v) (\<lambda>p.
     Option.bind (from_field json_as_str ''branch'' v) (\<lambda>b.
     Option.bind (from_field json_as_str ''base_sha'' v) (\<lambda>s.
     Option.bind (from_field json_as_str ''repository'' v) (\<lambda>r.
       Some \<lparr>wt_execution_id = e, wt_path = p, wt_branch = b, wt_base_sha = s, wt_repository = r\<rparr>)))))"

definition mount_from :: "json \<Rightarrow> verified_bind_mount option" where
  "mount_from v =
     Option.bind (from_field path_from ''source'' v) (\<lambda>s.
     Option.bind (from_field json_as_str ''target'' v) (\<lambda>t.
     Option.bind (from_field bool_from ''writable'' v) (\<lambda>w.
       Some \<lparr>bm_source = s, bm_target = t, bm_writable = w\<rparr>)))"

definition environment_from :: "json \<Rightarrow> environment_handle option" where
  "environment_from v =
     Option.bind (from_field json_as_str ''execution_id'' v) (\<lambda>e.
     Option.bind (from_field json_as_str ''network'' v) (\<lambda>n.
     Option.bind (from_field json_as_str ''agent_container'' v) (\<lambda>a.
     Option.bind (from_field json_as_str ''container_id'' v) (\<lambda>c.
     Option.bind (from_field json_as_str ''daemon_id'' v) (\<lambda>d.
     Option.bind (from_field labels_from ''labels'' v) (\<lambda>l.
     Option.bind (from_field (list_from mount_from) ''mounts'' v) (\<lambda>m.
     Option.bind (from_field (list_from json_as_str) ''service_containers'' v) (\<lambda>s.
     Option.bind (from_field (list_from json_as_str) ''volumes'' v) (\<lambda>vs.
     Option.bind (from_optional path_from ''credentials_path'' v) (\<lambda>p.
       Some \<lparr>eh_execution_id = e, eh_network = n, eh_agent_container = a,
             eh_verified = \<lparr>vc_container_id = c, vc_daemon_id = d, vc_labels = l, vc_mounts = m\<rparr>,
             eh_service_containers = s, eh_volumes = vs, eh_credentials_path = p\<rparr>))))))))))"

definition session_from :: "json \<Rightarrow> session_ref option" where
  "session_from v =
     Option.bind (from_field json_as_str ''id'' v) (\<lambda>i.
     Option.bind (from_field json_as_str ''path'' v) (\<lambda>p.
     Option.bind (from_field json_as_str ''execution_id'' v) (\<lambda>e.
     Option.bind (from_field json_as_str ''worktree_path'' v) (\<lambda>w.
       Some \<lparr>sf_id = i, sf_path = p, sf_execution_id = e, sf_worktree_path = w\<rparr>))))"

record durable_handles =
  dh_receipt :: "allocation_receipt option"
  dh_worktree :: "git_worktree option"
  dh_runtime :: "environment_handle option"
  dh_runtime_selector :: "ownership_labels option"
  dh_session :: "session_ref option"

definition durable_handles_from :: "json \<Rightarrow> durable_handles option" where
  "durable_handles_from v =
     Option.bind (from_optional receipt_from ''receipt'' v) (\<lambda>r.
     Option.bind (from_optional worktree_from ''worktree'' v) (\<lambda>w.
     Option.bind (from_optional environment_from ''runtime'' v) (\<lambda>e.
     Option.bind (from_optional labels_from ''runtime_selector'' v) (\<lambda>l.
     Option.bind (from_optional session_from ''session'' v) (\<lambda>s.
       Some \<lparr>dh_receipt = r, dh_worktree = w, dh_runtime = e, dh_runtime_selector = l,
             dh_session = s\<rparr>)))))"

section \<open>The round trip\<close>

definition component_ok :: "string \<Rightarrow> bool" where
  "component_ok c \<longleftrightarrow> c \<noteq> [] \<and> c \<noteq> ''.'' \<and> CHR ''/'' \<notin> set c"

text \<open>An absolute path, as the file system hands them out.\<close>

definition absolute :: "fspath \<Rightarrow> bool" where
  "absolute p \<longleftrightarrow> list_all component_ok p"

lemma split_on_component:
  assumes "d \<notin> set c"
  shows "split_on d (c @ d # s) = c # split_on d s" and "split_on d c = [c]"
  using assms by (induction c) auto

lemma split_on_components:
  "list_all component_ok cs \<Longrightarrow> c \<noteq> [] \<Longrightarrow> CHR ''/'' \<notin> set c \<Longrightarrow>
   split_on (CHR ''/'') (c @ concat (map ((#) (CHR ''/'')) cs)) = c # cs"
proof (induction cs arbitrary: c)
  case (Cons a cs)
  then have "split_on (CHR ''/'') (a @ concat (map ((#) (CHR ''/'')) cs)) = a # cs"
    by (simp add: component_ok_def)
  with Cons.prems show ?case by (simp add: split_on_component)
qed (simp add: split_on_component)

lemma path_of_text_path_text [simp]: "absolute p \<Longrightarrow> path_of_text (path_text p) = p"
proof (cases p)
  case (Cons c cs)
  assume "absolute p"
  then have c: "component_ok c" and cs: "list_all component_ok cs" using Cons by (simp_all add: absolute_def)
  have t: "path_text p = CHR ''/'' # c @ concat (map ((#) (CHR ''/'')) cs)"
    using c by (simp add: Cons path_text_def component_ok_def)
  have "split_on (CHR ''/'') (path_text p) = [] # c # cs"
    using split_on_components [OF cs] c by (simp add: t component_ok_def)
  moreover have "filter (\<lambda>c. c \<noteq> [] \<and> c \<noteq> ''.'') cs = cs"
    using cs by (auto simp: component_ok_def list_all_iff intro: filter_True)
  moreover have "starts_with ''/'' (path_text p)" by (simp add: t)
  ultimately show ?thesis
    using c by (simp add: path_of_text_def component_ok_def Let_def Cons)
qed (simp add: path_text_def path_of_text_def)

lemma map_all_map: "(\<And>x. x \<in> set xs \<Longrightarrow> dec (enc x) = Some x) \<Longrightarrow> map_all dec (map enc xs) = Some xs"
  by (induction xs) simp_all

lemma from_field_object [simp]: "from_field dec k (JObject kvs) = Option.bind (map_of kvs k) dec"
  by (simp add: from_field_def json_get_def)

lemma from_optional_object [simp]:
  "from_optional dec k (JObject kvs) = (case map_of kvs k of None \<Rightarrow> Some None | Some x \<Rightarrow> from_nullable dec x)"
  by (simp add: from_optional_def json_get_def)

lemma from_nullable_opt:
  "(\<And>a. x = Some a \<Longrightarrow> dec (enc a) = Some a \<and> enc a \<noteq> JNull) \<Longrightarrow> from_nullable dec (json_opt enc x) = Some x"
  by (cases x) (auto simp: from_nullable_def json_opt_def)

lemma scalars_from [simp]:
  "json_as_str (JString s) = Some s" "bool_from (JBool b) = Some b"
  "absolute p \<Longrightarrow> path_from (path_json p) = Some p" "u64_from (JNumber (uint n)) = Some n"
  by (simp_all add: json_as_str_def bool_from_def path_from_def path_json_def u64_from_def u64_try_from_def
      uint_lt2p [of n, simplified])

lemma strings_from [simp]: "list_from json_as_str (strings_json xs) = Some xs"
  by (simp add: list_from_def strings_json_def map_all_map)

lemma labels_from_json [simp]: "labels_from (labels_json l) = Some l"
  by (simp add: labels_from_def labels_json_def from_nullable_def split: option.split)

lemma identity_from_json [simp]: "identity_from (identity_json b) = Some b"
  by (cases b) (simp_all add: identity_json_def identity_from_def apfs_from_def lvm_from_def)

lemma receipt_from_json [simp]:
  "absolute (rc_mount_path r) \<Longrightarrow> absolute (db_source_path (rc_docker_bind r)) \<Longrightarrow>
   receipt_from (receipt_json r) = Some r"
  by (simp add: receipt_from_def receipt_json_def bind_proof_json_def bind_proof_from_def)

lemma session_from_json [simp]: "session_from (session_json s) = Some s"
  by (simp add: session_from_def session_json_def)

lemma worktree_from_json [simp]: "worktree_from (worktree_json w) = Some w"
  by (simp add: worktree_from_def worktree_json_def)

lemma mount_from_json [simp]: "absolute (bm_source m) \<Longrightarrow> mount_from (mount_json m) = Some m"
  by (simp add: mount_from_def mount_json_def)

definition environment_paths :: "environment_handle \<Rightarrow> bool" where
  "environment_paths e \<longleftrightarrow> list_all (\<lambda>m. absolute (bm_source m)) (vc_mounts (eh_verified e))
     \<and> (case eh_credentials_path e of None \<Rightarrow> True | Some p \<Rightarrow> absolute p)"

lemma environment_from_json [simp]:
  assumes "environment_paths e"
  shows "environment_from (environment_json e) = Some e"
proof -
  have m: "list_from mount_from (JArray (map mount_json (vc_mounts (eh_verified e)))) = Some (vc_mounts (eh_verified e))"
    using assms by (auto simp: list_from_def environment_paths_def list_all_iff intro: map_all_map)
  have c: "from_nullable path_from (json_opt path_json (eh_credentials_path e)) = Some (eh_credentials_path e)"
    using assms by (intro from_nullable_opt) (auto simp: environment_paths_def path_json_def [symmetric]
        , simp add: path_json_def)
  show ?thesis by (simp add: environment_from_def environment_json_def m c)
qed

text \<open>The paths of a guard are absolute.\<close>

definition guard_paths :: "cleanup_guard \<Rightarrow> bool" where
  "guard_paths guard \<longleftrightarrow>
     (case cg_receipt guard of None \<Rightarrow> True
      | Some r \<Rightarrow> absolute (rc_mount_path r) \<and> absolute (db_source_path (rc_docker_bind r)))
     \<and> (case cg_environment guard of None \<Rightarrow> True | Some e \<Rightarrow> environment_paths e)"

lemma handle_json_objects [simp]:
  "receipt_json r \<noteq> JNull" "worktree_json w \<noteq> JNull" "environment_json e \<noteq> JNull"
  "labels_json l \<noteq> JNull" "session_json s \<noteq> JNull"
  by (simp_all add: receipt_json_def worktree_json_def environment_json_def labels_json_def session_json_def)

text \<open>C13. What a worker writes into its cleanup authority is what recovery reads from it: decoding
  the stored handles gives back the receipt, worktree, runtime, session and, once a runtime may
  exist, the labels that select it, with nothing lost and nothing invented.\<close>

theorem cleanup_handles_round_trip:
  assumes "guard_paths guard"
  shows "durable_handles_from (cleanup_handles execution guard) =
    Some \<lparr>dh_receipt = cg_receipt guard, dh_worktree = cg_worktree guard,
      dh_runtime = cg_environment guard,
      dh_runtime_selector = (if cg_runtime_created guard then Some (ex_labels execution) else None),
      dh_session = cg_session guard\<rparr>"
proof -
  have r: "from_nullable receipt_from (json_opt receipt_json (cg_receipt guard)) = Some (cg_receipt guard)"
    using assms by (intro from_nullable_opt) (auto simp: guard_paths_def)
  have e: "from_nullable environment_from (json_opt environment_json (cg_environment guard))
      = Some (cg_environment guard)"
    using assms by (intro from_nullable_opt) (auto simp: guard_paths_def)
  have w: "from_nullable worktree_from (json_opt worktree_json (cg_worktree guard)) = Some (cg_worktree guard)"
    and s: "from_nullable session_from (json_opt session_json (cg_session guard)) = Some (cg_session guard)"
    and l: "from_nullable labels_from (json_opt labels_json x) = Some x" for x
    by (simp_all add: from_nullable_opt)
  show ?thesis by (simp only: durable_handles_from_def cleanup_handles_def from_optional_object map_of.simps)
      (simp add: r e w s l)
qed

definition demo_held :: execution where
  "demo_held = \<lparr>ex_id = ''e1'', ex_role = Implementation, ex_state = Running, ex_manifest = demo_manifest,
     ex_worker_id = Some ''w1'', ex_attempt_id = Some ''a1'', ex_session_id = Some ''s1'',
     ex_worktree_path = Some ''/workspace'',
     ex_labels = \<lparr>ol_execution_id = ''e1'', ol_worker_id = ''w1'', ol_repository = ''owner/name'', ol_issue = None\<rparr>,
     ex_created_at = 0, ex_updated_at = 0, ex_result = None\<rparr>"

definition demo_guard :: cleanup_guard where
  "demo_guard = (new_guard demo_held)\<lparr>cg_runtime_created := True,
     cg_environment := Some \<lparr>eh_execution_id = ex_id demo_held, eh_network = ''n'', eh_agent_container = ''a'',
       eh_verified = \<lparr>vc_container_id = ''c'', vc_daemon_id = ''d'', vc_labels = ex_labels demo_held,
         vc_mounts = [\<lparr>bm_source = [''state'', ''repository''], bm_target = ''/workspace'', bm_writable = True\<rparr>]\<rparr>,
       eh_service_containers = [], eh_volumes = [], eh_credentials_path = Some [''state'', ''token'']\<rparr>\<rparr>"

theorem cleanup_handles_round_trip_witness:
  "map_option dh_runtime (durable_handles_from (cleanup_handles demo_held demo_guard))
     = Some (cg_environment (demo_guard)) \<and> cg_environment (demo_guard) \<noteq> None"
proof -
  have "guard_paths (demo_guard)"
    by (simp add: guard_paths_def demo_guard_def new_guard_def environment_paths_def absolute_def component_ok_def)
  from cleanup_handles_round_trip [OF this, of demo_held] show ?thesis
    by (simp add: demo_guard_def)
qed

end
