(* ===== verification/Worker_Base.thy ===== *)
theory Worker_Base
  imports Worker_Handles Health_Monitor Api_Workers
begin

text \<open>
  The ground of the worker (\<open>orchestrator-worker/src/lib.rs\<close>, \<open>cleanup_guard.rs\<close>): its errors, the
  lifecycle trait it is written against, its store calls, and the guard's operations.

  A procedure of the worker is a function of the world: the database, the outside world that only
  the lifecycle touches, the execution and the guard the task owns, and the tasks of the daemon.
  It returns, fails, unwinds a panic, or is still running. Every store call may be preceded by
  commits of other processes, may find the database unreachable and may lose the reply to a
  transaction that was committed; clocks, the cancellation flag and the choices of
  \<open>tokio::select!\<close> are functions of the number of the call.
\<close>

named_theorems runs \<open>procedures that move the database by transactions of the stores\<close>

section \<open>Errors and outcomes\<close>

datatype worker_error =
    WLifecycle string
  | WPersistence string
  | WPanic string
  | WCleanup string
  | WExecutionAndCleanup string string
  | WInvalid string
  | WCancelled

definition worker_error_text :: "worker_error \<Rightarrow> string" where
  "worker_error_text e = (case e of
     WLifecycle s \<Rightarrow> ''execution lifecycle step failed: '' @ s
   | WPersistence s \<Rightarrow> ''execution persistence failed: '' @ s
   | WPanic s \<Rightarrow> ''execution panicked: '' @ s
   | WCleanup s \<Rightarrow> ''cleanup failed: '' @ s
   | WExecutionAndCleanup x c \<Rightarrow> ''execution failed: '' @ x @ ''; cleanup also failed: '' @ c
   | WInvalid s \<Rightarrow> ''execution is invalid: '' @ s
   | WCancelled \<Rightarrow> ''execution was cancelled'')"

text \<open>The rendering of a store error; the text of a database error is a parameter.\<close>

definition store_error_text :: "string \<Rightarrow> store_error \<Rightarrow> string" where
  "store_error_text dberror e = (case e of
     Db \<Rightarrow> ''database error: '' @ dberror
   | NotFound s \<Rightarrow> ''record not found: '' @ s
   | IllegalTransition from to \<Rightarrow> ''illegal state transition: '' @ state_debug from @ '' -> '' @ state_debug to
   | Conflict s \<Rightarrow> ''storage conflict: '' @ s
   | IdempotencyConflict s \<Rightarrow> ''idempotency conflict: '' @ s
   | DuplicateExecutionId s \<Rightarrow> ''execution id already exists: '' @ s
   | SequenceConflict \<Rightarrow> ''event sequence conflict''
   | CapacityExhausted w \<Rightarrow> ''worker capacity exhausted: '' @ w
   | InvalidArtifactName s \<Rightarrow> ''invalid artifact name: '' @ s)"

datatype 'a outcome = Ret 'a | Err worker_error | Unwind string | Pending

section \<open>The lifecycle\<close>

text \<open>What a call of the lifecycle trait does: it answers, refuses with an error, or panics.\<close>

datatype 'a reply = Replied 'a | Refused string | Panicked string

type_synonym ('x, 'a) lc = "'x \<Rightarrow> 'a reply \<times> 'x"

record 'x lifecycle =
  lc_allocate :: "execution \<Rightarrow> ('x, allocation_receipt) lc"
  lc_create_worktree :: "execution \<Rightarrow> allocation_receipt \<Rightarrow> ('x, git_worktree) lc"
  lc_provision :: "execution \<Rightarrow> allocation_receipt \<Rightarrow> git_worktree \<Rightarrow> ('x, environment_handle) lc"
  lc_start :: "execution \<Rightarrow> allocation_receipt \<Rightarrow> environment_handle \<Rightarrow> git_worktree \<Rightarrow> task_packet
     \<Rightarrow> ('x, session_ref) lc"
  lc_resume :: "execution \<Rightarrow> allocation_receipt \<Rightarrow> environment_handle \<Rightarrow> session_ref \<Rightarrow> ('x, unit) lc"
  lc_pause :: "execution \<Rightarrow> session_ref \<Rightarrow> ('x, unit) lc"
  lc_fork_conversation :: "execution \<Rightarrow> session_ref \<Rightarrow> session_id \<Rightarrow> ('x, session_ref) lc"
  lc_poll :: "execution \<Rightarrow> session_ref \<Rightarrow> ('x, execution_event list) lc"
  lc_resource_sample :: "execution \<Rightarrow> ('x, resource_sample) lc"
  lc_stop :: "execution \<Rightarrow> session_ref \<Rightarrow> ('x, unit) lc"
  lc_capture :: "git_worktree \<Rightarrow> ('x, diff_capture) lc"
  lc_persist_evidence :: "execution \<Rightarrow> diff_capture \<Rightarrow> ('x, string) lc"
  lc_destroy_runtime :: "execution \<Rightarrow> ('x, unit) lc"
  lc_destroy_worktree :: "git_worktree \<Rightarrow> ('x, unit) lc"
  lc_recover_interrupted_worktree :: "execution \<Rightarrow> allocation_receipt option \<Rightarrow> ('x, unit) lc"
  lc_release_storage :: "allocation_receipt \<Rightarrow> ('x, unit) lc"
  lc_cleanup_authority_step :: "cleanup_row \<Rightarrow> execution \<Rightarrow> cleanup_disposition \<Rightarrow> ('x, cleanup_disposition) lc"
  lc_ack_cleanup_authority_step :: "cleanup_row \<Rightarrow> cleanup_disposition \<Rightarrow> ('x, unit) lc"
  lc_adopt :: "execution \<Rightarrow> ('x, adopted_execution) lc"

text \<open>The default bodies of the trait's methods.\<close>

definition default_pause :: "execution \<Rightarrow> session_ref \<Rightarrow> ('x, unit) lc" where
  "default_pause _ _ x = (Refused ''execution lifecycle does not support pause'', x)"

definition default_fork :: "execution \<Rightarrow> session_ref \<Rightarrow> session_id \<Rightarrow> ('x, session_ref) lc" where
  "default_fork _ _ _ x = (Refused ''execution lifecycle does not support conversation fork'', x)"

definition default_resource_sample :: "(execution \<Rightarrow> ('x, f64) lc) \<Rightarrow> execution \<Rightarrow> ('x, resource_sample) lc" where
  "default_resource_sample cpu_percent execution x =
     (case cpu_percent execution x of
        (Replied cpu, x') \<Rightarrow> (Replied \<lparr>sm_cpu_percent = cpu, sm_io_bytes = None, sm_rss_bytes = None,
           sm_disk_bytes = None, sm_current_command = None\<rparr>, x')
      | (Refused s, x') \<Rightarrow> (Refused s, x')
      | (Panicked s, x') \<Rightarrow> (Panicked s, x'))"

definition default_next_step :: "cleanup_disposition \<Rightarrow> string + cleanup_disposition" where
  "default_next_step disposition = (case disposition of
     CleanupPending \<Rightarrow> Inr RuntimeStopped
   | RuntimeStopped \<Rightarrow> Inr RuntimeDestroyed
   | RuntimeDestroyed \<Rightarrow> Inr GitRecoveredCleaned
   | GitRecoveredCleaned \<Rightarrow> Inr StorageReleased
   | other \<Rightarrow> Inl (''cleanup step cannot advance '' @ disposition_text other))"

definition default_cleanup_step ::
  "(cleanup_row \<Rightarrow> execution \<Rightarrow> ('x, unit) lc) \<Rightarrow> cleanup_row \<Rightarrow> execution \<Rightarrow> cleanup_disposition
   \<Rightarrow> ('x, cleanup_disposition) lc" where
  "default_cleanup_step cleanup_authority authority execution disposition x =
     (case cleanup_authority authority execution x of
        (Replied _, x') \<Rightarrow> (case default_next_step disposition of
            Inr nxt \<Rightarrow> (Replied nxt, x') | Inl s \<Rightarrow> (Refused s, x'))
      | (Refused s, x') \<Rightarrow> (Refused s, x')
      | (Panicked s, x') \<Rightarrow> (Panicked s, x'))"

definition default_adopt :: "execution \<Rightarrow> ('x, adopted_execution) lc" where
  "default_adopt _ x = (Refused ''execution lifecycle does not support restart adoption'', x)"

section \<open>The world of a worker\<close>

text \<open>
  A control the select macro may take, and what it takes: \<open>WokeReady\<close> is the awaited call itself.
\<close>

datatype wake = WokeReady | WokeControl pending_control | WokeClosed | WokeCancelled

datatype link = LinkUp | LinkDown | ReplyLost

record execution_task =
  tk_execution_id :: execution_id
  tk_cancelled :: bool
  tk_signalled :: "nat list"
  tk_queue :: "pending_control list"
  tk_open :: bool

record 'x worker_env =
  we_env :: call_env
  we_link :: "nat \<Rightarrow> link"
  we_instant :: "nat \<Rightarrow> instant"
  we_cancelled :: "nat \<Rightarrow> bool"
  we_wake :: "nat \<Rightarrow> wake"
  we_late :: "nat \<Rightarrow> bool"
  we_db_error :: string
  we_f64_text :: "f64 \<Rightarrow> string"
  we_lifecycle :: "'x lifecycle"

record 'x world =
  wd_db :: db
  wd_ext :: 'x
  wd_calls :: nat
  wd_tracked :: execution
  wd_guard :: cleanup_guard
  wd_tasks :: "execution_task list"

type_synonym ('x, 'a) act = "'x world \<Rightarrow> 'a outcome \<times> 'x world"

definition ret :: "'a \<Rightarrow> ('x, 'a) act" where
  "ret a w = (Ret a, w)"

definition throw :: "worker_error \<Rightarrow> ('x, 'a) act" where
  "throw e w = (Err e, w)"

definition still_running :: "('x, 'a) act" where
  "still_running w = (Pending, w)"

definition bind :: "('x, 'a) act \<Rightarrow> ('a \<Rightarrow> ('x, 'b) act) \<Rightarrow> ('x, 'b) act" where
  "bind m f w = (case m w of
     (Ret a, w') \<Rightarrow> f a w' | (Err e, w') \<Rightarrow> (Err e, w') | (Unwind s, w') \<Rightarrow> (Unwind s, w')
   | (Pending, w') \<Rightarrow> (Pending, w'))"

text \<open>Taking a result apart instead of returning its error.\<close>

definition try_act :: "('x, 'a) act \<Rightarrow> ('x, worker_error + 'a) act" where
  "try_act m w = (case m w of
     (Ret a, w') \<Rightarrow> (Ret (Inr a), w') | (Err e, w') \<Rightarrow> (Ret (Inl e), w')
   | (Unwind s, w') \<Rightarrow> (Unwind s, w') | (Pending, w') \<Rightarrow> (Pending, w'))"

definition catch_unwind :: "('x, 'a) act \<Rightarrow> ('x, 'a) act" where
  "catch_unwind m w = (case m w of (Unwind s, w') \<Rightarrow> (Err (WPanic s), w') | r \<Rightarrow> r)"

definition get_tracked :: "('x, execution) act" where
  "get_tracked w = (Ret (wd_tracked w), w)"

definition set_tracked :: "execution \<Rightarrow> ('x, unit) act" where
  "set_tracked e w = (Ret (), w\<lparr>wd_tracked := e\<rparr>)"

definition get_guard :: "('x, cleanup_guard) act" where
  "get_guard w = (Ret (wd_guard w), w)"

definition set_guard :: "(cleanup_guard \<Rightarrow> cleanup_guard) \<Rightarrow> ('x, unit) act" where
  "set_guard f w = (Ret (), w\<lparr>wd_guard := f (wd_guard w)\<rparr>)"

definition get_tasks :: "('x, execution_task list) act" where
  "get_tasks w = (Ret (wd_tasks w), w)"

definition set_tasks :: "execution_task list \<Rightarrow> ('x, unit) act" where
  "set_tasks ts w = (Ret (), w\<lparr>wd_tasks := ts\<rparr>)"

text \<open>Asking a clock, the cancellation flag or the select macro.\<close>

definition ask :: "(nat \<Rightarrow> 'a) \<Rightarrow> ('x, 'a) act" where
  "ask f w = (Ret (f (wd_calls w)), w\<lparr>wd_calls := wd_calls w + 1\<rparr>)"

definition utc_now :: "'x worker_env \<Rightarrow> ('x, time) act" where
  "utc_now env = ask (en_utc (we_env env))"

definition instant_now :: "'x worker_env \<Rightarrow> ('x, instant) act" where
  "instant_now env = ask (we_instant env)"

section \<open>Store calls\<close>

definition store :: "'x worker_env \<Rightarrow> (nat \<Rightarrow> 'a tx) \<Rightarrow> ('x, store_error + 'a) act" where
  "store env tx w =
     (let n = wd_calls w; d = en_others (we_env env) n (wd_db w); w1 = w\<lparr>wd_calls := n + 1, wd_db := d\<rparr> in
      case we_link env n of
        LinkDown \<Rightarrow> (Ret (Inl Db), w1)
      | link \<Rightarrow>
          (case tx n d of
             Inl e \<Rightarrow> (Ret (Inl e), w1)
           | Inr (a, d') \<Rightarrow> (Ret (if link = ReplyLost then Inl Db else Inr a), w1\<lparr>wd_db := d'\<rparr>)))"

definition read_only :: "(db \<Rightarrow> store_error + 'a) \<Rightarrow> nat \<Rightarrow> 'a tx" where
  "read_only f n d = (case f d of Inl e \<Rightarrow> Inl e | Inr a \<Rightarrow> Inr (a, d))"

definition persistence :: "'x worker_env \<Rightarrow> store_error \<Rightarrow> worker_error" where
  "persistence env e = WPersistence (store_error_text (we_db_error env) e)"

text \<open>A store call whose error becomes \<open>WorkerError::Persistence\<close>.\<close>

definition persist :: "'x worker_env \<Rightarrow> (nat \<Rightarrow> 'a tx) \<Rightarrow> ('x, 'a) act" where
  "persist env tx = bind (store env tx) (\<lambda>r. case r of Inl e \<Rightarrow> throw (persistence env e) | Inr a \<Rightarrow> ret a)"

text \<open>A store call that may commit and still return an error.\<close>

definition persist_inner :: "'x worker_env \<Rightarrow> (nat \<Rightarrow> (store_error + 'a) tx) \<Rightarrow> ('x, 'a) act" where
  "persist_inner env tx = bind (persist env tx) (\<lambda>r. case r of Inl e \<Rightarrow> throw (persistence env e) | Inr a \<Rightarrow> ret a)"

definition db_now :: "'x worker_env \<Rightarrow> nat \<Rightarrow> time" where
  "db_now env n = en_db (we_env env) n"

definition clock_at :: "'x worker_env \<Rightarrow> nat \<Rightarrow> clock" where
  "clock_at env n = \<lparr>ck_utc = en_utc (we_env env) n, ck_db = en_db (we_env env) n\<rparr>"

definition coll_of :: "'x worker_env \<Rightarrow> string \<Rightarrow> string" where
  "coll_of env = en_coll (we_env env)"

section \<open>Lifecycle calls\<close>

definition call :: "('x, 'a) lc \<Rightarrow> ('x, 'a) act" where
  "call f w = (case f (wd_ext w) of
     (Replied a, x) \<Rightarrow> (Ret a, w\<lparr>wd_ext := x\<rparr>)
   | (Refused s, x) \<Rightarrow> (Err (WLifecycle s), w\<lparr>wd_ext := x\<rparr>)
   | (Panicked s, x) \<Rightarrow> (Unwind s, w\<lparr>wd_ext := x\<rparr>))"

text \<open>\<open>tokio::time::timeout\<close>: the call is dropped where it is late, with what it did by then.\<close>

definition timed :: "'x worker_env \<Rightarrow> string \<Rightarrow> ('x, 'a) lc \<Rightarrow> ('x, 'a) act" where
  "timed env message f = bind (ask (we_late env)) (\<lambda>late.
     if late then (\<lambda>w. (Err (WCleanup message), w\<lparr>wd_ext := snd (f (wd_ext w))\<rparr>)) else call f)"

section \<open>The guard\<close>

definition stop_agent :: "'x worker_env \<Rightarrow> ('x, unit) act" where
  "stop_agent env = bind get_guard (\<lambda>guard.
     if cg_agent_stopped guard then ret ()
     else case cg_session guard of
       None \<Rightarrow> ret ()
     | Some session \<Rightarrow>
         bind (timed env ''timed out stopping Pi'' (lc_stop (we_lifecycle env) (cg_execution guard) session)) (\<lambda>_.
           set_guard (\<lambda>g. g\<lparr>cg_agent_stopped := True\<rparr>)))"

definition stop_runtime_process :: "'x worker_env \<Rightarrow> ('x, unit) act" where
  "stop_runtime_process env = bind get_guard (\<lambda>guard.
     if cg_session guard \<noteq> None \<and> \<not> cg_agent_stopped guard then stop_agent env else ret ())"

definition guard_destroy_runtime :: "'x worker_env \<Rightarrow> ('x, unit) act" where
  "guard_destroy_runtime env = bind get_guard (\<lambda>guard.
     if cg_runtime_created guard
     then bind (timed env ''timed out destroying runtime''
            (lc_destroy_runtime (we_lifecycle env) (cg_execution guard))) (\<lambda>_.
          set_guard (\<lambda>g. g\<lparr>cg_runtime_created := False\<rparr>))
     else ret ())"

definition guard_destroy_worktree :: "'x worker_env \<Rightarrow> ('x, unit) act" where
  "guard_destroy_worktree env = bind get_guard (\<lambda>guard.
     bind (case cg_worktree guard of
         Some worktree \<Rightarrow> timed env ''timed out destroying worktree''
           (lc_destroy_worktree (we_lifecycle env) worktree)
       | None \<Rightarrow> ret ()) (\<lambda>_.
     call (lc_recover_interrupted_worktree (we_lifecycle env) (cg_execution guard) (cg_receipt guard))))"

definition guard_release_storage :: "'x worker_env \<Rightarrow> ('x, unit) act" where
  "guard_release_storage env = bind get_guard (\<lambda>guard.
     case cg_receipt guard of
       Some receipt \<Rightarrow> timed env ''timed out releasing storage''
         (lc_release_storage (we_lifecycle env) receipt)
     | None \<Rightarrow> ret ())"

section \<open>Procedures that only move the database by transactions\<close>

definition db_runs :: "('x, 'a) act \<Rightarrow> bool" where
  "db_runs m \<longleftrightarrow> (\<forall>w. store_step\<^sup>*\<^sup>* (wd_db w) (wd_db (snd (m w))))"

lemma db_runsD: "db_runs m \<Longrightarrow> m w = (r, w') \<Longrightarrow> store_step\<^sup>*\<^sup>* (wd_db w) (wd_db w')"
  by (metis db_runs_def snd_conv)

lemma runs_basic [runs]:
  "db_runs (ret a)" "db_runs (throw e)" "db_runs still_running" "db_runs get_tracked" "db_runs (set_tracked x)"
  "db_runs get_guard" "db_runs (set_guard f)" "db_runs (ask q)" "db_runs get_tasks" "db_runs (set_tasks ts)"
  by (simp_all add: db_runs_def ret_def throw_def still_running_def get_tracked_def set_tracked_def
      get_guard_def set_guard_def ask_def get_tasks_def set_tasks_def)

lemma runs_bind [runs]:
  assumes "db_runs m" and "\<And>a. db_runs (f a)"
  shows "db_runs (bind m f)"
  unfolding db_runs_def
proof
  fix w
  obtain r w' where m: "m w = (r, w')" by (cases "m w")
  have "store_step\<^sup>*\<^sup>* (wd_db w) (wd_db w')" by (rule db_runsD [OF assms(1) m])
  moreover have "store_step\<^sup>*\<^sup>* (wd_db w') (wd_db (snd (f a w')))" for a
    using assms(2) by (simp add: db_runs_def)
  ultimately show "store_step\<^sup>*\<^sup>* (wd_db w) (wd_db (snd (bind m f w)))"
    by (cases r) (auto simp: bind_def m intro: rtranclp_trans)
qed

lemma runs_wrap [runs]:
  "db_runs m \<Longrightarrow> db_runs (try_act m)" "db_runs m \<Longrightarrow> db_runs (catch_unwind m)"
  by (auto simp: db_runs_def try_act_def catch_unwind_def split: prod.splits outcome.splits)
    (metis snd_conv)+

lemma runs_call [runs]: "db_runs (call f)"
  by (auto simp: db_runs_def call_def split: prod.splits reply.splits)

lemma runs_case [runs]:
  "(b \<Longrightarrow> db_runs m) \<Longrightarrow> (\<not> b \<Longrightarrow> db_runs m') \<Longrightarrow> db_runs (if b then m else m')"
  "(z = None \<Longrightarrow> db_runs m) \<Longrightarrow> (\<And>y. z = Some y \<Longrightarrow> db_runs (f y)) \<Longrightarrow> db_runs (case z of None \<Rightarrow> m | Some y \<Rightarrow> f y)"
  "(\<And>e. s = Inl e \<Longrightarrow> db_runs (g e)) \<Longrightarrow> (\<And>y. s = Inr y \<Longrightarrow> db_runs (h y))
     \<Longrightarrow> db_runs (case s of Inl e \<Rightarrow> g e | Inr y \<Rightarrow> h y)"
  "(\<And>y y'. db_runs (p y y')) \<Longrightarrow> db_runs (case pr of (y, y') \<Rightarrow> p y y')"
  by (auto split: option.split sum.split prod.split)

lemma runs_late: "db_runs (\<lambda>w. (Err e, w\<lparr>wd_ext := g w\<rparr>))"
  by (simp add: db_runs_def)

lemma runs_timed [runs]: "db_runs (timed env message f)"
  unfolding timed_def by (intro runs runs_late)

lemma runs_store:
  fixes env :: "'x worker_env"
  assumes env: "env_runs (we_env env)" and "\<And>n d a d'. tx n d = Inr (a, d') \<Longrightarrow> store_step\<^sup>*\<^sup>* d d'"
  shows "db_runs (store env tx)"
  unfolding db_runs_def
proof
  fix w :: "'x world"
  let ?d = "en_others (we_env env) (wd_calls w) (wd_db w)"
  have o: "store_step\<^sup>*\<^sup>* (wd_db w) ?d" by (rule env_runsD [OF env])
  have t: "store_step\<^sup>*\<^sup>* (wd_db w) d'" if "tx (wd_calls w) ?d = Inr (a, d')" for a d'
    using o assms(2) [OF that] by (rule rtranclp_trans)
  show "store_step\<^sup>*\<^sup>* (wd_db w) (wd_db (snd (store env tx w)))"
    using o t by (auto simp: store_def Let_def split: link.splits sum.splits)
qed

lemma runs_persist:
  assumes "env_runs (we_env env)" and "\<And>n d a d'. tx n d = Inr (a, d') \<Longrightarrow> store_step\<^sup>*\<^sup>* d d'"
  shows "db_runs (persist env tx)"
  unfolding persist_def by (intro runs runs_store assms)

lemma runs_persist_inner:
  assumes "env_runs (we_env env)" and "\<And>n d a d'. tx n d = Inr (a, d') \<Longrightarrow> store_step\<^sup>*\<^sup>* d d'"
  shows "db_runs (persist_inner env tx)"
  unfolding persist_inner_def by (intro runs runs_persist assms)

lemma read_only_run: "read_only f n d = Inr (a, d') \<Longrightarrow> store_step\<^sup>*\<^sup>* d d'"
  by (auto simp: read_only_def split: sum.splits)

lemma runs_guard [runs]:
  "db_runs (stop_agent env)" "db_runs (stop_runtime_process env)" "db_runs (guard_destroy_runtime env)"
  "db_runs (guard_destroy_worktree env)" "db_runs (guard_release_storage env)"
  "db_runs (utc_now env)" "db_runs (instant_now env)"
proof -
  show s: "db_runs (stop_agent env)" unfolding stop_agent_def by (intro runs)
  show "db_runs (stop_runtime_process env)" unfolding stop_runtime_process_def by (intro runs s)
  show "db_runs (guard_destroy_runtime env)" unfolding guard_destroy_runtime_def by (intro runs)
  show "db_runs (guard_destroy_worktree env)" unfolding guard_destroy_worktree_def by (intro runs)
  show "db_runs (guard_release_storage env)" unfolding guard_release_storage_def by (intro runs)
qed (simp_all add: utc_now_def instant_now_def runs)

end
