(* ===== verification/Worker_Recovery.thy ===== *)
theory Worker_Recovery
  imports Worker_Base
begin

text \<open>
  Recovery in the worker (\<open>orchestrator-worker/src/lib.rs\<close>, \<open>recovery.rs\<close>): driving one cleanup
  authority to its end, reconciliation when the daemon starts, its periodic tick, and the recovery
  coordinator. The loop over the phases of a cleanup asks the lifecycle for the next phase and may
  run as long as the lifecycle likes, so it has fuel; out of fuel means that it is still running.
\<close>

section \<open>One authority\<close>

definition disposition_of :: "'x worker_env \<Rightarrow> cleanup_row \<Rightarrow> ('x, cleanup_disposition) act" where
  "disposition_of env authority = (case authority_disposition authority of
     Inl e \<Rightarrow> throw (persistence env e) | Inr s \<Rightarrow> ret s)"

definition cancellation_lookup :: "execution_id \<Rightarrow> nat \<Rightarrow> bool tx" where
  "cancellation_lookup i = read_only (\<lambda>d. Inr (cancellation_requested i d))"

definition in_cleanup_loop :: "cleanup_disposition \<Rightarrow> bool" where
  "in_cleanup_loop s \<longleftrightarrow> s \<in> set [CleanupPending, RuntimeStopped, RuntimeDestroyed, GitRecoveredCleaned]"

fun cleanup_loop ::
  "nat \<Rightarrow> 'x worker_env \<Rightarrow> cleanup_row \<Rightarrow> execution \<Rightarrow> cleanup_disposition \<Rightarrow> ('x, cleanup_disposition) act" where
  "cleanup_loop 0 env authority execution disposition =
     (if in_cleanup_loop disposition then still_running else ret disposition)"
| "cleanup_loop (Suc fuel) env authority execution disposition =
     (if in_cleanup_loop disposition then
        bind (if disposition \<noteq> GitRecoveredCleaned
              then call (lc_ack_cleanup_authority_step (we_lifecycle env) authority disposition) else ret ()) (\<lambda>_.
        bind (call (lc_cleanup_authority_step (we_lifecycle env) authority execution disposition)) (\<lambda>nxt.
        bind (persist env (\<lambda>n. cleanup_transition (db_now env n) (ca_execution_id authority) disposition nxt
               (ca_handles authority))) (\<lambda>_.
          cleanup_loop fuel env authority execution nxt)))
      else ret disposition)"

definition cleanup_under_way :: "cleanup_disposition \<Rightarrow> bool" where
  "cleanup_under_way s \<longleftrightarrow> s \<in> set [RuntimeStopped, RuntimeDestroyed, GitRecoveredCleaned,
     StorageReleased, ReservationReleased]"

definition finish_cancellation :: "'x worker_env \<Rightarrow> cleanup_row \<Rightarrow> bool \<Rightarrow> ('x, unit) act" where
  "finish_cancellation env authority requested =
     (if requested
      then bind (persist env (\<lambda>n. complete_cancellation (clock_at env n) (ca_execution_id authority)
             (ca_attempt_id authority))) (\<lambda>_. ret ())
      else ret ())"

definition finish_cleanup :: "'x worker_env \<Rightarrow> cleanup_row \<Rightarrow> cleanup_disposition \<Rightarrow> ('x, unit) act" where
  "finish_cleanup env authority disposition =
     bind (if disposition = StorageReleased
           then bind (persist env (\<lambda>n. finalize_cleanup (clock_at env n) (ca_execution_id authority)
                  (ca_attempt_id authority))) (\<lambda>_. ret ReservationReleased)
           else ret disposition) (\<lambda>disposition.
       if disposition = ReservationReleased
       then bind (call (lc_ack_cleanup_authority_step (we_lifecycle env) authority disposition)) (\<lambda>_.
            persist env (\<lambda>n. cleanup_resolve (db_now env n) (ca_execution_id authority)))
       else ret ())"

definition recover_cleanup_authority ::
  "nat \<Rightarrow> 'x worker_env \<Rightarrow> cleanup_row \<Rightarrow> execution \<Rightarrow> ('x, unit) act" where
  "recover_cleanup_authority fuel env authority execution =
     bind (disposition_of env authority) (\<lambda>disposition.
     bind (persist env (cancellation_lookup (ca_execution_id authority))) (\<lambda>requested.
       if disposition = Retained \<and> \<not> requested then ret ()
       else if disposition = Resolved then finish_cancellation env authority requested
       else
         bind (if \<not> cleanup_under_way disposition \<and> disposition \<noteq> CleanupPending
               then bind (persist env (\<lambda>n. fence_for_cleanup (db_now env n) (ca_execution_id authority)
                      (ca_handles authority))) (\<lambda>_. ret CleanupPending)
               else ret disposition) (\<lambda>disposition.
         bind (cleanup_loop fuel env authority execution disposition) (\<lambda>disposition.
         bind (finish_cleanup env authority disposition) (\<lambda>_.
           finish_cancellation env authority requested)))))"

section \<open>Startup\<close>

definition adoptable_state :: "execution_state \<Rightarrow> bool" where
  "adoptable_state s \<longleftrightarrow> s \<in> set [Provisioning, Running, PausedForHuman]"

definition adoptable_stage :: "cleanup_disposition \<Rightarrow> bool" where
  "adoptable_stage s \<longleftrightarrow>
     s \<in> set [Active StagePiStarted, Active StageRunning, Active StagePostPiBeforeEvent]"

definition is_active :: "cleanup_disposition \<Rightarrow> bool" where
  "is_active s = (case s of Active _ \<Rightarrow> True | _ \<Rightarrow> False)"

text \<open>One authority at startup: the execution to adopt, if any.\<close>

definition startup_one ::
  "nat \<Rightarrow> 'x worker_env \<Rightarrow> worker_id \<Rightarrow> reservation list \<Rightarrow> cleanup_row \<Rightarrow> ('x, execution option) act" where
  "startup_one fuel env worker startup_reservations authority =
     bind (store env (read_only (get_execution (ca_execution_id authority)))) (\<lambda>found.
     case found of Inl _ \<Rightarrow> ret None | Inr execution \<Rightarrow>
     let same_attempt = (ex_worker_id execution = Some worker
            \<and> ex_attempt_id execution = Some (ca_attempt_id authority)) in
     case authority_disposition authority of Inl _ \<Rightarrow> ret None | Inr disposition \<Rightarrow>
     bind (store env (cancellation_lookup (ex_id execution))) (\<lambda>looked.
     case looked of Inl _ \<Rightarrow> ret None | Inr requested \<Rightarrow>
     if requested
     then bind (try_act (recover_cleanup_authority fuel env authority execution)) (\<lambda>_. ret None)
     else if same_attempt \<and> mf_persistence (ex_manifest execution) = Resumable
             \<and> adoptable_state (ex_state execution) \<and> adoptable_stage disposition
     then ret (Some execution)
     else if same_attempt \<and> ex_state execution = ReviewReady
             \<and> disposition \<in> set [RetainRequested, Retained]
     then bind (persist env (\<lambda>n. commit_retained_and_release_capacity (db_now env n) (ex_id execution)
            (ca_attempt_id authority))) (\<lambda>_. ret None)
     else
       let has_live_reservation = list_ex (\<lambda>r. ex_id (rz_execution r) = ex_id execution
              \<and> rz_attempt_id r = ca_attempt_id authority \<and> rz_worker_id r = worker) startup_reservations in
       bind (if same_attempt \<and> \<not> is_terminal (ex_state execution) \<and> has_live_reservation
                \<and> (is_active disposition \<or> disposition = CleanupPending)
             then bind (persist env (\<lambda>n. fence_lost_attempt (db_now env n) (ex_id execution)
                    (ca_attempt_id authority))) (\<lambda>_. ret ())
             else ret ()) (\<lambda>_.
       bind (try_act (recover_cleanup_authority fuel env authority execution)) (\<lambda>_. ret None))))"

fun startup_each ::
  "nat \<Rightarrow> 'x worker_env \<Rightarrow> worker_id \<Rightarrow> reservation list \<Rightarrow> cleanup_row list \<Rightarrow> execution list
   \<Rightarrow> ('x, execution list) act" where
  "startup_each fuel env worker startup_reservations [] planned = ret planned"
| "startup_each fuel env worker startup_reservations (authority # authorities) planned =
     bind (startup_one fuel env worker startup_reservations authority) (\<lambda>adopted.
       startup_each fuel env worker startup_reservations authorities
         (case adopted of Some execution \<Rightarrow> planned @ [execution] | None \<Rightarrow> planned))"

text \<open>The executions whose adoption is spawned once every authority has been looked at.\<close>

definition reconcile_startup :: "nat \<Rightarrow> 'x worker_env \<Rightarrow> worker_id \<Rightarrow> ('x, execution list) act" where
  "reconcile_startup fuel env worker =
     bind (persist env (read_only (reservations_for_worker (coll_of env) worker))) (\<lambda>startup_reservations.
     bind (persist env (read_only (\<lambda>d. Inr (cleanup_list_for_worker (coll_of env) worker d)))) (\<lambda>authorities.
       startup_each fuel env worker startup_reservations authorities []))"

section \<open>Tasks and the daemon's tick\<close>

definition new_task :: "execution_id \<Rightarrow> execution_task" where
  "new_task i = \<lparr>tk_execution_id = i, tk_cancelled = False, tk_signalled = [], tk_queue = [], tk_open = True\<rparr>"

definition task_cancel :: "execution_task \<Rightarrow> execution_task" where
  "task_cancel t = t\<lparr>tk_cancelled := True\<rparr>"

definition signal_control :: "pending_control \<Rightarrow> execution_task \<Rightarrow> (worker_error + unit) \<times> execution_task" where
  "signal_control control t =
     (let n = cq_request_id (pn_request control) in
      if n \<in> set (tk_signalled t) then (Inr (), t)
      else
        let t1 = t\<lparr>tk_signalled := n # tk_signalled t\<rparr> in
        if tk_open t then (Inr (), t1\<lparr>tk_queue := tk_queue t1 @ [control]\<rparr>)
        else (Inl (WInvalid ''execution control channel closed''), t1))"

definition observe_cancellation :: "'x worker_env \<Rightarrow> execution_task \<Rightarrow> ('x, store_error + bool \<times> execution_task) act" where
  "observe_cancellation env t =
     bind (store env (cancellation_lookup (tk_execution_id t))) (\<lambda>r. case r of
        Inl e \<Rightarrow> ret (Inl e)
      | Inr requested \<Rightarrow> ret (Inr (requested, if requested then task_cancel t else t)))"

text \<open>Updating the first task of an execution, as \<open>find\<close> selects it.\<close>

fun update_task :: "execution_id \<Rightarrow> (execution_task \<Rightarrow> 'r \<times> execution_task) \<Rightarrow> execution_task list
  \<Rightarrow> 'r option \<times> execution_task list" where
  "update_task i f [] = (None, [])"
| "update_task i f (t # ts) =
     (if tk_execution_id t = i then (let (r, t') = f t in (Some r, t' # ts))
      else (let (r, ts') = update_task i f ts in (r, t # ts')))"

definition cancel_tasks :: "worker_id \<Rightarrow> pending_cancellation list \<Rightarrow> execution_task list \<Rightarrow> execution_task list" where
  "cancel_tasks worker pending tasks =
     fold (\<lambda>request ts.
       if pc_worker_id request \<noteq> Some worker then ts
       else snd (update_task (ex_id (pc_execution request)) (\<lambda>t. ((), task_cancel t)) ts)) pending tasks"

fun tick_controls ::
  "'x worker_env \<Rightarrow> pending_cancellation list \<Rightarrow> pending_control list \<Rightarrow> ('x, unit) act" where
  "tick_controls env pending [] = ret ()"
| "tick_controls env pending (control # rest) =
     (if list_ex (\<lambda>request. ex_id (pc_execution request) = ex_id (pn_execution control)) pending
      then tick_controls env pending rest
      else bind get_tasks (\<lambda>tasks.
        case update_task (ex_id (pn_execution control)) (signal_control control) tasks of
          (Some signalled, tasks') \<Rightarrow>
            bind (set_tasks tasks') (\<lambda>_.
              case signalled of Inl e \<Rightarrow> throw e | Inr _ \<Rightarrow> tick_controls env pending rest)
        | (None, _) \<Rightarrow>
            bind (persist_inner env (\<lambda>n. begin_control (db_now env n) (cq_request_id (pn_request control))
                   (pn_accepted_worker_id control) (pn_accepted_attempt_id control))) (\<lambda>_.
              tick_controls env pending rest)))"

definition reconcile_pending_cancellation ::
  "nat \<Rightarrow> 'x worker_env \<Rightarrow> worker_id \<Rightarrow> pending_cancellation \<Rightarrow> ('x, unit) act" where
  "reconcile_pending_cancellation fuel env worker request =
     (let i = ex_id (pc_execution request) in
      bind (store env (read_only (cleanup_get i))) (\<lambda>found.
      bind (case found of
          Inr authority \<Rightarrow> ret authority
        | Inl (NotFound _) \<Rightarrow>
            (case pc_attempt_id request of
               None \<Rightarrow> throw (WInvalid (''pending cancellation '' @ i @ '' lacks attempt authority''))
             | Some attempt \<Rightarrow>
                 bind (persist env (\<lambda>n. cleanup_begin (db_now env n) i attempt worker)) (\<lambda>_.
                   persist env (read_only (cleanup_get i))))
        | Inl e \<Rightarrow> throw (persistence env e)) (\<lambda>authority.
        recover_cleanup_authority fuel env authority (pc_execution request))))"

definition execution_error :: "execution_id \<Rightarrow> worker_error \<Rightarrow> string" where
  "execution_error i e = ''execution '' @ i @ '': '' @ worker_error_text e"

fun tick_cancellations ::
  "nat \<Rightarrow> 'x worker_env \<Rightarrow> worker_id \<Rightarrow> pending_cancellation list \<Rightarrow> string list \<Rightarrow> ('x, string list) act" where
  "tick_cancellations fuel env worker [] errors = ret errors"
| "tick_cancellations fuel env worker (request # rest) errors =
     bind get_tasks (\<lambda>tasks.
       if pc_worker_id request \<noteq> Some worker
          \<or> list_ex (\<lambda>t. tk_execution_id t = ex_id (pc_execution request)) tasks
       then tick_cancellations fuel env worker rest errors
       else bind (try_act (reconcile_pending_cancellation fuel env worker request)) (\<lambda>r.
         tick_cancellations fuel env worker rest
           (case r of Inl e \<Rightarrow> errors @ [execution_error (ex_id (pc_execution request)) e] | Inr _ \<Rightarrow> errors)))"

fun tick_authorities ::
  "nat \<Rightarrow> 'x worker_env \<Rightarrow> pending_cancellation list \<Rightarrow> cleanup_row list \<Rightarrow> string list \<Rightarrow> ('x, string list) act" where
  "tick_authorities fuel env pending [] errors = ret errors"
| "tick_authorities fuel env pending (authority # authorities) errors =
     (if list_ex (\<lambda>request. ex_id (pc_execution request) = ca_execution_id authority) pending
      then tick_authorities fuel env pending authorities errors
      else case authority_disposition authority of
        Inl _ \<Rightarrow> tick_authorities fuel env pending authorities errors
      | Inr disposition \<Rightarrow>
          if \<not> (disposition = CleanupPending \<or> cleanup_under_way disposition)
          then tick_authorities fuel env pending authorities errors
          else bind (store env (read_only (get_execution (ca_execution_id authority)))) (\<lambda>found.
            case found of
              Inr execution \<Rightarrow>
                bind (try_act (recover_cleanup_authority fuel env authority execution)) (\<lambda>r.
                  tick_authorities fuel env pending authorities
                    (case r of Inl e \<Rightarrow> errors @ [execution_error (ca_execution_id authority) e]
                     | Inr _ \<Rightarrow> errors))
            | Inl e \<Rightarrow> tick_authorities fuel env pending authorities
                (errors @ [''execution '' @ ca_execution_id authority @ '' is unavailable: ''
                   @ store_error_text (we_db_error env) e])))"

text \<open>\<open>Vec::join\<close> with a semicolon.\<close>

fun join_errors :: "string list \<Rightarrow> string" where
  "join_errors [] = []"
| "join_errors [e] = e"
| "join_errors (e # es) = e @ ''; '' @ join_errors es"

definition reconcile_daemon_tick :: "nat \<Rightarrow> 'x worker_env \<Rightarrow> worker_id \<Rightarrow> ('x, unit) act" where
  "reconcile_daemon_tick fuel env worker =
     bind (persist env (read_only (\<lambda>d. Inr (list_pending_cancellations (coll_of env) d)))) (\<lambda>pending.
     bind get_tasks (\<lambda>tasks.
     bind (set_tasks (cancel_tasks worker pending tasks)) (\<lambda>_.
     bind (persist env (read_only (list_pending_controls worker))) (\<lambda>todo.
     bind (tick_controls env pending todo) (\<lambda>_.
     bind (tick_cancellations fuel env worker pending []) (\<lambda>errors.
     bind (store env (read_only (\<lambda>d. Inr (cleanup_list_for_worker (coll_of env) worker d)))) (\<lambda>listed.
     bind (case listed of
         Inr authorities \<Rightarrow> tick_authorities fuel env pending authorities errors
       | Inl e \<Rightarrow> ret (errors @ [''list cleanup authorities: '' @ store_error_text (we_db_error env) e])) (\<lambda>errors.
       if errors = [] then ret () else throw (WCleanup (join_errors errors))))))))))"

section \<open>The recovery coordinator\<close>

datatype recovery_disposition = ResumedAttempt | LostAttempt

record 'x recovery_authority =
  ra_resume_if_valid :: "execution \<Rightarrow> ('x, bool) act"
  ra_cleanup_invalid :: "execution \<Rightarrow> ('x, unit) act"

text \<open>The result of a failed execution.\<close>

definition failed_result :: "execution_id \<Rightarrow> failure_class \<Rightarrow> execution_result" where
  "failed_result i failure = \<lparr>rs_execution_id = i, rs_state = Failed, rs_failure = Some failure,
     rs_branch = None, rs_base_sha = None, rs_diff_artifact = None, rs_artifacts = [], rs_tests = None\<rparr>"

definition execution_event_of :: "execution \<Rightarrow> time \<Rightarrow> event_kind \<Rightarrow> execution_event" where
  "execution_event_of execution at kind = \<lparr>ev_execution_id = ex_id execution,
     ev_attempt_id = ex_attempt_id execution, ev_sequence = 0, ev_at = at, ev_state = ex_state execution,
     ev_kind = kind\<rparr>"

definition record_worker_lost :: "'x worker_env \<Rightarrow> execution \<Rightarrow> ('x, unit) act" where
  "record_worker_lost env execution =
     bind (utc_now env) (\<lambda>now.
     case execution_transition now Failed execution of
       Inl e \<Rightarrow> throw (WInvalid (core_error_text e))
     | Inr failed \<Rightarrow>
         let failed = failed\<lparr>ex_result := Some (failed_result (ex_id failed) WorkerLost)\<rparr> in
         bind (utc_now env) (\<lambda>at.
         bind (persist env (\<lambda>n. record_progress (db_now env n) False failed
                (execution_event_of failed at (ExecutionFailed WorkerLost)))) (\<lambda>_. ret ())))"

fun recover_each_live ::
  "'x worker_env \<Rightarrow> 'x recovery_authority \<Rightarrow> execution list \<Rightarrow> (execution_id \<times> recovery_disposition) list
   \<Rightarrow> ('x, (execution_id \<times> recovery_disposition) list) act" where
  "recover_each_live env authority [] recovered = ret recovered"
| "recover_each_live env authority (execution # live) recovered =
     bind (ra_resume_if_valid authority execution) (\<lambda>valid.
       if valid then recover_each_live env authority live (recovered @ [(ex_id execution, ResumedAttempt)])
       else bind (ra_cleanup_invalid authority execution) (\<lambda>_.
         bind (record_worker_lost env execution) (\<lambda>_.
         bind (persist env (\<lambda>n. release (db_now env n) (ex_id execution))) (\<lambda>_.
           recover_each_live env authority live (recovered @ [(ex_id execution, LostAttempt)])))))"

definition recover_worker ::
  "'x worker_env \<Rightarrow> 'x recovery_authority \<Rightarrow> worker_id \<Rightarrow> ('x, (execution_id \<times> recovery_disposition) list) act" where
  "recover_worker env authority worker =
     bind (persist env (read_only (\<lambda>d. Inr (list_live (coll_of env) d)))) (\<lambda>live.
       recover_each_live env authority (filter (\<lambda>e. ex_worker_id e = Some worker) live) [])"

section \<open>Recovery is a run of the stores\<close>

lemma step_run: "store_step d d' \<Longrightarrow> store_step\<^sup>*\<^sup>* d d'" by blast

lemmas tx_runs =
  read_only_run cleanup_transition [THEN step_run] complete_cancel [THEN step_run]
  finalize [THEN step_run] cleanup_resolve [THEN step_run] cleanup_fence [THEN step_run]
  retain [THEN step_run] fence_lost [THEN step_run] control_begin [THEN step_run]
  cleanup_begin [THEN step_run] progress [THEN step_run] release [THEN step_run]
  control_mark [THEN step_run] control_complete [THEN step_run]

lemma runs_disposition [runs]: "db_runs (disposition_of env c)"
  unfolding disposition_of_def by (intro runs)

lemmas calls = runs runs_store runs_persist runs_persist_inner

lemma cleanup_loop_runs:
  assumes env: "env_runs (we_env env)"
  shows "db_runs (cleanup_loop fuel env c e s)"
proof (induction fuel arbitrary: s)
  case (Suc fuel)
  show ?case unfolding cleanup_loop.simps by (intro calls env Suc) (rule tx_runs, assumption)
qed (simp add: runs)

lemma recover_runs:
  assumes env: "env_runs (we_env env)"
  shows "db_runs (recover_cleanup_authority fuel env c e)"
  unfolding recover_cleanup_authority_def finish_cleanup_def finish_cancellation_def cancellation_lookup_def
  by (intro calls env cleanup_loop_runs; erule tx_runs)

lemma startup_one_runs:
  assumes env: "env_runs (we_env env)"
  shows "db_runs (startup_one fuel env worker rs c)"
  unfolding startup_one_def cancellation_lookup_def Let_def
  by (intro calls env recover_runs; erule tx_runs)

lemma reconcile_startup_runs:
  assumes env: "env_runs (we_env env)"
  shows "db_runs (reconcile_startup fuel env worker)"
proof -
  have each: "db_runs (startup_each fuel env worker rs cs planned)" for rs cs planned
    by (induction cs arbitrary: planned) (auto intro!: runs startup_one_runs env)
  show ?thesis
    unfolding reconcile_startup_def by (intro calls env each; erule tx_runs)
qed

lemma tick_controls_runs:
  assumes env: "env_runs (we_env env)"
  shows "db_runs (tick_controls env pending todo)"
proof (induction todo)
  case (Cons control rest)
  show ?case
    unfolding tick_controls.simps by (intro calls env Cons; erule tx_runs)
qed (simp add: runs)

lemma reconcile_pending_cancellation_runs:
  assumes env: "env_runs (we_env env)"
  shows "db_runs (reconcile_pending_cancellation fuel env worker request)"
  unfolding reconcile_pending_cancellation_def Let_def
  by (intro calls env recover_runs; (erule tx_runs)?)
    (auto split: store_error.split intro!: calls env elim: tx_runs)

lemma tick_cancellations_runs:
  assumes env: "env_runs (we_env env)"
  shows "db_runs (tick_cancellations fuel env worker pending errors)"
  by (induction pending arbitrary: errors)
    (auto intro!: runs reconcile_pending_cancellation_runs env)

lemma tick_authorities_runs:
  assumes env: "env_runs (we_env env)"
  shows "db_runs (tick_authorities fuel env pending cs errors)"
proof (induction cs arbitrary: errors)
  case (Cons c cs)
  show ?case
    unfolding tick_authorities.simps by (intro calls env recover_runs Cons; erule tx_runs)
qed (simp add: runs)

lemma reconcile_daemon_tick_runs:
  assumes env: "env_runs (we_env env)"
  shows "db_runs (reconcile_daemon_tick fuel env worker)"
  unfolding reconcile_daemon_tick_def
  by (intro calls env tick_controls_runs tick_cancellations_runs tick_authorities_runs; erule tx_runs)

lemma recover_worker_runs:
  assumes env: "env_runs (we_env env)"
    and "\<And>e. db_runs (ra_resume_if_valid authority e)" "\<And>e. db_runs (ra_cleanup_invalid authority e)"
  shows "db_runs (recover_worker env authority worker)"
proof -
  have lost: "db_runs (record_worker_lost env e)" for e
    unfolding record_worker_lost_def Let_def by (intro calls env; erule tx_runs)
  have each: "db_runs (recover_each_live env authority live recovered)" for live recovered
  proof (induction live arbitrary: recovered)
    case (Cons e live)
    show ?case
      unfolding recover_each_live.simps by (intro calls env lost assms(2,3) Cons; erule tx_runs)
  qed (simp add: runs)
  show ?thesis unfolding recover_worker_def by (intro calls env each; erule tx_runs)
qed

end
