(* ===== verification/Worker_Demo.thy ===== *)
theory Worker_Demo
  imports Worker_Recovery Demo_Run
begin

text \<open>
  A worker for the concrete runs of its properties: storage is refused and every cleanup succeeds,
  nothing else commits, the database always answers, and no control or cancellation arrives.
\<close>

definition demo_session :: session_ref where
  "demo_session = \<lparr>sf_id = ''s1'', sf_path = ''/sessions/s1'', sf_execution_id = ''e1'', sf_worktree_path = ''/workspace''\<rparr>"

definition demo_lifecycle :: "unit lifecycle" where
  "demo_lifecycle =
     \<lparr>lc_allocate = \<lambda>_ x. (Refused ''no space'', x),
      lc_create_worktree = \<lambda>_ _ x. (Refused ''no worktree'', x),
      lc_provision = \<lambda>_ _ _ x. (Refused ''no runtime'', x),
      lc_start = \<lambda>_ _ _ _ _ x. (Replied demo_session, x),
      lc_resume = \<lambda>_ _ _ _ x. (Replied (), x),
      lc_pause = \<lambda>_ _ x. (Replied (), x),
      lc_fork_conversation = default_fork,
      lc_poll = \<lambda>_ _ x. (Replied [], x),
      lc_resource_sample = default_resource_sample (\<lambda>_ x. (Replied (Finite 1 0), x)),
      lc_stop = \<lambda>_ _ x. (Replied (), x),
      lc_capture = \<lambda>_ x. (Replied \<lparr>dc_patch = [], dc_changed_files = []\<rparr>, x),
      lc_persist_evidence = \<lambda>_ _ x. (Replied [], x),
      lc_destroy_runtime = \<lambda>_ x. (Replied (), x),
      lc_destroy_worktree = \<lambda>_ x. (Replied (), x),
      lc_recover_interrupted_worktree = \<lambda>_ _ x. (Replied (), x),
      lc_release_storage = \<lambda>_ x. (Replied (), x),
      lc_cleanup_authority_step = default_cleanup_step (\<lambda>_ _ x. (Replied (), x)),
      lc_ack_cleanup_authority_step = \<lambda>_ _ x. (Replied (), x),
      lc_adopt = default_adopt\<rparr>"

definition demo_worker_env :: "unit worker_env" where
  "demo_worker_env =
     \<lparr>we_env = \<lparr>en_others = \<lambda>_ d. d, en_utc = \<lambda>_. 9, en_db = \<lambda>_. 9, en_coll = id, en_dbtext = id,
        en_rfc3339 = \<lambda>_. []\<rparr>,
      we_link = \<lambda>_. LinkUp, we_instant = \<lambda>n. n, we_cancelled = \<lambda>_. False, we_wake = \<lambda>_. WokeReady,
      we_late = \<lambda>_. False, we_db_error = ''closed'', we_f64_text = \<lambda>_. ''1'', we_lifecycle = demo_lifecycle\<rparr>"

definition demo_world :: "db \<Rightarrow> unit world" where
  "demo_world d = \<lparr>wd_db = d, wd_ext = (), wd_calls = 0, wd_tracked = demo_assigned,
     wd_guard = new_guard demo_assigned, wd_tasks = []\<rparr>"

lemma demo_worker_runs: "env_runs (we_env demo_worker_env)"
  by (simp add: env_runs_def demo_worker_env_def)

end
