(* ===== verification/Recovery_Progress.thy ===== *)
theory Recovery_Progress
  imports Worker_Demo
begin

text \<open>
  Recovery of a cleanup authority comes to its end: from every phase of a cleanup, with a lifecycle
  that performs its steps and a database that answers, the loop of
  \<open>recover_cleanup_authority\<close> ends after at most four passes.
\<close>

section \<open>Phases of one authority\<close>

text \<open>The row of \<open>i\<close> belongs to the attempt \<open>a\<close> and is in phase \<open>s\<close>; no cancellation waits.\<close>

definition at_phase :: "execution_id \<Rightarrow> attempt_id \<Rightarrow> cleanup_disposition \<Rightarrow> db \<Rightarrow> bool" where
  "at_phase i a s d \<longleftrightarrow> distinct (map ca_execution_id (cleanups d)) \<and> \<not> cancellation_requested i d
     \<and> (case find_cleanup d i of None \<Rightarrow> False
        | Some c \<Rightarrow> ca_phase c = disposition_text s \<and> ca_attempt_id c = a)"

lemma at_phaseE:
  assumes "at_phase i a s d"
  obtains c where "find_cleanup d i = Some c" "ca_phase c = disposition_text s" "ca_attempt_id c = a"
    "ca_execution_id c = i" "c \<in> set (cleanups d)"
  using assms by (auto simp: at_phase_def dest: sql_lookup_SomeD split: option.splits)

lemma one_row:
  assumes "at_phase i a s d" and "\<And>c. find_cleanup d i = Some c \<Longrightarrow> p c"
  shows "rows_affected (\<lambda>c. ca_execution_id c = i \<and> p c) (cleanups d) = 1"
proof -
  obtain c where c: "find_cleanup d i = Some c" "ca_execution_id c = i" "c \<in> set (cleanups d)"
    by (rule at_phaseE [OF assms(1)]) auto
  then have "0 < rows_affected (\<lambda>c. ca_execution_id c = i \<and> p c) (cleanups d)"
    unfolding rows_affected_pos_iff using assms(2) by auto
  moreover have "rows_affected (\<lambda>c. ca_execution_id c = i \<and> p c) (cleanups d) \<le> 1"
    using assms(1) by (intro rows_affected_key) (simp add: at_phase_def)
  ultimately show ?thesis by simp
qed

lemma at_phase_update:
  assumes "at_phase i a s d" and "\<And>c. find_cleanup d i = Some c \<Longrightarrow> p c"
    and "\<And>c. ca_execution_id (f c) = ca_execution_id c" "\<And>c. ca_attempt_id (f c) = ca_attempt_id c"
      "\<And>c. ca_phase (f c) = disposition_text s'"
    and "cleanups d' = sql_update p f (cleanups d)" "cancellations d' = cancellations d"
  shows "at_phase i a s' d'"
  using assms(1,2)
  by (auto simp: at_phase_def assms(3-7) cancellation_requested_def sql_lookup_update map_key_update
      split: option.splits)

lemma transition_advances:
  assumes "at_phase i a s d" and "disposition_can_transition_to s s'"
  shows "\<exists>d'. cleanup_transition t i s s' h d = Inr ((), d') \<and> at_phase i a s' d'"
proof -
  let ?p = "\<lambda>r. ca_execution_id r = i \<and> ca_phase r \<in> set [disposition_text s, disposition_text s']"
  let ?f = "\<lambda>r. r\<lparr>ca_phase := disposition_text s', ca_handles := h, ca_updated_at := t\<rparr>"
  obtain c where c: "find_cleanup d i = Some c" "ca_phase c = disposition_text s" "ca_execution_id c = i"
    by (rule at_phaseE [OF assms(1)])
  have "rows_affected ?p (cleanups d) = 1" by (rule one_row [OF assms(1)]) (use c in auto)
  then have "cleanup_transition t i s s' h d = Inr ((), d\<lparr>cleanups := sql_update ?p ?f (cleanups d)\<rparr>)"
    using assms(2) c by (simp add: cleanup_transition_def Let_def)
  moreover have "at_phase i a s' (d\<lparr>cleanups := sql_update ?p ?f (cleanups d)\<rparr>)"
    by (rule at_phase_update [OF assms(1), where p = ?p and f = ?f]) (use c in auto)
  ultimately show ?thesis by blast
qed

lemma resolve_advances:
  assumes "at_phase i a ReservationReleased d"
  shows "\<exists>d'. cleanup_resolve t i d = Inr ((), d') \<and> at_phase i a Resolved d'"
proof -
  let ?p = "\<lambda>c. ca_execution_id c = i \<and> ca_phase c \<in> set [''RESERVATION_RELEASED'', ''RESOLVED'']"
  let ?f = "\<lambda>r. r\<lparr>ca_phase := ''RESOLVED'', ca_updated_at := t\<rparr>"
  obtain c where c: "find_cleanup d i = Some c" "ca_phase c = ''RESERVATION_RELEASED''" "ca_execution_id c = i"
    by (rule at_phaseE [OF assms]) simp
  have "rows_affected ?p (cleanups d) = 1" by (rule one_row [OF assms]) (use c in auto)
  then have "cleanup_resolve t i d = Inr ((), d\<lparr>cleanups := sql_update ?p ?f (cleanups d)\<rparr>)"
    using c by (simp add: cleanup_resolve_def Let_def)
  moreover have "at_phase i a Resolved (d\<lparr>cleanups := sql_update ?p ?f (cleanups d)\<rparr>)"
    by (rule at_phase_update [OF assms, where p = ?p and f = ?f]) (use c in auto)
  ultimately show ?thesis by blast
qed

lemma finalize_advances:
  assumes "at_phase i a StorageReleased d" and "finalize_cleanup ck i a d = Inr (res, d')"
  shows "at_phase i a ReservationReleased d'"
proof -
  obtain c where c: "find_cleanup d i = Some c" "ca_phase c = ''STORAGE_RELEASED''" "ca_attempt_id c = a"
    "ca_execution_id c = i"
    by (rule at_phaseE [OF assms(1)]) simp
  have only: "c' = c" if "c' \<in> set (cleanups d)" "ca_execution_id c' = i" for c'
    using sql_lookup_in_set [of ca_execution_id "cleanups d" c'] that c(1) assms(1) by (simp add: at_phase_def)
  let ?p = "\<lambda>c. ca_execution_id c = i \<and> ca_attempt_id c = a \<and> ca_phase c = ''STORAGE_RELEASED''"
  let ?f = "\<lambda>c. c\<lparr>ca_phase := ''RESERVATION_RELEASED'', ca_updated_at := ck_db ck\<rparr>"
  show ?thesis
  proof (rule finalize_cleanup_shape [OF assms(2)])
    fix row c'
    assume "find (\<lambda>c. ca_execution_id c = i \<and> ca_attempt_id c = a
           \<and> ca_phase c \<in> set [''STORAGE_RELEASED'', ''RESERVATION_RELEASED'']) (cleanups d) = Some c'"
      and "ca_phase c' = ''RESERVATION_RELEASED''"
    then show ?thesis using only [of c'] c(2) by (auto dest!: find_SomeD)
  next
    fix row c' att d5
    assume d5: "cleanups d5 = sql_update ?p ?f (cleanups d)" "cancellations d5 = cancellations d"
      and last: "if finalize_next (cancellation_pending d i) (decode_execution row) = ex_state row then d' = d5
       else \<exists>kind n. append_in_transaction \<lparr>ev_execution_id = i, ev_attempt_id = Some a,
           ev_sequence = 0, ev_at = ck_utc ck,
           ev_state = finalize_next (cancellation_pending d i) (decode_execution row),
           ev_kind = kind\<rparr> d5 = Inr (n, d')"
    have "cleanups d' = cleanups d5" "cancellations d' = cancellations d5"
      using last append_frame by (auto split: if_splits)
    then show ?thesis
      by (intro at_phase_update [OF assms(1), where p = ?p and f = ?f]) (use c d5 in auto)
  qed
qed

section \<open>The loop\<close>

definition quiet :: "'x worker_env \<Rightarrow> bool" where
  "quiet env \<longleftrightarrow> (\<forall>n d. en_others (we_env env) n d = d) \<and> (\<forall>n. we_link env n = LinkUp)"

text \<open>A lifecycle that performs each step of a cleanup, as the trait's default does.\<close>

definition performs_cleanup :: "'x lifecycle \<Rightarrow> bool" where
  "performs_cleanup lc \<longleftrightarrow>
     (\<forall>c s x. fst (lc_ack_cleanup_authority_step lc c s x) = Replied ())
     \<and> (\<forall>c e s s' x. default_next_step s = Inr s' \<longrightarrow>
          fst (lc_cleanup_authority_step lc c e s x) = Replied s')"

lemma store_quiet:
  "quiet env \<Longrightarrow> store env tx w = (case tx (wd_calls w) (wd_db w) of
     Inl e \<Rightarrow> (Ret (Inl e), w\<lparr>wd_calls := wd_calls w + 1\<rparr>)
   | Inr (a, d') \<Rightarrow> (Ret (Inr a), w\<lparr>wd_calls := wd_calls w + 1, wd_db := d'\<rparr>))"
  by (auto simp: quiet_def store_def Let_def split: sum.split)

lemma persist_quiet:
  "quiet env \<Longrightarrow> persist env tx w = (case tx (wd_calls w) (wd_db w) of
     Inl e \<Rightarrow> (Err (persistence env e), w\<lparr>wd_calls := wd_calls w + 1\<rparr>)
   | Inr (a, d') \<Rightarrow> (Ret a, w\<lparr>wd_calls := wd_calls w + 1, wd_db := d'\<rparr>))"
  by (simp add: persist_def bind_def store_quiet throw_def ret_def split: sum.split)

lemma call_replied:
  "fst (f (wd_ext w)) = Replied a \<Longrightarrow> call f w = (Ret a, w\<lparr>wd_ext := snd (f (wd_ext w))\<rparr>)"
  by (cases "f (wd_ext w)") (simp add: call_def)

lemma bind_Ret: "m w = (Ret a, w') \<Longrightarrow> bind m f w = f a w'"
  by (simp add: bind_def)

lemma bind_Err: "m w = (Err e, w') \<Longrightarrow> bind m f w = (Err e, w')"
  by (simp add: bind_def)

lemma bind_ret [simp]: "bind (ret a) f = f a"
  by (rule ext) (simp add: bind_def ret_def)

lemma default_next_loop:
  assumes "in_cleanup_loop s"
  obtains s' where "default_next_step s = Inr s'" "disposition_can_transition_to s s'"
  using assms by (cases s) (auto simp: in_cleanup_loop_def default_next_step_def disposition_can_transition_to_def)

lemma loop_pass:
  assumes q: "quiet env" and p: "performs_cleanup (we_lifecycle env)"
    and ph: "at_phase i a s (wd_db w)" and c: "ca_execution_id c = i" and l: "in_cleanup_loop s"
    and nxt: "default_next_step s = Inr s'"
  shows "\<exists>w'. cleanup_loop (Suc fuel) env c e s w = cleanup_loop fuel env c e s' w'
    \<and> at_phase i a s' (wd_db w')"
proof -
  let ?lc = "we_lifecycle env"
  have t: "disposition_can_transition_to s s'"
    using default_next_loop [OF l] nxt by (metis sum.inject(2))
  define w1 where "w1 = (if s \<noteq> GitRecoveredCleaned
     then w\<lparr>wd_ext := snd (lc_ack_cleanup_authority_step ?lc c s (wd_ext w))\<rparr> else w)"
  have a1: "(if s \<noteq> GitRecoveredCleaned then call (lc_ack_cleanup_authority_step ?lc c s) else ret ()) w
      = (Ret (), w1)"
    using p by (auto simp: w1_def ret_def performs_cleanup_def intro: call_replied)
  define w2 where "w2 = w1\<lparr>wd_ext := snd (lc_cleanup_authority_step ?lc c e s (wd_ext w1))\<rparr>"
  have "fst (lc_cleanup_authority_step ?lc c e s x) = Replied s'" for x
    using p nxt by (simp add: performs_cleanup_def)
  then have a2: "call (lc_cleanup_authority_step ?lc c e s) w1 = (Ret s', w2)"
    unfolding w2_def by (rule call_replied)
  have "wd_db w2 = wd_db w" by (simp add: w2_def w1_def)
  then obtain d' where d: "cleanup_transition (db_now env (wd_calls w2)) i s s' (ca_handles c) (wd_db w2) = Inr ((), d')"
    and ph': "at_phase i a s' d'"
    using transition_advances [OF ph t] by metis
  define w3 where "w3 = w2\<lparr>wd_calls := wd_calls w2 + 1, wd_db := d'\<rparr>"
  have a3: "persist env (\<lambda>n. cleanup_transition (db_now env n) (ca_execution_id c) s s' (ca_handles c)) w2 = (Ret (), w3)"
    using d by (simp add: persist_quiet [OF q] c w3_def)
  have "cleanup_loop (Suc fuel) env c e s w = cleanup_loop fuel env c e s' w3"
    using l by (simp add: bind_Ret a1 a2 a3)
  with ph' show ?thesis by (intro exI [of _ w3]) (simp add: w3_def)
qed

lemma loop_done:
  "\<not> in_cleanup_loop s \<Longrightarrow> cleanup_loop fuel env c e s w = (Ret s, w)"
  by (cases fuel) (simp_all add: ret_def)

definition passes_left :: "cleanup_disposition \<Rightarrow> nat" where
  "passes_left s = (case s of CleanupPending \<Rightarrow> 4 | RuntimeStopped \<Rightarrow> 3 | RuntimeDestroyed \<Rightarrow> 2
     | GitRecoveredCleaned \<Rightarrow> 1 | _ \<Rightarrow> 0)"

lemma loop_ends:
  assumes "quiet env" and "performs_cleanup (we_lifecycle env)" and "ca_execution_id c = i"
    and "at_phase i a s (wd_db w)" and "s \<in> {CleanupPending, RuntimeStopped, RuntimeDestroyed, GitRecoveredCleaned, StorageReleased}"
    and "passes_left s \<le> fuel"
  shows "\<exists>w'. cleanup_loop fuel env c e s w = (Ret StorageReleased, w') \<and> at_phase i a StorageReleased (wd_db w')"
  using assms(4-)
proof (induction "passes_left s" arbitrary: s w fuel)
  case 0
  then have "s = StorageReleased" by (auto simp: passes_left_def)
  with 0 show ?case by (simp add: loop_done in_cleanup_loop_def)
next
  case (Suc n)
  then obtain s' where s': "default_next_step s = Inr s'" "in_cleanup_loop s" "passes_left s' = n"
    "s' \<in> {CleanupPending, RuntimeStopped, RuntimeDestroyed, GitRecoveredCleaned, StorageReleased}"
    by (cases s) (auto simp: passes_left_def default_next_step_def in_cleanup_loop_def)
  obtain k where k: "fuel = Suc k" "n \<le> k" using Suc.prems(3) Suc.hyps(2) by (cases fuel) auto
  obtain w' where w': "cleanup_loop fuel env c e s w = cleanup_loop k env c e s' w'" "at_phase i a s' (wd_db w')"
    using loop_pass [OF assms(1,2) Suc.prems(1) assms(3) s'(2,1)] k(1) by blast
  show ?case using Suc.hyps(1) [of s' w' k] s' k w' by simp
qed

text \<open>The end of a cleanup: resolved, or refused by the stores when capacity is given back.\<close>

definition recovered :: "'x worker_env \<Rightarrow> execution_id \<Rightarrow> attempt_id \<Rightarrow> unit outcome \<times> 'x world \<Rightarrow> bool" where
  "recovered env i a r \<longleftrightarrow>
     (fst r = Ret () \<and> at_phase i a Resolved (wd_db (snd r)))
     \<or> (\<exists>ck e. fst r = Err (persistence env e) \<and> at_phase i a StorageReleased (wd_db (snd r))
          \<and> finalize_cleanup ck i a (wd_db (snd r)) = Inl e)"

lemma finish_released:
  assumes "quiet env" and "performs_cleanup (we_lifecycle env)" and "ca_execution_id c = i" "ca_attempt_id c = a"
    and "at_phase i a ReservationReleased (wd_db w)"
  shows "\<exists>w'. finish_cleanup env c ReservationReleased w = (Ret (), w') \<and> at_phase i a Resolved (wd_db w')"
proof -
  let ?ack = "lc_ack_cleanup_authority_step (we_lifecycle env) c ReservationReleased"
  define w1 where "w1 = w\<lparr>wd_ext := snd (?ack (wd_ext w))\<rparr>"
  have a1: "call ?ack w = (Ret (), w1)"
    unfolding w1_def using assms(2) by (intro call_replied) (simp add: performs_cleanup_def)
  obtain d' where "cleanup_resolve (db_now env (wd_calls w1)) i (wd_db w1) = Inr ((), d')" "at_phase i a Resolved d'"
    using resolve_advances [OF assms(5)] by (auto simp: w1_def)
  then show ?thesis
    using assms(3) by (simp add: finish_cleanup_def bind_Ret a1 persist_quiet [OF assms(1)])
qed

lemma finish_recovers:
  assumes q: "quiet env" and p: "performs_cleanup (we_lifecycle env)"
    and c: "ca_execution_id c = i" "ca_attempt_id c = a"
    and s: "at_phase i a s (wd_db w)" "s \<in> {StorageReleased, ReservationReleased}"
  shows "recovered env i a (finish_cleanup env c s w)"
proof (cases "s = ReservationReleased")
  case True
  with finish_released [OF q p c, of w] s(1) obtain w' where
    "finish_cleanup env c s w = (Ret (), w')" "at_phase i a Resolved (wd_db w')" by auto
  then show ?thesis by (simp add: recovered_def)
next
  case False
  then have st: "s = StorageReleased" using s by simp
  let ?tx = "\<lambda>n. finalize_cleanup (clock_at env n) (ca_execution_id c) (ca_attempt_id c)"
  show ?thesis
  proof (cases "?tx (wd_calls w) (wd_db w)")
    case (Inl e)
    then have "persist env ?tx w = (Err (persistence env e), w\<lparr>wd_calls := wd_calls w + 1\<rparr>)"
      by (simp add: persist_quiet [OF q])
    then have "finish_cleanup env c s w = (Err (persistence env e), w\<lparr>wd_calls := wd_calls w + 1\<rparr>)"
      by (simp add: finish_cleanup_def st bind_def)
    then show ?thesis using Inl s st c by (auto simp: recovered_def)
  next
    case (Inr r)
    obtain res d' where r: "r = (res, d')" by (cases r)
    let ?w = "w\<lparr>wd_calls := wd_calls w + 1, wd_db := d'\<rparr>"
    have "persist env ?tx w = (Ret res, ?w)" using Inr r by (simp add: persist_quiet [OF q])
    then have "finish_cleanup env c s w = finish_cleanup env c ReservationReleased ?w"
      by (simp add: finish_cleanup_def st bind_def ret_def)
    moreover have "at_phase i a ReservationReleased (wd_db ?w)"
      using finalize_advances [of i a "wd_db w"] s st Inr r c by simp
    ultimately show ?thesis using finish_released [OF q p c, of ?w] by (auto simp: recovered_def)
  qed
qed


text \<open>An authority a restart finds with the runtime stopped.\<close>

definition demo_stopped :: cleanup_row where
  "demo_stopped = demo_authority\<lparr>ca_phase := ''RUNTIME_STOPPED''\<rparr>"

lemma demo_quiet: "quiet demo_worker_env"
  by (simp add: quiet_def demo_worker_env_def)

lemma demo_performs: "performs_cleanup (we_lifecycle demo_worker_env)"
  by (simp add: performs_cleanup_def demo_worker_env_def demo_lifecycle_def default_cleanup_step_def)


end
