(* ===== verification/Worker_Run.thy ===== *)
theory Worker_Run
  imports Worker_Recovery
begin

text \<open>
  Running one execution (\<open>orchestrator-worker/src/run.rs\<close>): from the claimed reservation through
  storage, worktree, runtime and agent to the review, the controls that arrive meanwhile, adoption
  after a restart, and the cleanup that ends each of them.

  The execution a task tracks and its guard are part of the world; the session, the monitor and
  the throttle of the drive loop are a record of their own. The loop is a function of fuel, one
  unit for each pass, and is still running where the fuel is spent.
\<close>

section \<open>Shared steps\<close>

definition refuse :: "string \<Rightarrow> ('x, 'a) act" where
  "refuse message = throw (WInvalid message)"

definition require :: "'a option \<Rightarrow> string \<Rightarrow> ('x, 'a) act" where
  "require x message = (case x of Some a \<Rightarrow> ret a | None \<Rightarrow> refuse message)"

text \<open>\<open>Execution::transition\<close> on the tracked execution.\<close>

definition move_to :: "'x worker_env \<Rightarrow> execution_state \<Rightarrow> ('x, unit) act" where
  "move_to env nxt = bind get_tracked (\<lambda>execution. bind (utc_now env) (\<lambda>now.
     case execution_transition now nxt execution of
       Inl e \<Rightarrow> refuse (core_error_text e) | Inr execution \<Rightarrow> set_tracked execution))"

definition write_progress :: "'x worker_env \<Rightarrow> bool \<Rightarrow> execution_event \<Rightarrow> ('x, unit) act" where
  "write_progress env retention event = bind get_tracked (\<lambda>execution.
     bind (persist env (\<lambda>n. record_progress (db_now env n) retention execution event)) (\<lambda>_. ret ()))"

definition record_kind :: "'x worker_env \<Rightarrow> event_kind \<Rightarrow> ('x, unit) act" where
  "record_kind env kind = bind get_tracked (\<lambda>execution. bind (utc_now env) (\<lambda>at.
     write_progress env False (execution_event_of execution at kind)))"

definition persist_failure :: "'x worker_env \<Rightarrow> failure_class \<Rightarrow> ('x, unit) act" where
  "persist_failure env failure =
     bind (move_to env Failed) (\<lambda>_.
     bind get_tracked (\<lambda>execution.
     bind (set_tracked (execution\<lparr>ex_result := Some (failed_result (ex_id execution) failure)\<rparr>)) (\<lambda>_.
       record_kind env (ExecutionFailed failure))))"

definition failure_debug :: "failure_class \<Rightarrow> string" where
  "failure_debug failure = (case failure of
     EnvironmentFailed \<Rightarrow> ''EnvironmentFailed'' | HarnessFailed \<Rightarrow> ''HarnessFailed''
   | ModelFailed \<Rightarrow> ''ModelFailed'' | Timeout \<Rightarrow> ''Timeout'' | Inactivity \<Rightarrow> ''Inactivity''
   | ResourceViolation \<Rightarrow> ''ResourceViolation'' | WorkerLost \<Rightarrow> ''WorkerLost''
   | CancelledByClient \<Rightarrow> ''CancelledByClient'' | TaskFailed \<Rightarrow> ''TaskFailed'' | Internal \<Rightarrow> ''Internal'')"

definition fail_with :: "'x worker_env \<Rightarrow> failure_class \<Rightarrow> ('x, 'a) act" where
  "fail_with env failure = bind (persist_failure env failure) (\<lambda>_.
     throw (WLifecycle (''execution failed: '' @ failure_debug failure)))"

definition transition_cleanup ::
  "'x worker_env \<Rightarrow> cleanup_disposition \<Rightarrow> cleanup_disposition \<Rightarrow> ('x, unit) act" where
  "transition_cleanup env expected nxt = bind get_tracked (\<lambda>execution. bind get_guard (\<lambda>guard.
     persist env (\<lambda>n. cleanup_transition (db_now env n) (ex_id execution) expected nxt
       (cleanup_handles execution guard))))"

definition fence_tracked :: "'x worker_env \<Rightarrow> ('x, unit) act" where
  "fence_tracked env = bind get_tracked (\<lambda>execution. bind get_guard (\<lambda>guard.
     persist env (\<lambda>n. fence_for_cleanup (db_now env n) (ex_id execution) (cleanup_handles execution guard))))"

definition requires_diff :: "role \<Rightarrow> bool" where
  "requires_diff r \<longleftrightarrow> r \<in> set [Implementation, Documentation]"

section \<open>Controls\<close>

record drive =
  dr_session :: session_ref
  dr_health :: health_monitor
  dr_throttle :: sample_throttle

definition pause_monitor :: "'x worker_env \<Rightarrow> drive \<Rightarrow> ('x, drive) act" where
  "pause_monitor env dv = bind (instant_now env) (\<lambda>now. ret (dv\<lparr>dr_health := monitor_pause now (dr_health dv)\<rparr>))"

definition resume_monitor :: "'x worker_env \<Rightarrow> drive \<Rightarrow> ('x, drive) act" where
  "resume_monitor env dv = bind (instant_now env) (\<lambda>now. ret (dv\<lparr>dr_health := monitor_resume now (dr_health dv)\<rparr>))"

definition resume_session :: "'x worker_env \<Rightarrow> string \<Rightarrow> session_ref \<Rightarrow> ('x, unit) act" where
  "resume_session env who session = bind get_tracked (\<lambda>execution. bind get_guard (\<lambda>guard.
     bind (require (cg_receipt guard) (who @ '' lacks storage authority'')) (\<lambda>receipt.
     bind (require (cg_environment guard) (who @ '' lacks runtime authority'')) (\<lambda>environment.
       call (lc_resume (we_lifecycle env) execution receipt environment session)))))"

definition control_pause :: "'x worker_env \<Rightarrow> bool \<Rightarrow> drive \<Rightarrow> ('x, event_kind \<times> drive) act" where
  "control_pause env already_applied dv = bind get_tracked (\<lambda>execution.
     if ex_state execution \<noteq> Running then refuse ''pause requires RUNNING''
     else
       bind (if already_applied then ret () else call (lc_pause (we_lifecycle env) execution (dr_session dv))) (\<lambda>_.
       bind (pause_monitor env dv) (\<lambda>dv.
       bind (move_to env PausedForHuman) (\<lambda>_. ret (ExecutionPaused, dv)))))"

definition control_resume :: "'x worker_env \<Rightarrow> drive \<Rightarrow> ('x, event_kind \<times> drive) act" where
  "control_resume env dv = bind get_tracked (\<lambda>execution.
     if ex_state execution \<noteq> PausedForHuman then refuse ''resume requires PAUSED_FOR_HUMAN''
     else
       bind (resume_session env ''resume'' (dr_session dv)) (\<lambda>_.
       bind (resume_monitor env dv) (\<lambda>dv.
       bind (move_to env Running) (\<lambda>_. ret (ExecutionResumed, dv)))))"

text \<open>The fork of a conversation that has not been made yet.\<close>

definition launch_fork ::
  "'x worker_env \<Rightarrow> bool \<Rightarrow> session_id \<Rightarrow> drive \<Rightarrow> ('x, session_ref \<times> drive) act" where
  "launch_fork env was_running target dv = bind get_tracked (\<lambda>execution.
     bind (if was_running
           then bind (call (lc_pause (we_lifecycle env) execution (dr_session dv))) (\<lambda>_. pause_monitor env dv)
           else ret dv) (\<lambda>dv.
     bind (call (lc_fork_conversation (we_lifecycle env) execution (dr_session dv) target)) (\<lambda>forked.
     bind (call (lc_pause (we_lifecycle env) execution forked)) (\<lambda>_.
       if was_running
       then bind (resume_session env ''fork resume'' forked) (\<lambda>_.
            bind (resume_monitor env dv) (\<lambda>dv. ret (forked, dv)))
       else ret (forked, dv)))))"

definition replay_fork ::
  "'x worker_env \<Rightarrow> bool \<Rightarrow> session_id \<Rightarrow> drive \<Rightarrow> ('x, session_ref \<times> drive) act" where
  "replay_fork env was_running target dv = bind get_tracked (\<lambda>execution.
     let forked = \<lparr>sf_id = target, sf_path = sf_path (dr_session dv), sf_execution_id = ex_id execution,
           sf_worktree_path = sf_worktree_path (dr_session dv)\<rparr> in
     if was_running
     then bind (resume_session env ''fork resume'' forked) (\<lambda>_.
          bind (resume_monitor env dv) (\<lambda>dv. ret (forked, dv)))
     else ret (forked, dv))"

definition control_fork ::
  "'x worker_env \<Rightarrow> bool \<Rightarrow> pending_control \<Rightarrow> drive \<Rightarrow> ('x, event_kind \<times> drive) act" where
  "control_fork env already_applied control dv =
     bind (require (pn_target_session_id control) ''conversation fork lacks fenced target'') (\<lambda>target.
     let was_running = (pn_accepted_state control = Running) in
     bind (if already_applied then replay_fork env was_running target dv
           else launch_fork env was_running target dv) (\<lambda>(forked, dv).
     bind get_tracked (\<lambda>execution.
       if sf_execution_id forked \<noteq> ex_id execution
          \<or> sf_worktree_path forked \<noteq> sf_worktree_path (dr_session dv) \<or> sf_id forked = sf_id (dr_session dv)
       then refuse ''conversation fork changed execution/workspace authority''
       else
         bind (set_guard (\<lambda>g. g\<lparr>cg_session := Some forked\<rparr>)) (\<lambda>_.
         bind (utc_now env) (\<lambda>now.
         bind (set_tracked (execution\<lparr>ex_session_id := Some (sf_id forked), ex_updated_at := now\<rparr>)) (\<lambda>_.
           ret (ConversationForked (sf_id forked), dv\<lparr>dr_session := forked\<rparr>)))))))"

definition apply_control :: "'x worker_env \<Rightarrow> pending_control \<Rightarrow> drive \<Rightarrow> ('x, event_kind \<times> drive) act" where
  "apply_control env control dv =
     (let already_applied = (pn_phase control = SideEffectApplied) in
      case cq_action (pn_request control) of
        Pause \<Rightarrow> control_pause env already_applied dv
      | Resume \<Rightarrow> control_resume env dv
      | ForkConversation \<Rightarrow> control_fork env already_applied control dv)"

definition handle_control :: "'x worker_env \<Rightarrow> pending_control \<Rightarrow> drive \<Rightarrow> ('x, drive) act" where
  "handle_control env control dv = bind get_tracked (\<lambda>execution.
     let request_id = cq_request_id (pn_request control) in
     if cq_execution_id (pn_request control) \<noteq> ex_id execution
     then refuse ''interactive control belongs to another execution''
     else
       bind (require (ex_attempt_id execution) ''interactive control lacks attempt'') (\<lambda>attempt.
       bind (require (ex_worker_id execution) ''interactive control lacks worker'') (\<lambda>worker.
       bind (persist_inner env (\<lambda>n. begin_control (db_now env n) request_id worker attempt)) (\<lambda>_.
       bind (apply_control env control dv) (\<lambda>(kind, dv).
       bind get_tracked (\<lambda>execution.
       bind (persist_inner env (\<lambda>n. mark_control_side_effect_applied (db_now env n) request_id
              (ex_session_id execution))) (\<lambda>_.
       bind (persist_inner env (\<lambda>n. complete_control (db_now env n) request_id execution
              (execution_event_of execution (ex_updated_at execution) kind))) (\<lambda>_.
         ret dv))))))))"

section \<open>The drive loop\<close>

text \<open>A call the select macro drops, with what it had done by then.\<close>

definition dropped :: "'x worker_env \<Rightarrow> ('x, 'a) lc \<Rightarrow> ('x, unit) act" where
  "dropped env f = bind (ask (we_late env)) (\<lambda>began w.
     (Ret (), if began then w\<lparr>wd_ext := snd (f (wd_ext w))\<rparr> else w))"

datatype 'a selected = Took 'a | TookControl pending_control

text \<open>A select over a lifecycle call, the channel of controls and the cancellation flag.\<close>

definition select_call :: "'x worker_env \<Rightarrow> string \<Rightarrow> ('x, 'a) lc \<Rightarrow> ('x, 'a selected) act" where
  "select_call env closed f = bind (ask (we_wake env)) (\<lambda>woke. case woke of
     WokeReady \<Rightarrow> bind (call f) (\<lambda>a. ret (Took a))
   | WokeControl control \<Rightarrow> bind (dropped env f) (\<lambda>_. ret (TookControl control))
   | WokeClosed \<Rightarrow> bind (dropped env f) (\<lambda>_. refuse closed)
   | WokeCancelled \<Rightarrow> bind (dropped env f) (\<lambda>_. throw WCancelled))"

definition select_paused :: "'x worker_env \<Rightarrow> ('x, pending_control) act" where
  "select_paused env = bind (ask (we_wake env)) (\<lambda>woke. case woke of
     WokeReady \<Rightarrow> still_running
   | WokeControl control \<Rightarrow> ret control
   | WokeClosed \<Rightarrow> refuse ''interactive control channel closed while paused''
   | WokeCancelled \<Rightarrow> throw WCancelled)"

text \<open>\<open>chrono::Duration::from_std\<close> with its default where the duration has no such form.\<close>

definition chrono_duration :: "duration \<Rightarrow> int" where
  "chrono_duration t = (if int t \<le> (2 ^ 63 - 1) * 10 ^ 6 then int t else 0)"

definition emit_sample ::
  "'x worker_env \<Rightarrow> resource_sample \<Rightarrow> watchdog_verdict \<Rightarrow> drive \<Rightarrow> ('x, drive) act" where
  "emit_sample env sample verdict dv = bind (instant_now env) (\<lambda>now.
     if is_due now verdict (dr_throttle dv)
     then
       bind (utc_now env) (\<lambda>utc.
       let last_progress_at = utc - chrono_duration (now - hm_last_progress_at (dr_health dv)) in
       bind (record_kind env (WatchdogSample verdict (sm_current_command sample) (Some last_progress_at)
              (Some (we_f64_text env (sm_cpu_percent sample))) (sm_rss_bytes sample) (sm_io_bytes sample)
              (sm_disk_bytes sample))) (\<lambda>_.
         ret (dv\<lparr>dr_throttle := mark_emitted now verdict (dr_throttle dv)\<rparr>)))
     else ret dv)"

definition act_on :: "'x worker_env \<Rightarrow> health_assessment \<Rightarrow> ('x, unit) act" where
  "act_on env assessment = (case assessment of
     AssessedHealthy \<Rightarrow> ret ()
   | AssessedQuiet _ \<Rightarrow> ret ()
   | InactiveWarning quiet_for \<Rightarrow> record_kind env (AgentInactive quiet_for)
   | AssessedFailed failure \<Rightarrow> fail_with env failure)"

definition failure_event :: "event_kind \<Rightarrow> failure_class option" where
  "failure_event kind = (case kind of ExecutionFailed failure \<Rightarrow> Some failure | _ \<Rightarrow> None)"

text \<open>Recording the polled events; true where the loop is left.\<close>

fun record_events :: "'x worker_env \<Rightarrow> execution_event list \<Rightarrow> ('x, bool) act" where
  "record_events env [] = ret False"
| "record_events env (event # polled) =
     (if ev_kind event = ReviewReadyEvent then ret True
      else case failure_event (ev_kind event) of
        Some failure \<Rightarrow> fail_with env failure
      | None \<Rightarrow>
          bind get_tracked (\<lambda>execution.
          bind (write_progress env False (event\<lparr>ev_state := ex_state execution,
                  ev_attempt_id := ex_attempt_id execution\<rparr>)) (\<lambda>_.
            record_events env polled)))"

text \<open>From the resource sample to the end of a pass.\<close>

definition assess_round ::
  "'x worker_env \<Rightarrow> execution_event list \<Rightarrow> drive \<Rightarrow> resource_sample \<Rightarrow> ('x, bool \<times> drive) act" where
  "assess_round env polled dv sample = bind (instant_now env) (\<lambda>now.
     let (assessment, health) = assess now sample (dr_health dv) in
     bind (emit_sample env sample (verdict_of assessment) (dv\<lparr>dr_health := health\<rparr>)) (\<lambda>dv.
     bind (act_on env assessment) (\<lambda>_.
     bind (record_events env polled) (\<lambda>settled. ret (settled, dv)))))"

definition health_round ::
  "'x worker_env \<Rightarrow> execution_event list \<Rightarrow> drive \<Rightarrow> ('x, bool \<times> drive) act" where
  "health_round env polled dv =
     bind (if polled = [] then ret dv
           else bind (instant_now env) (\<lambda>now. ret (dv\<lparr>dr_health := record_event now (dr_health dv)\<rparr>))) (\<lambda>dv.
     bind get_tracked (\<lambda>execution.
     bind (select_call env ''interactive control channel closed during health probe''
            (lc_resource_sample (we_lifecycle env) execution)) (\<lambda>took. case took of
       TookControl control \<Rightarrow> bind (handle_control env control dv) (\<lambda>dv. ret (False, dv))
     | Took sample \<Rightarrow> assess_round env polled dv sample)))"

definition drive_round :: "'x worker_env \<Rightarrow> drive \<Rightarrow> ('x, bool \<times> drive) act" where
  "drive_round env dv = bind (ask (we_cancelled env)) (\<lambda>cancelled.
     if cancelled then throw WCancelled
     else bind get_tracked (\<lambda>execution.
       if ex_state execution = PausedForHuman
       then bind (select_paused env) (\<lambda>control.
            bind (handle_control env control dv) (\<lambda>dv. ret (False, dv)))
       else bind (select_call env ''interactive control channel closed while running''
                   (lc_poll (we_lifecycle env) execution (dr_session dv))) (\<lambda>took. case took of
              TookControl control \<Rightarrow> bind (handle_control env control dv) (\<lambda>dv. ret (False, dv))
            | Took polled \<Rightarrow> health_round env polled dv)))"

fun drive_loop :: "nat \<Rightarrow> 'x worker_env \<Rightarrow> drive \<Rightarrow> ('x, session_ref) act" where
  "drive_loop 0 env dv = still_running"
| "drive_loop (Suc fuel) env dv = bind (drive_round env dv) (\<lambda>(settled, dv).
     if settled then ret (dr_session dv) else drive_loop fuel env dv)"

text \<open>After the loop: evidence, the result, and the hand-over to cleanup or retention.\<close>

definition review_result :: "execution \<Rightarrow> git_worktree \<Rightarrow> string \<Rightarrow> execution_result" where
  "review_result execution worktree artifact =
     \<lparr>rs_execution_id = ex_id execution, rs_state = ex_state execution, rs_failure = None,
      rs_branch = Some (wt_branch worktree), rs_base_sha = Some (wt_base_sha worktree),
      rs_diff_artifact = Some artifact, rs_artifacts = [], rs_tests = None\<rparr>"

definition hand_over :: "'x worker_env \<Rightarrow> execution_result \<Rightarrow> execution \<Rightarrow> ('x, execution_result) act" where
  "hand_over env result execution =
     bind (set_tracked execution) (\<lambda>_.
     bind (transition_cleanup env (Active StageRunning) (Active StagePostPiBeforeEvent)) (\<lambda>_.
     bind (utc_now env) (\<lambda>at.
     bind (if mf_persistence (ex_manifest execution) = Resumable
           then write_progress env True (execution_event_of execution at ReviewReadyEvent)
           else bind (write_progress env False (execution_event_of execution at ReviewReadyEvent)) (\<lambda>_.
                  fence_tracked env)) (\<lambda>_.
       ret result))))"

definition publish_review :: "'x worker_env \<Rightarrow> git_worktree \<Rightarrow> string \<Rightarrow> ('x, execution_result) act" where
  "publish_review env worktree artifact =
     bind (move_to env ReviewReady) (\<lambda>_.
     bind get_tracked (\<lambda>execution.
     let result = review_result execution worktree artifact in
       hand_over env result (execution\<lparr>ex_result := Some result\<rparr>)))"

definition settle_review :: "'x worker_env \<Rightarrow> git_worktree \<Rightarrow> session_ref \<Rightarrow> ('x, execution_result) act" where
  "settle_review env worktree session =
     bind (set_guard (\<lambda>g. g\<lparr>cg_session := Some session\<rparr>)) (\<lambda>_.
     bind (stop_agent env) (\<lambda>_.
     bind (call (lc_capture (we_lifecycle env) worktree)) (\<lambda>capture.
     bind get_tracked (\<lambda>execution.
     bind (call (lc_persist_evidence (we_lifecycle env) execution capture)) (\<lambda>artifact.
       if requires_diff (mf_role (ex_manifest execution)) \<and> dc_changed_files capture = []
       then fail_with env TaskFailed
       else publish_review env worktree artifact)))))"

definition drive_running ::
  "nat \<Rightarrow> 'x worker_env \<Rightarrow> git_worktree \<Rightarrow> session_ref \<Rightarrow> ('x, execution_result) act" where
  "drive_running fuel env worktree session = bind (instant_now env) (\<lambda>started_at.
     bind get_tracked (\<lambda>execution.
     let health = default_at started_at;
         health = (if ex_state execution = PausedForHuman then monitor_pause started_at health else health) in
     bind (drive_loop fuel env \<lparr>dr_session = session, dr_health = health, dr_throttle = empty_throttle\<rparr>) (\<lambda>session.
       settle_review env worktree session)))"

section \<open>A fresh attempt and an adopted one\<close>

definition run_inner :: "nat \<Rightarrow> 'x worker_env \<Rightarrow> ('x, execution_result) act" where
  "run_inner fuel env = bind get_tracked (\<lambda>execution.
     if ex_state execution \<noteq> WorkerAssigned
     then refuse (''execution '' @ ex_id execution @ '' is '' @ state_debug (ex_state execution)
            @ '', not WORKER_ASSIGNED'')
     else
     bind (ask (we_cancelled env)) (\<lambda>cancelled.
     if cancelled then throw WCancelled
     else
     bind (call (lc_allocate (we_lifecycle env) execution)) (\<lambda>receipt.
     bind (set_guard (\<lambda>g. g\<lparr>cg_receipt := Some receipt\<rparr>)) (\<lambda>_.
     bind (transition_cleanup env (Active StageReserved) (Active StageStorage)) (\<lambda>_.
     bind (call (lc_create_worktree (we_lifecycle env) execution receipt)) (\<lambda>worktree.
     bind (set_tracked (execution\<lparr>ex_worktree_path := Some (wt_path worktree)\<rparr>)) (\<lambda>_.
     bind (set_guard (\<lambda>g. g\<lparr>cg_worktree := Some worktree\<rparr>)) (\<lambda>_.
     bind (transition_cleanup env (Active StageStorage) (Active StageWorktree)) (\<lambda>_.
     bind (move_to env Provisioning) (\<lambda>_.
     bind (set_guard (\<lambda>g. g\<lparr>cg_runtime_created := True\<rparr>)) (\<lambda>_.
     bind (transition_cleanup env (Active StageWorktree) (Active StageRuntime)) (\<lambda>_.
     bind get_tracked (\<lambda>execution.
     bind (call (lc_provision (we_lifecycle env) execution receipt worktree)) (\<lambda>environment.
     bind (set_guard (\<lambda>g. g\<lparr>cg_environment := Some environment\<rparr>)) (\<lambda>_.
     bind (record_kind env EnvironmentReady) (\<lambda>_.
     bind (require (mf_task_packet (ex_manifest execution)) ''execution manifest lacks compact TaskPacket'') (\<lambda>packet.
     bind (call (lc_start (we_lifecycle env) execution receipt environment worktree packet)) (\<lambda>session.
     bind (set_tracked (execution\<lparr>ex_session_id := Some (sf_id session)\<rparr>)) (\<lambda>_.
     bind (set_guard (\<lambda>g. g\<lparr>cg_session := Some session\<rparr>)) (\<lambda>_.
     bind (transition_cleanup env (Active StageRuntime) (Active StagePiStarted)) (\<lambda>_.
     bind (move_to env Running) (\<lambda>_.
     bind (transition_cleanup env (Active StagePiStarted) (Active StageRunning)) (\<lambda>_.
       drive_running fuel env worktree session)))))))))))))))))))))))"

definition adopt_state :: "'x worker_env \<Rightarrow> ('x, unit) act" where
  "adopt_state env = bind get_tracked (\<lambda>execution.
     if ex_state execution = Provisioning then move_to env Running
     else if ex_state execution \<notin> set [Running, PausedForHuman]
     then refuse (''execution '' @ ex_id execution @ '' is '' @ state_debug (ex_state execution)
            @ '', not RUNNING'')
     else ret ())"

definition adopt_inner :: "nat \<Rightarrow> 'x worker_env \<Rightarrow> ('x, execution_result) act" where
  "adopt_inner fuel env =
     bind (adopt_state env) (\<lambda>_.
     bind get_tracked (\<lambda>execution.
     bind (call (lc_adopt (we_lifecycle env) execution)) (\<lambda>adopted.
     bind (set_guard (\<lambda>g. g\<lparr>cg_receipt := Some (ad_receipt adopted), cg_worktree := Some (ad_worktree adopted),
            cg_environment := Some (ad_environment adopted), cg_runtime_created := True,
            cg_session := Some (ad_session adopted)\<rparr>)) (\<lambda>_.
     bind (require (ex_worker_id execution) ''adopted execution lacks worker authority'') (\<lambda>worker.
     bind (persist env (read_only (list_pending_controls worker))) (\<lambda>pending.
     let has_pending_control = list_ex (\<lambda>c. cq_execution_id (pn_request c) = ex_id execution) pending in
     bind (if ex_state execution = Running \<and> \<not> has_pending_control
           then call (lc_resume (we_lifecycle env) execution (ad_receipt adopted) (ad_environment adopted)
                  (ad_session adopted))
           else ret ()) (\<lambda>_.
     bind (transition_cleanup env (Active StageRunning) (Active StageRunning)) (\<lambda>_.
       drive_running fuel env (ad_worktree adopted) (ad_session adopted)))))))))"

section \<open>Cleanup and the end of a task\<close>

definition cleanup_phases :: "'x worker_env \<Rightarrow> ('x, unit) act" where
  "cleanup_phases env = bind get_tracked (\<lambda>execution.
     bind (persist env (read_only (cleanup_get (ex_id execution)))) (\<lambda>authority.
     bind (disposition_of env authority) (\<lambda>disposition.
     bind (if disposition \<noteq> CleanupPending then fence_tracked env else ret ()) (\<lambda>_.
     bind (stop_runtime_process env) (\<lambda>_.
     bind (transition_cleanup env CleanupPending RuntimeStopped) (\<lambda>_.
     bind (guard_destroy_runtime env) (\<lambda>_.
     bind (transition_cleanup env RuntimeStopped RuntimeDestroyed) (\<lambda>_.
     bind (guard_destroy_worktree env) (\<lambda>_.
     bind (transition_cleanup env RuntimeDestroyed GitRecoveredCleaned) (\<lambda>_.
     bind (guard_release_storage env) (\<lambda>_.
       transition_cleanup env GitRecoveredCleaned StorageReleased)))))))))))"

definition retain_for_resume :: "execution \<Rightarrow> worker_error + execution_result \<Rightarrow> bool" where
  "retain_for_resume execution outcome \<longleftrightarrow>
     \<not> isl outcome \<and> mf_persistence (ex_manifest execution) = Resumable \<and> \<not> is_terminal (ex_state execution)"

text \<open>The texts pushed to \<open>cleanup_errors\<close> by a store call and by a step of the worker.\<close>

definition store_errors :: "'x worker_env \<Rightarrow> (nat \<Rightarrow> 'a tx) \<Rightarrow> ('x, string list) act" where
  "store_errors env tx = bind (store env tx) (\<lambda>r. case r of
     Inl e \<Rightarrow> ret [store_error_text (we_db_error env) e] | Inr _ \<Rightarrow> ret [])"

definition step_errors :: "('x, 'a) act \<Rightarrow> ('x, string list) act" where
  "step_errors m = bind (try_act m) (\<lambda>r. case r of Inl e \<Rightarrow> ret [worker_error_text e] | Inr _ \<Rightarrow> ret [])"

definition acknowledge_release :: "'x worker_env \<Rightarrow> execution_id \<Rightarrow> ('x, string list) act" where
  "acknowledge_release env i = bind (store env (read_only (cleanup_get i))) (\<lambda>r. case r of
     Inl e \<Rightarrow> ret [store_error_text (we_db_error env) e]
   | Inr authority \<Rightarrow>
       step_errors (call (lc_ack_cleanup_authority_step (we_lifecycle env) authority ReservationReleased)))"

definition finish_release ::
  "'x worker_env \<Rightarrow> execution_id \<Rightarrow> attempt_id \<Rightarrow> string list \<Rightarrow> ('x, string list) act" where
  "finish_release env i attempt errors =
     bind (store env (\<lambda>n. finalize_cleanup (clock_at env n) i attempt)) (\<lambda>r. case r of
       Inl e \<Rightarrow> ret (errors @ [store_error_text (we_db_error env) e])
     | Inr _ \<Rightarrow>
         bind (acknowledge_release env i) (\<lambda>more.
         let errors = errors @ more in
         if errors = []
         then store_errors env (\<lambda>n. cleanup_resolve (db_now env n) i)
         else ret errors))"

definition with_cleanup_errors ::
  "string list \<Rightarrow> worker_error + execution_result \<Rightarrow> ('x, execution_result) act" where
  "with_cleanup_errors errors outcome =
     (if errors = [] then case outcome of Inl e \<Rightarrow> throw e | Inr r \<Rightarrow> ret r
      else let cleanup = join_errors errors in
        case outcome of
          Inr _ \<Rightarrow> throw (WCleanup cleanup)
        | Inl e \<Rightarrow> throw (WExecutionAndCleanup (worker_error_text e) cleanup))"

definition finish_task ::
  "'x worker_env \<Rightarrow> execution_id \<Rightarrow> attempt_id \<Rightarrow> bool \<Rightarrow> string list \<Rightarrow> worker_error + execution_result
   \<Rightarrow> ('x, execution_result) act" where
  "finish_task env i attempt cancellation errors outcome = bind get_tracked (\<lambda>tracked.
     if retain_for_resume tracked outcome
     then bind (persist env (\<lambda>n. commit_retained_and_release_capacity (db_now env n) i attempt)) (\<lambda>_.
            case outcome of Inl e \<Rightarrow> throw e | Inr r \<Rightarrow> ret r)
     else
       bind (try_act (cleanup_phases env)) (\<lambda>cleaned.
       bind (case cleaned of
               Inr _ \<Rightarrow> finish_release env i attempt errors
             | Inl e \<Rightarrow> ret (errors @ [worker_error_text e])) (\<lambda>errors.
       bind (if errors = [] \<and> cancellation
             then store_errors env (\<lambda>n. complete_cancellation (clock_at env n) i attempt)
             else ret errors) (\<lambda>errors.
         with_cleanup_errors errors outcome))))"

text \<open>What follows the body of a task: the durable cancellation and the recorded failure.\<close>

definition observe_end ::
  "'x worker_env \<Rightarrow> execution_id \<Rightarrow> (cleanup_guard \<Rightarrow> failure_class) \<Rightarrow> worker_error + execution_result
   \<Rightarrow> ('x, bool \<times> string list) act" where
  "observe_end env i failure outcome =
     bind (store env (cancellation_lookup i)) (\<lambda>lookup.
     let cancellation = (outcome = Inl WCancelled \<or> lookup = Inr True);
         errors = (case lookup of
           Inl e \<Rightarrow> [''read durable cancellation request: '' @ store_error_text (we_db_error env) e]
         | Inr _ \<Rightarrow> []) in
     bind get_tracked (\<lambda>tracked.
     bind get_guard (\<lambda>guard.
     bind (if isl outcome \<and> \<not> is_terminal (ex_state tracked) \<and> \<not> cancellation
           then step_errors (persist_failure env (failure guard)) else ret []) (\<lambda>more.
       ret (cancellation, errors @ more)))))"

definition run_failure :: "cleanup_guard \<Rightarrow> failure_class" where
  "run_failure guard =
     (if cg_environment guard = None then EnvironmentFailed
      else if cg_session guard \<noteq> None then HarnessFailed else Internal)"

definition begin_task :: "execution \<Rightarrow> ('x, unit) act" where
  "begin_task execution = bind (set_guard (\<lambda>_. new_guard execution)) (\<lambda>_. set_tracked execution)"

definition run_with_cancel_and_controls :: "nat \<Rightarrow> 'x worker_env \<Rightarrow> execution \<Rightarrow> ('x, execution_result) act" where
  "run_with_cancel_and_controls fuel env execution =
     bind (require (ex_attempt_id execution) ''execution lacks attempt authority'') (\<lambda>attempt.
     bind (require (ex_worker_id execution) ''execution lacks worker authority'') (\<lambda>worker.
     bind (store env (\<lambda>n. cleanup_begin (db_now env n) (ex_id execution) attempt worker)) (\<lambda>begun.
     case begun of
       Inl e \<Rightarrow>
         bind (store env (\<lambda>n. release (db_now env n) (ex_id execution))) (\<lambda>released.
         case released of
           Inr _ \<Rightarrow> throw (persistence env e)
         | Inl e' \<Rightarrow> throw (WExecutionAndCleanup (worker_error_text (persistence env e))
             (''release conflicting reservation: '' @ store_error_text (we_db_error env) e')))
     | Inr _ \<Rightarrow>
         bind (begin_task execution) (\<lambda>_.
         bind (try_act (catch_unwind (run_inner fuel env))) (\<lambda>outcome.
         bind (observe_end env (ex_id execution) run_failure outcome) (\<lambda>(cancellation, errors).
           finish_task env (ex_id execution) attempt cancellation errors outcome))))))"

definition adoption_recovery ::
  "nat \<Rightarrow> 'x worker_env \<Rightarrow> execution_id \<Rightarrow> string list \<Rightarrow> worker_error \<Rightarrow> ('x, execution_result) act" where
  "adoption_recovery fuel env i errors error =
     bind (store env (read_only (cleanup_get i))) (\<lambda>got.
     bind (case got of
             Inl e \<Rightarrow> ret [store_error_text (we_db_error env) e]
           | Inr authority \<Rightarrow> bind get_tracked (\<lambda>tracked.
               step_errors (recover_cleanup_authority fuel env authority tracked))) (\<lambda>more.
     let errors = errors @ map (\<lambda>e. ''durable adoption cleanup remains unresolved: '' @ e) more in
     if errors = [] then throw error
     else throw (WExecutionAndCleanup (worker_error_text error) (join_errors errors))))"

definition run_adopted_with_cancel_and_controls ::
  "nat \<Rightarrow> 'x worker_env \<Rightarrow> execution \<Rightarrow> ('x, execution_result) act" where
  "run_adopted_with_cancel_and_controls fuel env execution =
     bind (require (ex_attempt_id execution) ''execution lacks attempt authority'') (\<lambda>attempt.
     bind (require (ex_worker_id execution) ''execution lacks worker authority'') (\<lambda>worker.
     bind (persist env (\<lambda>n. cleanup_begin (db_now env n) (ex_id execution) attempt worker)) (\<lambda>_.
     bind (begin_task execution) (\<lambda>_.
     bind (try_act (catch_unwind (adopt_inner fuel env))) (\<lambda>outcome.
     bind (observe_end env (ex_id execution) (\<lambda>_. WorkerLost) outcome) (\<lambda>(cancellation, errors).
     bind get_guard (\<lambda>guard.
     case outcome of
       Inl e \<Rightarrow>
         if cg_receipt guard = None then adoption_recovery fuel env (ex_id execution) errors e
         else finish_task env (ex_id execution) attempt cancellation errors outcome
     | Inr _ \<Rightarrow> finish_task env (ex_id execution) attempt cancellation errors outcome)))))))"

section \<open>A task is a run of the stores\<close>

lemma runs_let [runs]: "(\<And>y. db_runs (f y)) \<Longrightarrow> db_runs (let y = x in f y)"
  by simp

lemma runs_refuse [runs]: "db_runs (refuse message)"
  unfolding refuse_def by (intro runs)

lemma runs_require [runs]: "db_runs (require x message)"
  unfolding require_def by (intro runs)

lemma runs_steps [runs]:
  "db_runs (move_to env s)"
  "db_runs (pause_monitor env dv)" "db_runs (resume_monitor env dv)" "db_runs (resume_session env who session)"
  "db_runs (dropped env f)" "db_runs (begin_task e)" "db_runs (with_cleanup_errors errors outcome)"
proof -
  show "db_runs (move_to env s)" unfolding move_to_def by (intro runs)
  show "db_runs (pause_monitor env dv)" unfolding pause_monitor_def by (intro runs)
  show "db_runs (resume_monitor env dv)" unfolding resume_monitor_def by (intro runs)
  show "db_runs (resume_session env who session)" unfolding resume_session_def by (intro runs)
  show "db_runs (begin_task e)" unfolding begin_task_def by (intro runs)
  show "db_runs (with_cleanup_errors errors outcome)" unfolding with_cleanup_errors_def by (intro runs)
  show "db_runs (dropped env f)" by (simp add: dropped_def db_runs_def bind_def ask_def)
qed

lemma runs_cases [runs]:
  "\<lbrakk>db_runs m1; \<And>c. db_runs (m2 c); db_runs m3; db_runs m4\<rbrakk> \<Longrightarrow> db_runs (case k of
     WokeReady \<Rightarrow> m1 | WokeControl c \<Rightarrow> m2 c | WokeClosed \<Rightarrow> m3 | WokeCancelled \<Rightarrow> m4)"
  "\<lbrakk>db_runs p1; db_runs p2; db_runs p3\<rbrakk> \<Longrightarrow> db_runs (case c of
     Pause \<Rightarrow> p1 | Resume \<Rightarrow> p2 | ForkConversation \<Rightarrow> p3)"
  "\<lbrakk>\<And>a. db_runs (q1 a); \<And>c. db_runs (q2 c)\<rbrakk> \<Longrightarrow> db_runs (case t of Took a \<Rightarrow> q1 a | TookControl c \<Rightarrow> q2 c)"
  "\<lbrakk>db_runs h1; \<And>n. db_runs (h2 n); \<And>n. db_runs (h3 n); \<And>f. db_runs (h4 f)\<rbrakk> \<Longrightarrow> db_runs (case a of
     AssessedHealthy \<Rightarrow> h1 | AssessedQuiet n \<Rightarrow> h2 n | InactiveWarning n \<Rightarrow> h3 n | AssessedFailed f \<Rightarrow> h4 f)"
  by (simp_all split: wake.split control_action.split selected.split health_assessment.split)

lemma runs_controls [runs]:
  "db_runs (control_pause env b dv)" "db_runs (control_resume env dv)" "db_runs (launch_fork env b target dv)"
  "db_runs (replay_fork env b target dv)" "db_runs (control_fork env b control dv)"
  "db_runs (apply_control env control dv)" "db_runs (select_call env closed f)" "db_runs (select_paused env)"
proof -
  show p: "db_runs (control_pause env b dv)" for b unfolding control_pause_def by (intro runs)
  show r: "db_runs (control_resume env dv)" unfolding control_resume_def by (intro runs)
  have l: "db_runs (launch_fork env b target dv)" for b target unfolding launch_fork_def by (intro runs)
  have y: "db_runs (replay_fork env b target dv)" for b target unfolding replay_fork_def by (intro runs)
  show "db_runs (launch_fork env b target dv)" by (rule l)
  show "db_runs (replay_fork env b target dv)" by (rule y)
  show f: "db_runs (control_fork env b control dv)" for b unfolding control_fork_def by (intro runs l y)
  show "db_runs (apply_control env control dv)" unfolding apply_control_def by (intro runs p r f)
  show "db_runs (select_call env closed f)" unfolding select_call_def by (intro runs)
  show "db_runs (select_paused env)" unfolding select_paused_def by (intro runs)
qed

lemma runs_writes:
  assumes env: "env_runs (we_env env)"
  shows "db_runs (write_progress env b event)" "db_runs (record_kind env kind)" "db_runs (persist_failure env failure)"
    "db_runs (fail_with env failure)" "db_runs (transition_cleanup env s s')" "db_runs (fence_tracked env)"
    "db_runs (handle_control env control dv)" "db_runs (emit_sample env sample verdict dv)"
    "db_runs (act_on env assessment)" "db_runs (cleanup_phases env)"
proof -
  show w: "db_runs (write_progress env b event)" for b event
    unfolding write_progress_def by (intro runs calls env; erule tx_runs)
  show k: "db_runs (record_kind env kind)" for kind unfolding record_kind_def by (intro runs w)
  show p: "db_runs (persist_failure env failure)" for failure unfolding persist_failure_def by (intro runs k)
  show f: "db_runs (fail_with env failure)" for failure unfolding fail_with_def by (intro runs p)
  show t: "db_runs (transition_cleanup env s s')" for s s'
    unfolding transition_cleanup_def by (intro runs calls env; erule tx_runs)
  show e: "db_runs (fence_tracked env)" unfolding fence_tracked_def by (intro runs calls env; erule tx_runs)
  show "db_runs (handle_control env control dv)"
    unfolding handle_control_def by (intro runs calls env; erule tx_runs)
  show "db_runs (emit_sample env sample verdict dv)" unfolding emit_sample_def by (intro runs k)
  show "db_runs (act_on env assessment)" unfolding act_on_def by (intro runs k f)
  show "db_runs (cleanup_phases env)" unfolding cleanup_phases_def by (intro runs calls env t e; erule tx_runs)
qed

lemma runs_drive:
  assumes env: "env_runs (we_env env)"
  shows "db_runs (record_events env polled)" "db_runs (drive_round env dv)" "db_runs (drive_loop fuel env dv)"
    "db_runs (settle_review env worktree session)" "db_runs (drive_running fuel env worktree session)"
proof -
  note w = runs_writes [OF env]
  show r: "db_runs (record_events env polled)" for polled
    by (induction polled) (simp_all only: record_events.simps, (intro runs w | assumption)+)
  have a: "db_runs (assess_round env polled dv sample)" for polled dv sample
    unfolding assess_round_def by (intro runs w r)
  have h: "db_runs (health_round env polled dv)" for polled dv
    unfolding health_round_def by (intro runs w a)
  show d: "db_runs (drive_round env dv)" for dv unfolding drive_round_def by (intro runs w h)
  show l: "db_runs (drive_loop fuel env dv)" for dv
    by (induction fuel arbitrary: dv) (simp_all only: drive_loop.simps, (intro runs d | assumption)+)
  have p: "db_runs (publish_review env worktree artifact)" for artifact
    unfolding publish_review_def hand_over_def by (intro runs w)
  show s: "db_runs (settle_review env worktree session)" for session
    unfolding settle_review_def by (intro runs w p)
  show "db_runs (drive_running fuel env worktree session)" unfolding drive_running_def by (intro runs l s)
qed

lemma runs_step_errors [runs]: "db_runs m \<Longrightarrow> db_runs (step_errors m)"
  unfolding step_errors_def by (intro runs)

lemma runs_finish:
  assumes env: "env_runs (we_env env)"
  shows "db_runs (finish_task env i attempt cancellation errors outcome)"
    "db_runs (observe_end env i failure outcome)" "db_runs (adoption_recovery fuel env i errors e)"
proof -
  note w = runs_writes [OF env]
  have k: "db_runs (acknowledge_release env i)"
    unfolding acknowledge_release_def by (intro runs calls env; erule tx_runs)
  have r: "db_runs (finish_release env i attempt errors)"
    unfolding finish_release_def store_errors_def by (intro runs calls env k; erule tx_runs)
  show "db_runs (finish_task env i attempt cancellation errors outcome)"
    unfolding finish_task_def store_errors_def by (intro runs calls env w r; erule tx_runs)
  show "db_runs (observe_end env i failure outcome)"
    unfolding observe_end_def cancellation_lookup_def by (intro runs calls env w; erule tx_runs)
  show "db_runs (adoption_recovery fuel env i errors e)"
    unfolding adoption_recovery_def by (intro runs calls env recover_runs; erule tx_runs)
qed

lemma runs_run_inner: "env_runs (we_env env) \<Longrightarrow> db_runs (run_inner fuel env)"
  unfolding run_inner_def by (intro runs runs_writes runs_drive)

lemma runs_adopt_inner:
  assumes env: "env_runs (we_env env)"
  shows "db_runs (adopt_inner fuel env)"
proof -
  have s: "db_runs (adopt_state env)" unfolding adopt_state_def by (intro runs)
  show ?thesis
    unfolding adopt_inner_def by (intro runs calls runs_writes runs_drive env s; erule tx_runs)
qed

lemma run_runs:
  assumes env: "env_runs (we_env env)"
  shows "db_runs (run_with_cancel_and_controls fuel env e)"
  unfolding run_with_cancel_and_controls_def
  by (intro runs calls runs_finish env runs_run_inner; erule tx_runs)

lemma adopted_runs:
  assumes env: "env_runs (we_env env)"
  shows "db_runs (run_adopted_with_cancel_and_controls fuel env e)"
  unfolding run_adopted_with_cancel_and_controls_def
  by (intro runs calls runs_finish env runs_adopt_inner; erule tx_runs)

end
