(* ===== verification/Worker_Results.thy ===== *)
theory Worker_Results
  imports Worker_Run Recovery_Progress
begin

text \<open>
  What a task leaves behind when it returns: inversion rules for procedures, the phase of the
  authority at the end of a task, the identity of the tracked execution, and the record of a
  review before its result is returned.
\<close>

section \<open>Procedures that return\<close>

lemma bind_RetE:
  assumes "bind m f w = (Ret b, w')"
  obtains a w1 where "m w = (Ret a, w1)" "f a w1 = (Ret b, w')"
  using assms by (auto simp: bind_def split: prod.splits outcome.splits)

lemma bind_ErrE:
  assumes "bind m f w = (Err e, w')"
  obtains "m w = (Err e, w')" | a w1 where "m w = (Ret a, w1)" "f a w1 = (Err e, w')"
  using assms by (auto simp: bind_def split: prod.splits outcome.splits)

lemma store_RetE:
  assumes "store env tx w = (Ret (Inr a), w')"
  obtains n d where "tx n d = Inr (a, wd_db w')" "d = en_others (we_env env) n (wd_db w)"
    "wd_tracked w' = wd_tracked w" "wd_guard w' = wd_guard w"
  using assms by (auto simp: store_def Let_def split: link.splits sum.splits if_splits)

lemma persist_RetE:
  assumes "persist env tx w = (Ret a, w')"
  obtains n d where "tx n d = Inr (a, wd_db w')" "d = en_others (we_env env) n (wd_db w)"
    "wd_tracked w' = wd_tracked w" "wd_guard w' = wd_guard w"
  using assms unfolding persist_def
  by (elim bind_RetE) (auto simp: throw_def ret_def split: sum.splits elim!: store_RetE)

lemma store_Ret: "store env tx w = (r, w') \<Longrightarrow> \<exists>x. r = Ret x"
  by (auto simp: store_def Let_def split: link.splits sum.splits if_splits)

section \<open>The authority at the end\<close>

definition phase_is :: "execution_id \<Rightarrow> cleanup_disposition \<Rightarrow> db \<Rightarrow> bool" where
  "phase_is i s d \<longleftrightarrow> (case find_cleanup d i of None \<Rightarrow> False | Some c \<Rightarrow> ca_phase c = disposition_text s)"

lemma only_row:
  assumes "store_ok d" and "find_cleanup d i = Some c" and "c' \<in> set (cleanups d)" "ca_execution_id c' = i"
  shows "c' = c"
  using sql_lookup_in_set [of ca_execution_id "cleanups d" c'] assms
  by (simp add: store_ok_def cleanups_ok_def)

lemma resolve_phase:
  assumes ok: "store_ok d" and r: "cleanup_resolve t i d = Inr (u, d')"
  shows "phase_is i Resolved d'"
proof -
  let ?p = "\<lambda>c. ca_execution_id c = i \<and> ca_phase c \<in> set [''RESERVATION_RELEASED'', ''RESOLVED'']"
  obtain c where c: "find_cleanup d i = Some c" using r by (cases "find_cleanup d i") (auto simp: cleanup_resolve_def)
  have n: "rows_affected ?p (cleanups d) = 1"
    and up: "cleanups d' = sql_update ?p (\<lambda>r. r\<lparr>ca_phase := ''RESOLVED'', ca_updated_at := t\<rparr>) (cleanups d)"
    using r by (auto simp: cleanup_resolve_def Let_def split: if_splits)
  have "\<exists>c' \<in> set (cleanups d). ?p c'" unfolding rows_affected_pos_iff [symmetric] n by simp
  then have "?p c" using only_row [OF ok c] by blast
  with c show ?thesis by (simp add: phase_is_def up sql_lookup_update)
qed

lemma retained_phase:
  assumes ok: "store_ok d" and r: "commit_retained_and_release_capacity t i a d = Inr (u, d')"
  shows "phase_is i Retained d'"
proof (rule commit_retained_shape [OF r])
  fix c
  assume f: "find (\<lambda>c. ca_execution_id c = i \<and> ca_attempt_id c = a) (cleanups d) = Some c"
    and p: "ca_phase c = ''RETAIN_REQUESTED'' \<or> ca_phase c = ''RETAINED''"
    and up: "cleanups d' = sql_update (\<lambda>c. ca_execution_id c = i \<and> ca_attempt_id c = a
         \<and> ca_phase c \<in> {''RETAIN_REQUESTED'', ''RETAINED''})
       (\<lambda>c. c\<lparr>ca_phase := ''RETAINED'', ca_updated_at := t\<rparr>) (cleanups d)"
  from find_SomeD [OF f] have "c \<in> set (cleanups d)" "ca_execution_id c = i" "ca_attempt_id c = a" by auto
  moreover from this have "find_cleanup d i = Some c"
    using sql_lookup_in_set [of ca_execution_id "cleanups d" c] ok by (simp add: store_ok_def cleanups_ok_def)
  ultimately show ?thesis using p by (auto simp: phase_is_def up sql_lookup_update)
qed

lemma resolved_stays:
  assumes ok: "store_ok d" and run: "store_step\<^sup>*\<^sup>* d d'" and "phase_is i Resolved d"
  shows "phase_is i Resolved d'"
proof -
  obtain c where c: "find_cleanup d i = Some c" "ca_phase c = disposition_text Resolved"
    using assms(3) by (auto simp: phase_is_def split: option.splits)
  obtain c' where c': "find_cleanup d' i = Some c'" "authority_le c c'"
    using run_cleanups [OF run ok] c(1) by (auto simp: cleanups_le_def)
  have "c' \<in> set (cleanups d')" using c'(1) by (auto dest: sql_lookup_SomeD)
  then obtain s where s: "ca_phase c' = disposition_text s"
    using stores.run_inv [OF run ok] by (auto simp: store_ok_def cleanups_ok_def)
  have "disposition_rank Resolved \<le> disposition_rank s"
    using c'(2) unfolding authority_le_def c(2) s phase_rank_text by simp
  then have "s = Resolved"
  proof (cases s)
    case (Active st)
    then show ?thesis using \<open>disposition_rank Resolved \<le> disposition_rank s\<close> by (cases st) simp_all
  qed simp_all
  with c' s show ?thesis by (simp add: phase_is_def)
qed

text \<open>Errors that carry no trace of an unfinished cleanup.\<close>

definition clean_error :: "worker_error \<Rightarrow> bool" where
  "clean_error e = (case e of WLifecycle _ \<Rightarrow> True | WPanic _ \<Rightarrow> True | WInvalid _ \<Rightarrow> True
     | WCancelled \<Rightarrow> True | _ \<Rightarrow> False)"

definition clean_end :: "'a outcome \<Rightarrow> bool" where
  "clean_end r = (case r of Ret _ \<Rightarrow> True | Err e \<Rightarrow> clean_error e | _ \<Rightarrow> False)"

lemma clean_simps [simp]:
  "clean_end (Ret x)" "clean_end (Err e) \<longleftrightarrow> clean_error e" "\<not> clean_end (Unwind m)" "\<not> clean_end Pending"
  "\<not> clean_error (WCleanup m)" "\<not> clean_error (WExecutionAndCleanup m m')" "\<not> clean_error (WPersistence m)"
  by (simp_all add: clean_end_def clean_error_def)

lemma bind_endE:
  assumes "bind m f w = (r, w')" and "clean_end r"
    and "\<And>e w1. m w = (Err e, w1) \<Longrightarrow> \<not> clean_error e"
  obtains a w1 where "m w = (Ret a, w1)" "f a w1 = (r, w')"
  using assms by (auto simp: bind_def split: prod.splits outcome.splits)

lemma never_clean:
  "persist env tx w = (Err e, w1) \<Longrightarrow> \<not> clean_error e"
  "store env tx w = (Err e, w1) \<Longrightarrow> \<not> clean_error e"
  "try_act m w = (Err e, w1) \<Longrightarrow> \<not> clean_error e"
  "get_tracked w = (Err e, w1) \<Longrightarrow> \<not> clean_error e"
  "get_guard w = (Err e, w1) \<Longrightarrow> \<not> clean_error e"
  "ret x w = (Err e, w1) \<Longrightarrow> \<not> clean_error e"
  by (auto simp: persist_def bind_def throw_def ret_def persistence_def try_act_def get_tracked_def get_guard_def
      dest: store_Ret split: prod.splits outcome.splits sum.splits)

lemma errors_Ret:
  assumes "store_errors env tx w = (r, w')"
  obtains "r = Ret []" "\<exists>a. store env tx w = (Ret (Inr a), w')" | errors where "r = Ret errors" "errors \<noteq> []"
  using assms by (auto simp: store_errors_def bind_def ret_def dest: store_Ret split: prod.splits outcome.splits sum.splits)

lemma with_errors_end:
  assumes "with_cleanup_errors errors outcome w = (r, w')" and "clean_end r"
  shows "errors = [] \<and> w' = w \<and> r = (case outcome of Inl e \<Rightarrow> Err e | Inr x \<Rightarrow> Ret x)"
  using assms by (auto simp: with_cleanup_errors_def Let_def throw_def ret_def split: if_splits sum.splits)

lemma db_ok:
  assumes "db_runs m" and "m w = (r, w')" and "store_ok (wd_db w)"
  shows "store_ok (wd_db w')" and "store_step\<^sup>*\<^sup>* (wd_db w) (wd_db w')"
  using db_runsD [OF assms(1,2)] stores.run_inv assms(3) by blast+

lemma runs_acknowledge: "env_runs (we_env env) \<Longrightarrow> db_runs (acknowledge_release env i)"
  unfolding acknowledge_release_def by (intro runs calls; (assumption | erule tx_runs))

lemma runs_release: "env_runs (we_env env) \<Longrightarrow> db_runs (finish_release env i a errors)"
  unfolding finish_release_def store_errors_def
  by (intro runs calls runs_acknowledge; (assumption | erule tx_runs))

lemma release_clean: "finish_release env i a errors w = (Err e, w') \<Longrightarrow> False"
  by (auto simp: finish_release_def acknowledge_release_def step_errors_def store_errors_def bind_def ret_def try_act_def
      Let_def dest: store_Ret split: prod.splits outcome.splits sum.splits if_splits)

lemma release_end:
  assumes env: "env_runs (we_env env)" and ok: "store_ok (wd_db w)"
    and f: "finish_release env i a errors w = (Ret [], w')"
  shows "phase_is i Resolved (wd_db w')"
proof -
  obtain fin w1 where s: "store env (\<lambda>n. finalize_cleanup (clock_at env n) i a) w = (Ret fin, w1)"
    and fin: "(case fin of Inl e \<Rightarrow> ret (errors @ [store_error_text (we_db_error env) e])
       | Inr _ \<Rightarrow> bind (acknowledge_release env i) (\<lambda>more. let errors = errors @ more in
           if errors = [] then store_errors env (\<lambda>n. cleanup_resolve (db_now env n) i) else ret errors)) w1
       = (Ret [], w')"
    using f unfolding finish_release_def by (rule bind_RetE)
  obtain more w2 where k: "acknowledge_release env i w1 = (Ret more, w2)"
    and r: "(let errors = errors @ more in
           if errors = [] then store_errors env (\<lambda>n. cleanup_resolve (db_now env n) i) else ret errors) w2 = (Ret [], w')"
    using fin by (cases fin) (auto simp: ret_def elim: bind_RetE)
  have "store_errors env (\<lambda>n. cleanup_resolve (db_now env n) i) w2 = (Ret [], w')"
    using r by (auto simp: Let_def ret_def split: if_splits)
  then obtain x where x: "store env (\<lambda>n. cleanup_resolve (db_now env n) i) w2 = (Ret (Inr x), w')"
    by (rule errors_Ret) auto
  have "store_ok (wd_db w1)" by (rule db_ok(1) [OF runs_store s ok]) (intro env, erule tx_runs)
  then have "store_ok (wd_db w2)" by (rule db_ok(1) [OF runs_acknowledge [OF env] k])
  then have "store_ok (en_others (we_env env) n (wd_db w2))" for n
    using stores.run_inv [OF env_runsD [OF env]] by blast
  with x show ?thesis by (elim store_RetE) (auto intro: resolve_phase)
qed

lemma finish_end:
  assumes env: "env_runs (we_env env)" and ok: "store_ok (wd_db w)"
    and f: "finish_task env i a cancellation errors outcome w = (r, w')" and c: "clean_end r"
  shows "r = (case outcome of Inl e \<Rightarrow> Err e | Inr x \<Rightarrow> Ret x)
    \<and> (phase_is i Resolved (wd_db w') \<or> phase_is i Retained (wd_db w') \<and> retain_for_resume (wd_tracked w) outcome)"
proof (cases "retain_for_resume (wd_tracked w) outcome")
  case True
  then have "bind (persist env (\<lambda>n. commit_retained_and_release_capacity (db_now env n) i a)) (\<lambda>_.
      case outcome of Inl e \<Rightarrow> throw e | Inr r \<Rightarrow> ret r) w = (r, w')"
    using f by (simp add: finish_task_def bind_def get_tracked_def)
  then obtain u w1 where p: "persist env (\<lambda>n. commit_retained_and_release_capacity (db_now env n) i a) w = (Ret u, w1)"
    and e: "(case outcome of Inl e \<Rightarrow> throw e | Inr r \<Rightarrow> ret r) w1 = (r, w')"
    by (rule bind_endE) (use c in \<open>auto dest: never_clean\<close>)
  from e have "w' = w1" "r = (case outcome of Inl e \<Rightarrow> Err e | Inr x \<Rightarrow> Ret x)"
    by (auto simp: throw_def ret_def split: sum.splits)
  moreover have "store_ok (en_others (we_env env) n (wd_db w))" for n
    using stores.run_inv [OF env_runsD [OF env] ok] .
  then have "phase_is i Retained (wd_db w1)" using p by (elim persist_RetE) (auto intro: retained_phase)
  ultimately show ?thesis using True by simp
next
  case False
  let ?rest = "\<lambda>cleaned. bind (case cleaned of Inr _ \<Rightarrow> finish_release env i a errors
             | Inl e \<Rightarrow> ret (errors @ [worker_error_text e])) (\<lambda>errors.
       bind (if errors = [] \<and> cancellation
             then store_errors env (\<lambda>n. complete_cancellation (clock_at env n) i a)
             else ret errors) (\<lambda>errors. with_cleanup_errors errors outcome))"
  have "bind (try_act (cleanup_phases env)) ?rest w = (r, w')"
    using f False by (simp add: finish_task_def bind_def [of get_tracked] get_tracked_def)
  then obtain cleaned w1 where 1: "try_act (cleanup_phases env) w = (Ret cleaned, w1)" "?rest cleaned w1 = (r, w')"
    by (rule bind_endE) (use c in \<open>auto dest: never_clean\<close>)
  have "db_runs (try_act (cleanup_phases env))" by (intro runs runs_writes env)
  then have ok1: "store_ok (wd_db w1)" by (rule db_ok(1) [where m = "try_act (cleanup_phases env)", OF _ 1(1) ok])
  from 1(2) obtain errs w2 where 2: "(case cleaned of Inr _ \<Rightarrow> finish_release env i a errors
             | Inl e \<Rightarrow> ret (errors @ [worker_error_text e])) w1 = (Ret errs, w2)"
      "bind (if errs = [] \<and> cancellation then store_errors env (\<lambda>n. complete_cancellation (clock_at env n) i a)
             else ret errs) (\<lambda>errors. with_cleanup_errors errors outcome) w2 = (r, w')"
    by (rule bind_endE) (use c in \<open>auto simp: ret_def dest: release_clean split: sum.splits\<close>)
  from 2(2) obtain errs' w3 where 3: "(if errs = [] \<and> cancellation
             then store_errors env (\<lambda>n. complete_cancellation (clock_at env n) i a) else ret errs) w2 = (Ret errs', w3)"
      "with_cleanup_errors errs' outcome w3 = (r, w')"
    by (rule bind_endE) (use c in \<open>auto simp: ret_def elim: errors_Ret split: if_splits\<close>)
  from with_errors_end [OF 3(2) c] have e: "errs' = []" "w' = w3" "r = (case outcome of Inl e \<Rightarrow> Err e | Inr x \<Rightarrow> Ret x)"
    by auto
  have "errs = []" using 3(1) e(1) by (auto simp: ret_def split: if_splits)
  moreover from this obtain u where "cleaned = Inr u" using 2(1) by (cases cleaned) (auto simp: ret_def)
  ultimately have "finish_release env i a errors w1 = (Ret [], w2)" using 2(1) by simp
  then have p: "phase_is i Resolved (wd_db w2)" and ok2: "store_ok (wd_db w2)"
    using release_end [OF env ok1] db_ok(1) [OF runs_release [OF env] _ ok1] by blast+
  have "db_runs (if errs = [] \<and> cancellation
      then store_errors env (\<lambda>n. complete_cancellation (clock_at env n) i a) else ret errs)"
    unfolding store_errors_def by (intro runs calls env; erule tx_runs)
  then have "store_step\<^sup>*\<^sup>* (wd_db w2) (wd_db w3)" using 3(1) ok2 by (rule db_ok(2))
  then show ?thesis using resolved_stays [OF ok2 _ p] e by blast
qed

section \<open>The tracked execution keeps its identity\<close>

named_theorems kept \<open>procedures that keep the identity of the tracked execution\<close>

definition identity :: "execution \<Rightarrow> execution_id \<times> attempt_id option \<times> worker_id option \<times> execution_manifest" where
  "identity e = (ex_id e, ex_attempt_id e, ex_worker_id e, ex_manifest e)"

definition keeps :: "execution_id \<times> attempt_id option \<times> worker_id option \<times> execution_manifest \<Rightarrow> ('x, 'a) act \<Rightarrow> bool" where
  "keeps k m \<longleftrightarrow> (\<forall>w. identity (wd_tracked w) = k \<longrightarrow> identity (wd_tracked (snd (m w))) = k)"

lemma keepsD: "keeps k m \<Longrightarrow> m w = (r, w') \<Longrightarrow> identity (wd_tracked w) = k \<Longrightarrow> identity (wd_tracked w') = k"
  by (metis keeps_def snd_conv)

lemma kept_basic [kept]:
  "keeps k (ret a)" "keeps k (throw e)" "keeps k still_running" "keeps k get_tracked" "keeps k get_guard"
  "keeps k (set_guard f)" "keeps k (ask q)" "keeps k (call g)" "keeps k (store env tx)"
  "identity e' = k \<Longrightarrow> keeps k (set_tracked e')"
  by (auto simp: keeps_def ret_def throw_def still_running_def get_tracked_def set_tracked_def get_guard_def
      set_guard_def ask_def call_def store_def Let_def split: prod.splits reply.splits link.splits sum.splits)

lemma kept_bind [kept]:
  fixes m :: "('x, 'a) act"
  assumes "keeps k m" and "\<And>a. keeps k (f a)"
  shows "keeps k (bind m f)"
  unfolding keeps_def
proof (intro allI impI)
  fix w :: "'x world"
  assume i: "identity (wd_tracked w) = k"
  obtain r w' where m: "m w = (r, w')" by (cases "m w")
  have i': "identity (wd_tracked w') = k" by (rule keepsD [OF assms(1) m i])
  have "identity (wd_tracked (snd (f a w'))) = k" for a
    using assms(2) i' by (simp add: keeps_def)
  with i' show "identity (wd_tracked (snd (bind m f w))) = k" by (cases r) (simp_all add: bind_def m)
qed

lemma kept_got:
  assumes "\<And>e. identity e = k \<Longrightarrow> keeps k (f e)"
  shows "keeps k (bind get_tracked f)"
  using assms by (auto simp: keeps_def bind_def get_tracked_def)

lemma kept_wrap [kept]:
  "keeps k m \<Longrightarrow> keeps k (try_act m)" "keeps k m \<Longrightarrow> keeps k (catch_unwind m)"
  by (auto simp: keeps_def try_act_def catch_unwind_def split: prod.splits outcome.splits)

lemma kept_case [kept]:
  "\<lbrakk>keeps k m; keeps k m'\<rbrakk> \<Longrightarrow> keeps k (if b then m else m')"
  "\<lbrakk>keeps k m; \<And>y. keeps k (f y)\<rbrakk> \<Longrightarrow> keeps k (case z of None \<Rightarrow> m | Some y \<Rightarrow> f y)"
  "\<lbrakk>\<And>e. keeps k (g e); \<And>y. keeps k (h y)\<rbrakk> \<Longrightarrow> keeps k (case s of Inl e \<Rightarrow> g e | Inr y \<Rightarrow> h y)"
  "(\<And>y y'. keeps k (p y y')) \<Longrightarrow> keeps k (case pr of (y, y') \<Rightarrow> p y y')"
  "(\<And>y. keeps k (l y)) \<Longrightarrow> keeps k (let y = x in l y)"
  "\<lbrakk>keeps k m1; \<And>c. keeps k (m2 c); keeps k m3; keeps k m4\<rbrakk> \<Longrightarrow> keeps k (case wk of
     WokeReady \<Rightarrow> m1 | WokeControl c \<Rightarrow> m2 c | WokeClosed \<Rightarrow> m3 | WokeCancelled \<Rightarrow> m4)"
  "\<lbrakk>keeps k p1; keeps k p2; keeps k p3\<rbrakk> \<Longrightarrow> keeps k (case c of
     Pause \<Rightarrow> p1 | Resume \<Rightarrow> p2 | ForkConversation \<Rightarrow> p3)"
  "\<lbrakk>\<And>a. keeps k (q1 a); \<And>c. keeps k (q2 c)\<rbrakk> \<Longrightarrow> keeps k (case t of Took a \<Rightarrow> q1 a | TookControl c \<Rightarrow> q2 c)"
  "\<lbrakk>keeps k h1; \<And>n. keeps k (h2 n); \<And>n. keeps k (h3 n); \<And>f. keeps k (h4 f)\<rbrakk> \<Longrightarrow> keeps k (case a of
     AssessedHealthy \<Rightarrow> h1 | AssessedQuiet n \<Rightarrow> h2 n | InactiveWarning n \<Rightarrow> h3 n | AssessedFailed f \<Rightarrow> h4 f)"
  by (simp_all split: option.split sum.split prod.split wake.split control_action.split selected.split
      health_assessment.split)

lemma kept_persist [kept]: "keeps k (persist env tx)" "keeps k (persist_inner env tx')"
  unfolding persist_inner_def persist_def by ((rule kept)+)+

lemma kept_small [kept]:
  "keeps k (refuse message)" "keeps k (utc_now env)" "keeps k (instant_now env)" "keeps k (dropped env f)"
  "keeps k (timed env message g)" "keeps k (disposition_of env authority)"
  by (simp_all add: keeps_def refuse_def throw_def utc_now_def instant_now_def ask_def dropped_def bind_def timed_def call_def
      disposition_of_def ret_def split: prod.split reply.split sum.split)

lemma kept_require [kept]: "keeps k (require x message)"
  unfolding require_def by (rule kept)+

lemma identity_transition:
  "execution_transition now s e = Inr e' \<Longrightarrow> identity e' = identity e"
  by (auto simp: execution_transition_def identity_def split: if_splits)

lemma kept_move [kept]: "keeps k (move_to env s)"
  by (auto simp: keeps_def move_to_def bind_def get_tracked_def utc_now_def ask_def refuse_def throw_def set_tracked_def
      identity_transition split: sum.split)

lemma identity_updates [simp]:
  "identity (e\<lparr>ex_session_id := s\<rparr>) = identity e" "identity (e\<lparr>ex_updated_at := t\<rparr>) = identity e"
  "identity (e\<lparr>ex_result := r\<rparr>) = identity e" "identity (e\<lparr>ex_worktree_path := p\<rparr>) = identity e"
  by (simp_all add: identity_def)

lemma kept_writes [kept]:
  "keeps k (write_progress env b event)" "keeps k (record_kind env kind)"
  "keeps k (transition_cleanup env s s')" "keeps k (fence_tracked env)"
  unfolding record_kind_def write_progress_def transition_cleanup_def fence_tracked_def by (rule kept)+

lemma kept_failure [kept]: "keeps k (persist_failure env failure)"
  unfolding persist_failure_def by (rule kept_got | rule kept | simp)+

lemma kept_fail [kept]: "keeps k (fail_with env failure)"
  unfolding fail_with_def by (rule kept)+

lemma kept_guard [kept]: "keeps k (stop_agent env)"
  unfolding stop_agent_def by (rule kept)+

lemma kept_session [kept]:
  "keeps k (pause_monitor env dv)" "keeps k (resume_monitor env dv)" "keeps k (resume_session env who session)"
  unfolding pause_monitor_def resume_monitor_def resume_session_def by (rule kept)+

lemma kept_control [kept]:
  "keeps k (control_pause env b dv)" "keeps k (control_resume env dv)" "keeps k (launch_fork env b target dv)"
  "keeps k (replay_fork env b target dv)"
  unfolding control_pause_def control_resume_def launch_fork_def replay_fork_def by (rule kept)+

lemma kept_fork [kept]: "keeps k (control_fork env b control dv)"
  unfolding control_fork_def by (rule kept_got | rule kept | simp)+

lemma kept_handle [kept]: "keeps k (handle_control env control dv)"
  unfolding handle_control_def apply_control_def by (rule kept)+

lemma kept_round [kept]:
  "keeps k (select_call env closed f)" "keeps k (select_paused env)" "keeps k (emit_sample env sample verdict dv)"
  "keeps k (act_on env assessment)"
  unfolding select_call_def select_paused_def emit_sample_def act_on_def by (rule kept)+

lemma kept_record [kept]: "keeps k (record_events env polled)"
  by (induction polled) (simp_all only: record_events.simps, (rule kept | assumption)+)

lemma kept_drive [kept]: "keeps k (drive_round env dv)"
  unfolding drive_round_def health_round_def assess_round_def by (rule kept)+

lemma kept_loop [kept]: "keeps k (drive_loop fuel env dv)"
  by (induction fuel arbitrary: dv) (simp_all only: drive_loop.simps, (rule kept | assumption)+)

section \<open>A result is recorded before it is returned\<close>

definition reviewed :: "execution_id \<Rightarrow> attempt_id option \<Rightarrow> execution_result \<Rightarrow> db \<Rightarrow> bool" where
  "reviewed i a r d \<longleftrightarrow> rs_execution_id r = i \<and> rs_state r = ReviewReady \<and> rs_failure r = None
     \<and> rs_diff_artifact r \<noteq> None
     \<and> list_ex (\<lambda>ev. ev_kind ev = ReviewReadyEvent \<and> ev_attempt_id ev = a) (history d i)"

lemma reviewed_stays:
  assumes "store_ok d" and "store_step\<^sup>*\<^sup>* d d'" and "reviewed i a r d"
  shows "reviewed i a r d'"
  using run_history [OF assms(2,1), of i] assms(3) by (auto simp: reviewed_def prefix_def)

lemma write_recorded:
  assumes "write_progress env b ev w = (Ret u, w')"
  shows "\<exists>n. ev\<lparr>ev_sequence := n\<rparr> \<in> set (history (wd_db w') (ev_execution_id ev))"
proof -
  have "\<exists>t e d n. record_progress t b e ev d = Inr (n, wd_db w')"
    using assms unfolding write_progress_def
    by (elim bind_RetE persist_RetE) (auto simp: get_tracked_def ret_def)
  then obtain t e d n where "record_progress t b e ev d = Inr (n, wd_db w')" by blast
  then show ?thesis
  proof (rule record_progress_shape)
    fix d4 assume "append_in_transaction ev d4 = Inr (n, wd_db w')"
    from append_history [OF this, of "ev_execution_id ev"] show ?thesis by auto
  qed
qed

definition reviews :: "execution_id \<times> attempt_id option \<times> worker_id option \<times> execution_manifest
    \<Rightarrow> ('x, execution_result) act \<Rightarrow> bool" where
  "reviews k m \<longleftrightarrow> (\<forall>w r w'. store_ok (wd_db w) \<longrightarrow> identity (wd_tracked w) = k \<longrightarrow> m w = (Ret r, w')
     \<longrightarrow> reviewed (fst k) (fst (snd k)) r (wd_db w'))"

lemma reviewsD:
  "\<lbrakk>reviews k m; m w = (Ret r, w'); store_ok (wd_db w); identity (wd_tracked w) = k\<rbrakk>
   \<Longrightarrow> reviewed (fst k) (fst (snd k)) r (wd_db w')"
  by (simp add: reviews_def)

lemma reviews_bind:
  assumes "db_runs m" and "keeps k m" and "\<And>a. reviews k (f a)"
  shows "reviews k (bind m f)"
  unfolding reviews_def
proof (intro allI impI, erule bind_RetE)
  fix w r w' a w1
  assume "store_ok (wd_db w)" "identity (wd_tracked w) = k" "m w = (Ret a, w1)" "f a w1 = (Ret r, w')"
  then show "reviewed (fst k) (fst (snd k)) r (wd_db w')"
    using assms(3) [of a] db_ok(1) [OF assms(1)] keepsD [OF assms(2)] unfolding reviews_def by blast
qed

lemma reviews_got:
  "(\<And>e. identity e = k \<Longrightarrow> reviews k (f e)) \<Longrightarrow> reviews k (bind get_tracked f)"
  by (auto simp: reviews_def bind_def get_tracked_def)

lemma reviews_never: "reviews k (throw e)" "reviews k (refuse message)" "reviews k (fail_with env failure)"
  by (auto simp: reviews_def throw_def refuse_def fail_with_def elim!: bind_RetE)

lemma reviews_if: "\<lbrakk>b \<Longrightarrow> reviews k m; \<not> b \<Longrightarrow> reviews k m'\<rbrakk> \<Longrightarrow> reviews k (if b then m else m')"
  by simp

lemma move_to_state:
  assumes "move_to env s w = (Ret u, w')"
  shows "ex_state (wd_tracked w') = s"
  using assms
  by (auto simp: move_to_def bind_def get_tracked_def utc_now_def ask_def refuse_def throw_def set_tracked_def
      execution_transition_def split: sum.splits if_splits)

lemma reviews_last:
  assumes env: "env_runs (we_env env)" and "ex_state e = ReviewReady" "identity e = k"
    and res: "res = review_result e worktree artifact" and e': "e' = e\<lparr>ex_result := Some res\<rparr>"
  shows "reviews k (bind (if mf_persistence (ex_manifest e') = Resumable
           then write_progress env True (execution_event_of e' at ReviewReadyEvent)
           else bind (write_progress env False (execution_event_of e' at ReviewReadyEvent)) (\<lambda>_.
                  fence_tracked env)) (\<lambda>_. ret res))" (is "reviews k (bind ?m _)")
  unfolding reviews_def
proof (intro allI impI)
  fix w :: "'a world" and r w'
  let ?ev = "execution_event_of e' at ReviewReadyEvent"
  assume ok: "store_ok (wd_db w)" and b: "bind ?m (\<lambda>_. ret res) w = (Ret r, w')"
  have "reviewed (ex_id e) (ex_attempt_id e) res d" if "ev\<lparr>ev_sequence := n\<rparr> \<in> set (history d (ev_execution_id ev))" "ev = ?ev"
    for d n ev using that assms(2)
    by (auto simp: reviewed_def res review_result_def e' execution_event_of_def list_ex_iff intro!: bexI)
  then have rv: "reviewed (ex_id e) (ex_attempt_id e) res (wd_db w2)" if "write_progress env b ?ev w1 = (Ret u, w2)" for b u w1 w2
    using write_recorded [OF that] by blast
  obtain u where m: "?m w = (Ret u, w')" and r: "r = res" using b by (rule bind_RetE) (simp add: ret_def)
  have "reviewed (ex_id e) (ex_attempt_id e) res (wd_db w')"
  proof (cases "mf_persistence (ex_manifest e') = Resumable")
    case True
    with m rv show ?thesis by simp
  next
    case False
    with m obtain v w1 where 1: "write_progress env False ?ev w = (Ret v, w1)" "fence_tracked env w1 = (Ret u, w')"
      by (auto elim: bind_RetE)
    have "store_ok (wd_db w1)" by (rule db_ok(1) [OF runs_writes(1) [OF env] 1(1) ok])
    then show ?thesis using rv [OF 1(1)] db_ok(2) [OF runs_writes(6) [OF env] 1(2)] by (blast intro: reviewed_stays)
  qed
  then show "reviewed (fst k) (fst (snd k)) r (wd_db w')" using assms(3) r by (auto simp: identity_def)
qed

lemma reviews_publish:
  assumes env: "env_runs (we_env env)"
  shows "reviews k (publish_review env worktree artifact)"
  unfolding reviews_def
proof (intro allI impI)
  fix w :: "'a world" and r w'
  assume ok: "store_ok (wd_db w)" and k: "identity (wd_tracked w) = k"
    and p: "publish_review env worktree artifact w = (Ret r, w')"
  obtain u w1 where m: "move_to env ReviewReady w = (Ret u, w1)"
    and h: "hand_over env (review_result (wd_tracked w1) worktree artifact)
      ((wd_tracked w1)\<lparr>ex_result := Some (review_result (wd_tracked w1) worktree artifact)\<rparr>) w1 = (Ret r, w')"
    using p unfolding publish_review_def by (elim bind_RetE) (auto simp: get_tracked_def Let_def)
  have st: "ex_state (wd_tracked w1) = ReviewReady" by (rule move_to_state [OF m])
  have id: "identity (wd_tracked w1) = k" by (rule keepsD [OF kept_move m k])
  have "store_ok (wd_db w1)" by (rule db_ok(1) [OF runs_steps(1) m ok])
  moreover have "reviews k (hand_over env (review_result (wd_tracked w1) worktree artifact)
      ((wd_tracked w1)\<lparr>ex_result := Some (review_result (wd_tracked w1) worktree artifact)\<rparr>))"
    unfolding hand_over_def
    by (intro reviews_bind runs runs_writes env kept reviews_last [OF env st id refl refl]) (simp add: id)
  ultimately show "reviewed (fst k) (fst (snd k)) r (wd_db w')" using h id by (simp add: reviews_def)
qed

lemma reviews_drive:
  assumes env: "env_runs (we_env env)"
  shows "reviews k (drive_running fuel env worktree session)"
proof -
  have s: "reviews k (settle_review env worktree session)" for session
    unfolding settle_review_def
    by (intro reviews_bind reviews_if reviews_never reviews_publish runs kept env)
  show ?thesis
    unfolding drive_running_def Let_def by (intro reviews_bind s runs runs_drive env kept)
qed

lemma reviews_run:
  assumes env: "env_runs (we_env env)"
  shows "reviews k (run_inner fuel env)"
  unfolding run_inner_def
  by (rule reviews_got reviews_bind reviews_if reviews_never reviews_drive [OF env] kept runs runs_writes [OF env] | simp)+

lemma reviews_adopt:
  assumes env: "env_runs (we_env env)"
  shows "reviews k (adopt_inner fuel env)"
proof -
  have r: "db_runs (adopt_state env)" unfolding adopt_state_def by (intro runs)
  have k: "keeps k (adopt_state env)" unfolding adopt_state_def by (rule kept)+
  have l: "db_runs (persist env (read_only f))" for f :: "db \<Rightarrow> store_error + 'b"
    by (rule runs_persist [OF env read_only_run])
  show ?thesis
    unfolding adopt_inner_def Let_def
    by (rule r k l reviews_bind reviews_drive [OF env] kept runs runs_writes [OF env])+
qed

lemma begin_task_end: "begin_task e w = (Ret (), w\<lparr>wd_guard := new_guard e, wd_tracked := e\<rparr>)"
  by (simp add: begin_task_def bind_def set_guard_def set_tracked_def)

lemma try_Inr: "try_act (catch_unwind m) w = (Ret (Inr r), w') \<Longrightarrow> m w = (Ret r, w')"
  by (auto simp: try_act_def catch_unwind_def split: prod.splits outcome.splits)

lemma kept_settle [kept]: "keeps k (drive_running fuel env worktree session)"
proof -
  have p: "keeps k (publish_review env worktree artifact)" for artifact
    unfolding publish_review_def hand_over_def by (rule kept_got | rule kept | simp)+
  have s: "keeps k (settle_review env worktree session)" for session
    unfolding settle_review_def by (rule p kept)+
  show ?thesis unfolding drive_running_def by (rule s kept)+
qed

lemma kept_run: "keeps k (run_inner fuel env)"
  unfolding run_inner_def by (rule kept_got | rule kept | simp)+

lemma kept_adopt: "keeps k (adopt_inner fuel env)"
  unfolding adopt_inner_def adopt_state_def by (rule kept)+

text \<open>From the end of a body to the end of its task.\<close>

lemma task_end:
  assumes env: "env_runs (we_env env)" and ok: "store_ok (wd_db w)"
    and body: "db_runs m" "keeps (identity e) m" "reviews (identity e) m" and a: "ex_attempt_id e = Some a"
    and t: "try_act (catch_unwind m) (w\<lparr>wd_guard := g, wd_tracked := e\<rparr>) = (Ret outcome, w1)"
    and o: "observe_end env (ex_id e) failure outcome w1 = (Ret (cancellation, errors), w2)"
    and f: "finish_task env (ex_id e) a cancellation errors outcome w2 = (r, w')" and c: "clean_end r"
  shows "(case r of Ret res \<Rightarrow> reviewed (ex_id e) (Some a) res (wd_db w')
        \<and> (phase_is (ex_id e) Resolved (wd_db w')
           \<or> phase_is (ex_id e) Retained (wd_db w') \<and> mf_persistence (ex_manifest e) = Resumable)
      | _ \<Rightarrow> phase_is (ex_id e) Resolved (wd_db w'))"
proof -
  have "db_runs (try_act (catch_unwind m))" by (intro runs body(1))
  from db_ok(1) [OF this t] have ok1: "store_ok (wd_db w1)" using ok by simp
  have "keeps (identity e) (try_act (catch_unwind m))" by (intro kept body(2))
  from keepsD [OF this t] have id1: "identity (wd_tracked w1) = identity e" by simp
  have ok2: "store_ok (wd_db w2)" and s2: "store_step\<^sup>*\<^sup>* (wd_db w1) (wd_db w2)"
    using db_ok [OF runs_finish(2) [OF env] o ok1] .
  have "keeps (identity e) (observe_end env (ex_id e) failure outcome)"
    unfolding observe_end_def step_errors_def by (rule kept)+
  then have id2: "identity (wd_tracked w2) = identity e" using o id1 by (rule keepsD)
  have s3: "store_step\<^sup>*\<^sup>* (wd_db w2) (wd_db w')" by (rule db_ok(2) [OF runs_finish(1) [OF env] f ok2])
  note fin = finish_end [OF env ok2 f c]
  show ?thesis
  proof (cases outcome)
    case (Inl x)
    with fin show ?thesis by (auto simp: retain_for_resume_def)
  next
    case (Inr res)
    have "m (w\<lparr>wd_guard := g, wd_tracked := e\<rparr>) = (Ret res, w1)"
      using try_Inr [of m "w\<lparr>wd_guard := g, wd_tracked := e\<rparr>" res w1] t Inr by simp
    from reviewsD [OF body(3) this] have "reviewed (ex_id e) (Some a) res (wd_db w1)"
      using ok a by (simp add: identity_def)
    then have "reviewed (ex_id e) (Some a) res (wd_db w')"
      using reviewed_stays ok1 ok2 s2 s3 by blast
    with fin Inr id2 show ?thesis by (auto simp: retain_for_resume_def identity_def)
  qed
qed

lemma recovery_never: "adoption_recovery fuel env i errors e w \<noteq> (Ret r, w')"
  by (auto simp: adoption_recovery_def Let_def throw_def elim!: bind_RetE split: if_splits)

lemma observe_never: "observe_end env i failure outcome w = (Err e, w') \<Longrightarrow> \<not> clean_error e"
  by (auto simp: observe_end_def step_errors_def bind_def ret_def get_tracked_def get_guard_def Let_def try_act_def
      dest: store_Ret split: prod.splits outcome.splits sum.splits if_splits)

lemma body_endE:
  assumes "bind (begin_task e) (\<lambda>_. bind (try_act (catch_unwind m)) (\<lambda>outcome.
      bind (observe_end env i failure outcome) (\<lambda>(cancellation, errors). finish outcome cancellation errors))) w = (r, w')"
    and c: "clean_end r"
  obtains outcome w1 cancellation errors w2 where
    "try_act (catch_unwind m) (w\<lparr>wd_guard := new_guard e, wd_tracked := e\<rparr>) = (Ret outcome, w1)"
    "observe_end env i failure outcome w1 = (Ret (cancellation, errors), w2)"
    "finish outcome cancellation errors w2 = (r, w')"
proof -
  have "bind (try_act (catch_unwind m)) (\<lambda>outcome.
      bind (observe_end env i failure outcome) (\<lambda>(cancellation, errors). finish outcome cancellation errors))
      (w\<lparr>wd_guard := new_guard e, wd_tracked := e\<rparr>) = (r, w')"
    using assms(1) by (simp add: bind_Ret begin_task_end)
  then obtain outcome w1 where 1: "try_act (catch_unwind m) (w\<lparr>wd_guard := new_guard e, wd_tracked := e\<rparr>) = (Ret outcome, w1)"
      "bind (observe_end env i failure outcome) (\<lambda>(cancellation, errors). finish outcome cancellation errors) w1 = (r, w')"
    by (rule bind_endE) (use c in \<open>auto dest: never_clean\<close>)
  from 1(2) obtain x w2 where 2: "observe_end env i failure outcome w1 = (Ret x, w2)"
      "(case x of (cancellation, errors) \<Rightarrow> finish outcome cancellation errors) w2 = (r, w')"
    by (rule bind_endE) (use c in \<open>auto dest: observe_never\<close>)
  show thesis using that [OF 1(1)] 2 by (cases x) simp
qed

end
