(* ===== verification/Worker_Properties.thy ===== *)
theory Worker_Properties
  imports Worker_Results
begin

text \<open>
  The properties of a running worker: its procedures are runs of the stores, what a task leaves in
  the database when it returns, and two places where the worker does not do what it means to.
\<close>

section \<open>The worker moves the database by transactions only\<close>

lemma reached: "reachable (wd_db w) \<Longrightarrow> db_runs m \<Longrightarrow> reachable (wd_db (snd (m w)))"
  using reachable_run by (auto simp: db_runs_def)



section \<open>A concrete run\<close>

text \<open>The database of a task whose storage was refused: the failure is recorded, the cleanup under way.\<close>

definition demo_refused :: execution where
  "demo_refused = demo_assigned\<lparr>ex_state := Failed, ex_updated_at := 9,
     ex_result := Some (failed_result ''e1'' EnvironmentFailed)\<rparr>"

definition demo_failure :: execution_event where
  "demo_failure = execution_event_of demo_refused 9 (ExecutionFailed EnvironmentFailed)"

definition demo_hold :: "string \<Rightarrow> json \<Rightarrow> cleanup_row" where
  "demo_hold p h = demo_authority\<lparr>ca_phase := p, ca_handles := h, ca_created_at := 9, ca_updated_at := 9\<rparr>"

definition demo_begun :: db where
  "demo_begun = demo_claimed\<lparr>cleanups := [demo_hold ''ACTIVE:RESERVED'' (JObject [])]\<rparr>"

definition demo_failing :: "string \<Rightarrow> json \<Rightarrow> db" where
  "demo_failing p h = demo_claimed\<lparr>
     executions := [progress_row demo_refused ((row_of_execution demo_assigned)\<lparr>ex_version := 2\<rparr>)],
     attempts := [progress_attempt demo_refused demo_attempt],
     events := [demo_created, demo_step_row 2 demo_failure], cleanups := [demo_hold p h]\<rparr>"

lemmas refused_defs = demo_eval demo_refused_def demo_failure_def execution_event_of_def demo_begun_def
  demo_failing_def demo_hold_def demo_authority_def failed_result_def

lemma refused_begin: "cleanup_begin 9 ''e1'' ''attempt-u'' ''w1'' demo_claimed = Inr ((), demo_begun)"
  by (simp add: cleanup_begin_def refused_defs)

lemma refused_record:
  "record_progress 9 False demo_refused demo_failure demo_begun
     = Inr (2, demo_failing ''ACTIVE:RESERVED'' (JObject []))"
  by (simp add: record_progress_def refused_defs stale_controls_def)

lemma refused_get: "cleanup_get ''e1'' (demo_failing p h) = Inr (demo_hold p h)"
  by (simp add: cleanup_get_def refused_defs)

lemma refused_fence:
  "fence_for_cleanup 9 ''e1'' h' (demo_failing ''ACTIVE:RESERVED'' h) = Inr ((), demo_failing ''CLEANUP_PENDING'' h')"
  by (simp add: fence_for_cleanup_def fence_allowed_def refused_defs)

lemma refused_transition:
  "disposition_can_transition_to s s'
   \<Longrightarrow> cleanup_transition 9 ''e1'' s s' h' (demo_failing (disposition_text s) h) = Inr ((), demo_failing (disposition_text s') h')"
  by (simp add: cleanup_transition_def refused_defs)

lemma refused_finalize:
  "\<exists>out d. finalize_cleanup \<lparr>ck_utc = 9, ck_db = 9\<rparr> ''e1'' ''attempt-u'' (demo_failing ''STORAGE_RELEASED'' h) = Inr (out, d)
     \<and> cleanups d = [demo_hold ''RESERVATION_RELEASED'' h]"
  by (simp add: finalize_cleanup_def refused_defs demo_reservation_def demo_row_def cleanup_outcome_def finalize_resumable_def
      finalize_lost_def finalize_next_def finalize_kind_def demo_manifest_def Let_def)

lemma demo_env_simps:
  "db_now demo_worker_env n = 9" "clock_at demo_worker_env n = \<lparr>ck_utc = 9, ck_db = 9\<rparr>"
  "utc_now demo_worker_env w = (Ret 9, w\<lparr>wd_calls := wd_calls w + 1\<rparr>)"
  "we_cancelled demo_worker_env n = False" "we_late demo_worker_env n = False" "we_lifecycle demo_worker_env = demo_lifecycle"
  by (simp_all add: db_now_def clock_at_def utc_now_def ask_def demo_worker_env_def)

lemmas demo_steps = demo_env_simps persist_quiet [OF demo_quiet] store_quiet [OF demo_quiet] bind_def ret_def throw_def
  get_tracked_def set_tracked_def get_guard_def set_guard_def ask_def call_def try_act_def catch_unwind_def

lemma refused_inner:
  "wd_tracked w = demo_assigned \<Longrightarrow>
   run_inner fuel demo_worker_env w = (Err (WLifecycle ''no space''), w\<lparr>wd_calls := wd_calls w + 1\<rparr>)"
  by (simp add: run_inner_def demo_steps demo_lifecycle_def) (simp add: demo_assigned_def)

lemma refused_transition_to: "execution_transition 9 Failed demo_assigned = Inr (demo_assigned\<lparr>ex_state := Failed, ex_updated_at := 9\<rparr>)"
  by (simp add: execution_transition_def demo_assigned_def can_transition_to_def is_terminal_def)

lemma refused_observe:
  assumes "wd_tracked w = demo_assigned" "wd_guard w = new_guard demo_assigned" "wd_db w = demo_begun"
  shows "observe_end demo_worker_env ''e1'' run_failure (Inl (WLifecycle m)) w
    = (Ret (False, []), w\<lparr>wd_calls := wd_calls w + 4, wd_tracked := demo_refused,
        wd_db := demo_failing ''ACTIVE:RESERVED'' (JObject [])\<rparr>)"
proof -
  have c: "cancellation_lookup ''e1'' n demo_begun = Inr (False, demo_begun)" for n
    by (simp add: cancellation_lookup_def read_only_def cancellation_requested_def refused_defs)
  have f: "run_failure (new_guard demo_assigned) = EnvironmentFailed"
    by (simp add: run_failure_def new_guard_def)
  have t: "\<not> is_terminal (ex_state demo_assigned)" by (simp add: demo_assigned_def is_terminal_def)
  have r: "demo_assigned\<lparr>ex_state := Failed, ex_updated_at := 9, ex_result := Some (failed_result (ex_id demo_assigned) EnvironmentFailed)\<rparr>
      = demo_refused" by (simp add: demo_refused_def demo_assigned_def demo_execution_def)
  show ?thesis
    using assms
    by (simp add: observe_end_def step_errors_def persist_failure_def move_to_def record_kind_def write_progress_def
        demo_steps c f t refused_transition_to r refused_record demo_failure_def [symmetric])
qed

lemma refused_phases:
  assumes "wd_tracked w = demo_refused" "wd_guard w = new_guard demo_assigned"
    "wd_db w = demo_failing ''ACTIVE:RESERVED'' h"
  shows "\<exists>w'. cleanup_phases demo_worker_env w = (Ret (), w')
    \<and> wd_db w' = demo_failing ''STORAGE_RELEASED'' (cleanup_handles demo_refused (new_guard demo_assigned))"
proof -
  have i: "ex_id demo_refused = ''e1''" by (simp add: demo_refused_def demo_assigned_def demo_execution_def)
  have d: "disposition_of demo_worker_env (demo_hold ''ACTIVE:RESERVED'' h) = ret (Active StageReserved)"
    by (simp add: disposition_of_def authority_disposition_def demo_hold_def disposition_from_str_def)
  have g: "cg_session (new_guard demo_assigned) = None" "cg_runtime_created (new_guard demo_assigned) = False"
    "cg_worktree (new_guard demo_assigned) = None" "cg_receipt (new_guard demo_assigned) = None"
    "cg_execution (new_guard demo_assigned) = demo_assigned"
    by (simp_all add: new_guard_def)
  note t = refused_transition [of CleanupPending RuntimeStopped] refused_transition [of RuntimeStopped RuntimeDestroyed]
    refused_transition [of RuntimeDestroyed GitRecoveredCleaned] refused_transition [of GitRecoveredCleaned StorageReleased]
  note t' = t [unfolded disposition_can_transition_to_def, simplified]
  show ?thesis
    using assms
    by (simp add: cleanup_phases_def fence_tracked_def transition_cleanup_def stop_runtime_process_def guard_destroy_runtime_def
        guard_destroy_worktree_def guard_release_storage_def demo_steps read_only_def refused_get i d g refused_fence t'
        demo_lifecycle_def)
qed

lemma try_caught: "m w = (Err e, w') \<Longrightarrow> try_act (catch_unwind m) w = (Ret (Inl e), w')"
  by (simp add: try_act_def catch_unwind_def)

lemma refused_run:
  "\<exists>w'. run_with_cancel_and_controls 0 demo_worker_env demo_assigned (demo_world demo_claimed)
     = (Err (WLifecycle ''no space''), w')"
proof -
  define w0 where "w0 = (demo_world demo_claimed)\<lparr>wd_calls := 1, wd_db := demo_begun\<rparr>"
  let ?w = "(demo_world demo_claimed)\<lparr>wd_calls := 2, wd_db := demo_begun\<rparr>"
  define w1 where "w1 = ?w\<lparr>wd_calls := 6, wd_tracked := demo_refused, wd_db := demo_failing ''ACTIVE:RESERVED'' (JObject [])\<rparr>"
  have tr: "wd_tracked w1 = demo_refused" by (simp add: w1_def)
  obtain w2 h where p: "cleanup_phases demo_worker_env w1 = (Ret (), w2)" "wd_db w2 = demo_failing ''STORAGE_RELEASED'' h"
    using refused_phases [of w1 "JObject []"] by (auto simp: w1_def demo_world_def)
  obtain out d where f: "finalize_cleanup \<lparr>ck_utc = 9, ck_db = 9\<rparr> ''e1'' ''attempt-u'' (demo_failing ''STORAGE_RELEASED'' h)
      = Inr (out, d)" and c: "cleanups d = [demo_hold ''RESERVATION_RELEASED'' h]"
    using refused_finalize by blast
  have g: "cleanup_get ''e1'' d = Inr (demo_hold ''RESERVATION_RELEASED'' h)"
    by (simp add: cleanup_get_def sql_lookup_def ok_or_def c demo_hold_def demo_authority_def)
  obtain d' where r: "cleanup_resolve 9 ''e1'' d = Inr ((), d')"
    by (simp add: cleanup_resolve_def sql_lookup_def c rows_affected_def demo_hold_def demo_authority_def Let_def)
  have i: "ex_id demo_assigned = ''e1''" "ex_attempt_id demo_assigned = Some ''attempt-u''" "ex_worker_id demo_assigned = Some ''w1''"
    by (simp_all add: demo_assigned_def demo_execution_def)
  have o: "observe_end demo_worker_env ''e1'' run_failure (Inl (WLifecycle ''no space'')) ?w = (Ret (False, []), w1)"
    using refused_observe [of ?w] by (simp add: demo_world_def w1_def)
  have inner: "run_inner 0 demo_worker_env w0
      = (Err (WLifecycle ''no space''), ?w)"
    using refused_inner [of w0 0] by (simp add: demo_world_def w0_def)
  have b: "store demo_worker_env (\<lambda>n. cleanup_begin (db_now demo_worker_env n) ''e1'' ''attempt-u'' ''w1'') (demo_world demo_claimed)
      = (Ret (Inr ()), w0)"
    by (simp add: store_quiet [OF demo_quiet] demo_env_simps refused_begin demo_world_def w0_def)
  have t: "begin_task demo_assigned w0
      = (Ret (), w0)"
    by (simp add: begin_task_end demo_world_def w0_def)
  have body: "try_act (catch_unwind (run_inner 0 demo_worker_env)) w0
      = (Ret (Inl (WLifecycle ''no space'')), ?w)"
    by (rule try_caught) (rule inner)
  have fin: "\<exists>w'. finish_task demo_worker_env ''e1'' ''attempt-u'' False [] (Inl (WLifecycle ''no space'')) w1
      = (Err (WLifecycle ''no space''), w')"
    by (simp add: finish_task_def finish_release_def acknowledge_release_def step_errors_def store_errors_def
        with_cleanup_errors_def retain_for_resume_def demo_steps tr p f read_only_def g r demo_lifecycle_def)
  show ?thesis
    using fin by (simp add: run_with_cancel_and_controls_def require_def i bind_Ret b t body o)
qed

section \<open>What a task leaves behind\<close>



section \<open>Controls and polled events\<close>

text \<open>
  C40. A control that is taken while the health of the agent is probed discards the events polled
  just before: the rest of the pass does not depend on which events they were, and the loop is not
  left even where one of them was the settled review.
\<close>

theorem control_discards_polled_events:
  assumes "polled \<noteq> []" and "polled' \<noteq> []" and "we_wake env (wd_calls w + 1) = WokeControl control"
  shows "health_round env polled dv w = health_round env polled' dv w
    \<and> (\<forall>dv'. fst (health_round env polled dv w) \<noteq> Ret (True, dv'))"
proof -
  let ?dv = "dv\<lparr>dr_health := record_event (we_instant env (wd_calls w)) (dr_health dv)\<rparr>"
  let ?w = "snd (dropped env (lc_resource_sample (we_lifecycle env) (wd_tracked w)) (w\<lparr>wd_calls := wd_calls w + 2\<rparr>))"
  have eq: "health_round env p dv w = bind (handle_control env control ?dv) (\<lambda>dv. ret (False, dv)) ?w" if "p \<noteq> []" for p
    using that assms(3) by (simp add: health_round_def select_call_def instant_now_def ask_def bind_def get_tracked_def ret_def
        dropped_def)
  have "fst (health_round env polled dv w) \<noteq> Ret (True, dv')" for dv'
    unfolding eq [OF assms(1)] by (auto simp: bind_def ret_def split: prod.split outcome.split)
  then show ?thesis using eq assms(1,2) by simp
qed

definition demo_control_env :: "unit worker_env" where
  "demo_control_env = demo_worker_env\<lparr>we_wake := \<lambda>_. WokeControl
     \<lparr>pn_request = \<lparr>cq_request_id = 1, cq_execution_id = ''e1'', cq_action = Pause, cq_requested_at = 1, cq_completed_at = None\<rparr>,
      pn_execution = demo_assigned, pn_phase = Accepted, pn_accepted_worker_id = ''w1'',
      pn_accepted_attempt_id = ''attempt-u'', pn_source_session_id = ''s1'', pn_worktree_path = ''/workspace'',
      pn_accepted_version = 2, pn_accepted_state = Running, pn_target_session_id = None,
      pn_side_effect_session_id = None\<rparr>\<rparr>"

theorem control_discards_polled_events_witness:
  "health_round demo_control_env [demo_step_event 9 Running ReviewReadyEvent]
     \<lparr>dr_session = demo_session, dr_health = default_at 0, dr_throttle = empty_throttle\<rparr> (demo_world demo_claimed)
   = health_round demo_control_env [demo_step_event 9 Running TestsStarted]
     \<lparr>dr_session = demo_session, dr_health = default_at 0, dr_throttle = empty_throttle\<rparr> (demo_world demo_claimed)"
  using control_discards_polled_events [of "[demo_step_event 9 Running ReviewReadyEvent]" "[demo_step_event 9 Running TestsStarted]"
      demo_control_env "demo_world demo_claimed"]
  by (simp add: demo_control_env_def)

section \<open>Adoption outside the running stage\<close>

lemma no_db_step:
  "adopt_state env w = (r, w') \<Longrightarrow> wd_db w' = wd_db w \<and> ex_id (wd_tracked w') = ex_id (wd_tracked w)"
  "call f w = (r', w') \<Longrightarrow> wd_db w' = wd_db w \<and> wd_tracked w' = wd_tracked w"
  "require x m w = (r'', w') \<Longrightarrow> w' = w"
  by (auto simp: adopt_state_def move_to_def bind_def get_tracked_def utc_now_def ask_def refuse_def throw_def set_tracked_def
      ret_def call_def require_def execution_transition_def
      split: if_splits sum.splits prod.splits reply.splits option.splits)

lemma adopt_reaches:
  assumes "adopt_inner fuel env w = (Ret r, w')"
  shows "\<exists>n n' t h u d'. cleanup_transition t (ex_id (wd_tracked w)) (Active StageRunning) (Active StageRunning) h
     (en_others (we_env env) n' (en_others (we_env env) n (wd_db w))) = Inr (u, d')"
  using assms unfolding adopt_inner_def Let_def
proof (elim bind_RetE)
  fix a w1 e w2 adopted w3 u w4 worker w5 pending w6 v w7 x w8
  assume before: "adopt_state env w = (Ret a, w1)" "get_tracked w1 = (Ret e, w2)"
      "call (lc_adopt (we_lifecycle env) e) w2 = (Ret adopted, w3)"
      "set_guard (\<lambda>g. g\<lparr>cg_receipt := Some (ad_receipt adopted), cg_worktree := Some (ad_worktree adopted),
            cg_environment := Some (ad_environment adopted), cg_runtime_created := True,
            cg_session := Some (ad_session adopted)\<rparr>) w3 = (Ret u, w4)"
      "require (ex_worker_id e) ''adopted execution lacks worker authority'' w4 = (Ret worker, w5)"
    and listed: "persist env (read_only (list_pending_controls worker)) w5 = (Ret pending, w6)"
    and resumed: "(if ex_state e = Running \<and> \<not> list_ex (\<lambda>c. cq_execution_id (pn_request c) = ex_id e) pending
           then call (lc_resume (we_lifecycle env) e (ad_receipt adopted) (ad_environment adopted) (ad_session adopted))
           else ret ()) w6 = (Ret v, w7)"
    and confirmed: "transition_cleanup env (Active StageRunning) (Active StageRunning) w7 = (Ret x, w8)"
  have 5: "wd_db w5 = wd_db w" "ex_id (wd_tracked w5) = ex_id (wd_tracked w)"
    using before by (auto simp: get_tracked_def set_guard_def dest!: no_db_step)
  obtain n where 6: "en_others (we_env env) n (wd_db w5) = wd_db w6" "wd_tracked w6 = wd_tracked w5"
    using listed by (elim persist_RetE) (auto simp: read_only_def split: sum.splits)
  have 7: "wd_db w7 = wd_db w6" "wd_tracked w7 = wd_tracked w6"
    using resumed by (auto simp: ret_def dest!: no_db_step(2) split: if_splits)
  show ?thesis
    using confirmed 5 6(2) 7 unfolding transition_cleanup_def 5(1) [symmetric]
    by (elim bind_RetE persist_RetE) (auto simp: get_tracked_def get_guard_def 6(1) [symmetric], blast)
qed

lemma transition_phase:
  assumes ok: "store_ok d" and c: "find_cleanup d i = Some c" and t: "cleanup_transition t i s s h d = Inr (u, d')"
  shows "ca_phase c = disposition_text s"
proof -
  have "rows_affected (\<lambda>r. ca_execution_id r = i \<and> ca_phase r \<in> set [disposition_text s, disposition_text s]) (cleanups d) = 1"
    using t c unfolding cleanup_transition_def by (simp add: Let_def split: if_splits)
  from rows_affected_1D [OF this] only_row [OF ok c] show ?thesis by auto
qed

lemma adopted_body:
  assumes env: "env_runs (we_env env)" and ok: "store_ok (wd_db w)"
    and ret: "run_adopted_with_cancel_and_controls fuel env e w = (Ret r, w')"
  shows "\<exists>t a worker n w0 r0 w1. cleanup_begin t (ex_id e) a worker (en_others (we_env env) n (wd_db w)) = Inr ((), wd_db w0)
    \<and> wd_tracked w0 = e \<and> adopt_inner fuel env w0 = (Ret r0, w1)"
proof (cases "ex_attempt_id e")
  case None
  with ret show ?thesis by (auto simp: run_adopted_with_cancel_and_controls_def require_def refuse_def throw_def bind_def)
next
  case (Some a)
  show ?thesis
  proof (cases "ex_worker_id e")
    case None
    with ret Some show ?thesis by (auto simp: run_adopted_with_cancel_and_controls_def require_def refuse_def throw_def bind_def ret_def)
  next
    case w: (Some worker)
    obtain u wb where b: "persist env (\<lambda>n. cleanup_begin (db_now env n) (ex_id e) a worker) w = (Ret u, wb)"
      and rest: "bind (begin_task e) (\<lambda>_. bind (try_act (catch_unwind (adopt_inner fuel env))) (\<lambda>outcome.
           bind (observe_end env (ex_id e) (\<lambda>_. WorkerLost) outcome) (\<lambda>(cancellation, errors).
             bind get_guard (\<lambda>guard. case outcome of
               Inl e' \<Rightarrow> if cg_receipt guard = None then adoption_recovery fuel env (ex_id e) errors e'
                 else finish_task env (ex_id e) a cancellation errors outcome
             | Inr _ \<Rightarrow> finish_task env (ex_id e) a cancellation errors outcome)))) wb = (Ret r, w')"
      by (rule bind_RetE [OF ret [unfolded run_adopted_with_cancel_and_controls_def Some w require_def option.case bind_ret]])
    have okb: "store_ok (wd_db wb)" by (rule db_ok(1) [OF runs_persist b ok]) (intro env, erule tx_runs)
    let ?w0 = "wb\<lparr>wd_guard := new_guard e, wd_tracked := e\<rparr>"
    show ?thesis
    proof (rule body_endE [OF rest clean_simps(1)])
      fix outcome w1 cancellation errors w2
      assume t: "try_act (catch_unwind (adopt_inner fuel env)) ?w0 = (Ret outcome, w1)"
        and o: "observe_end env (ex_id e) (\<lambda>_. WorkerLost) outcome w1 = (Ret (cancellation, errors), w2)"
        and f: "bind get_guard (\<lambda>guard. case outcome of
               Inl e' \<Rightarrow> if cg_receipt guard = None then adoption_recovery fuel env (ex_id e) errors e'
                 else finish_task env (ex_id e) a cancellation errors outcome
             | Inr _ \<Rightarrow> finish_task env (ex_id e) a cancellation errors outcome) w2 = (Ret r, w')"
      have "db_runs (try_act (catch_unwind (adopt_inner fuel env)))" by (intro runs runs_adopt_inner env)
      from db_ok(1) [OF this t] have "store_ok (wd_db w1)" using okb by simp
      then have ok2: "store_ok (wd_db w2)" by (rule db_ok(1) [OF runs_finish(2) [OF env] o])
      have "finish_task env (ex_id e) a cancellation errors outcome w2 = (Ret r, w')"
        using f by (auto simp: bind_def [of get_guard] get_guard_def recovery_never split: sum.splits if_splits)
      from finish_end [OF env ok2 this] have "outcome = Inr r" by (auto split: sum.splits)
      then have "adopt_inner fuel env ?w0 = (Ret r, w1)" using try_Inr [of _ ?w0 r w1] t by simp
      moreover obtain t n where "cleanup_begin t (ex_id e) a worker (en_others (we_env env) n (wd_db w)) = Inr ((), wd_db wb)"
        using b by (elim persist_RetE) auto
      ultimately show ?thesis by (intro exI [of _ ?w0] exI conjI) auto
    qed
  qed
qed

text \<open>
  C39. Start-up plans the adoption of an execution whose agent was started but whose authority has
  not reached the running stage, and of one whose review was not yet published; but adoption
  confirms the running stage in the authority, which the stores refuse in these stages, so such an
  adoption never returns a result.
\<close>

theorem adoption_needs_running_stage:
  assumes "env_runs (we_env env)" and "reachable (wd_db w)"
    and "\<And>n d. find_cleanup (en_others (we_env env) n d) (ex_id e) = find_cleanup d (ex_id e)"
    and "find_cleanup (wd_db w) (ex_id e) = Some c" and "ca_phase c = disposition_text s"
    and "s \<in> {Active StagePiStarted, Active StagePostPiBeforeEvent}"
  shows "adoptable_stage s \<and> (\<forall>r. fst (run_adopted_with_cancel_and_controls fuel env e w) \<noteq> Ret r)"
proof (intro conjI allI notI)
  show "adoptable_stage s" using assms(6) by (auto simp: adoptable_stage_def)
  fix r assume "fst (run_adopted_with_cancel_and_controls fuel env e w) = Ret r"
  then obtain w' where ret: "run_adopted_with_cancel_and_controls fuel env e w = (Ret r, w')" by (metis prod.collapse)
  have ok: "store_ok (wd_db w)" by (rule reachable_ok [OF assms(2)])
  obtain t a worker n d0 w0 r0 w1 where d0: "d0 = en_others (we_env env) n (wd_db w)"
    and b: "cleanup_begin t (ex_id e) a worker d0 = Inr ((), wd_db w0)" and i: "wd_tracked w0 = e"
    and body: "adopt_inner fuel env w0 = (Ret r0, w1)"
    using adopted_body [OF assms(1) ok ret] by blast
  have run0: "store_step\<^sup>*\<^sup>* (wd_db w) d0" unfolding d0 by (rule env_runsD [OF assms(1)])
  have c0: "find_cleanup d0 (ex_id e) = Some c" unfolding d0 assms(3) by (rule assms(4))
  have ok0: "store_ok (wd_db w0)"
    using stores.run_inv [OF rtranclp.rtrancl_into_rtrancl [OF run0 store_step.cleanup_begin [OF b]] ok] .
  obtain c' where c': "find_cleanup (wd_db w0) (ex_id e) = Some c'" "ca_phase c' = disposition_text s"
  proof -
    have "wd_db w0 = d0\<lparr>cleanups := sql_update (\<lambda>r. ca_execution_id r = ex_id e)
        (\<lambda>r. r\<lparr>ca_updated_at := t\<rparr>) (cleanups d0)\<rparr>"
      using b c0 by (auto simp: cleanup_begin_def split: if_splits)
    then show ?thesis using that c0 assms(5) by (simp add: sql_lookup_update)
  qed
  obtain n1 n2 t' h u d' where tr: "cleanup_transition t' (ex_id e) (Active StageRunning) (Active StageRunning) h
     (en_others (we_env env) n2 (en_others (we_env env) n1 (wd_db w0))) = Inr (u, d')"
    using adopt_reaches [OF body] i by blast
  let ?d = "en_others (we_env env) n2 (en_others (we_env env) n1 (wd_db w0))"
  have ok2: "store_ok ?d" using stores.run_inv [OF env_runsD [OF assms(1)]] ok0 by blast
  have c2: "find_cleanup ?d (ex_id e) = Some c'" unfolding assms(3) by (rule c'(1))
  have "ca_phase c' = disposition_text (Active StageRunning)" by (rule transition_phase [OF ok2 c2 tr])
  then have "s = Active StageRunning" using c'(2) disposition_from_str_text by (metis sum.inject(2))
  with assms(6) show False by auto
qed

text \<open>An execution whose agent was started when its worker stopped.\<close>

definition demo_staged :: "cleanup_disposition \<Rightarrow> json \<Rightarrow> db" where
  "demo_staged s h = demo_claimed\<lparr>cleanups := [demo_authority\<lparr>ca_phase := disposition_text s, ca_handles := h\<rparr>]\<rparr>"

lemma demo_staged_step:
  "disposition_can_transition_to s s' \<Longrightarrow> store_step (demo_staged s h) (demo_staged s' h')"
  by (rule store_step.cleanup_transition [of 3 "''e1''" s s' h' _ "()"])
    (simp add: cleanup_transition_def demo_staged_def sql_lookup_def rows_affected_def sql_update_def demo_authority_def)

lemma demo_started_reachable: "reachable (demo_staged (Active StagePiStarted) JNull)"
proof -
  have "demo_staged (Active StageReserved) (JObject []) = demo_prepared"
    by (simp add: demo_staged_def demo_prepared_def demo_authority_def)
  then have r: "reachable (demo_staged (Active StageReserved) (JObject []))" using demo_reachable(4) by simp
  have c: "disposition_can_transition_to (Active StageReserved) (Active StageStorage)"
    "disposition_can_transition_to (Active StageStorage) (Active StageWorktree)"
    "disposition_can_transition_to (Active StageWorktree) (Active StageRuntime)"
    "disposition_can_transition_to (Active StageRuntime) (Active StagePiStarted)"
    by (simp_all add: disposition_can_transition_to_def)
  show ?thesis
    by (rule reachable_step [OF reachable_step [OF reachable_step [OF reachable_step [OF r
        demo_staged_step [OF c(1)]] demo_staged_step [OF c(2)]] demo_staged_step [OF c(3)]] demo_staged_step [OF c(4)]])
qed

theorem adoption_needs_running_stage_witness:
  "\<forall>r. fst (run_adopted_with_cancel_and_controls 0 demo_worker_env demo_assigned
     (demo_world (demo_staged (Active StagePiStarted) JNull))) \<noteq> Ret r"
proof -
  let ?d = "demo_staged (Active StagePiStarted) JNull"
  have i: "ex_id demo_assigned = ''e1''" by (simp add: demo_assigned_def demo_execution_def)
  have "reachable (wd_db (demo_world ?d))" using demo_started_reachable by (simp add: demo_world_def)
  moreover have "find_cleanup (wd_db (demo_world ?d)) (ex_id demo_assigned)
      = Some (demo_authority\<lparr>ca_phase := disposition_text (Active StagePiStarted), ca_handles := JNull\<rparr>)"
    by (simp add: demo_world_def demo_staged_def sql_lookup_def i demo_authority_def)
  ultimately show ?thesis
    using adoption_needs_running_stage [OF demo_worker_runs, of "demo_world ?d" demo_assigned _ "Active StagePiStarted" 0]
    by (simp add: demo_worker_env_def)
qed

end
