(* ===== verification/Spec2Isabelle.thy ===== *)
theory Spec2Isabelle
  imports Lifecycle Manifest Scheduler Execution Store_Tables Event_Log Worker_Store Cleanup_Store
    Store_Invariants Execution_Store Control_Store Reservation_Store Reservation_Invariants Store_Machine
    Control_Authority Demo_Run Store_Properties Api_Auth Api_Executions Event_Stream Api_Workers
    Api_Properties Sha256 Artifact_Store Health_Monitor Storage_Model Worker_Handles Worker_Base
    Worker_Recovery Worker_Demo Recovery_Progress Worker_Run Worker_Results Worker_Properties
begin

text \<open>
  A verification development for the execution orchestrator: a controller with a PostgreSQL
  database and an HTTP interface, and workers that run one agent per execution.

  \<^bold>\<open>The program.\<close> Clients ask the controller (\<open>crates/orchestrator-api\<close>) to create, read, retry,
  cancel, pause, resume and fork executions; the controller keeps them in its stores
  (\<open>crates/orchestrator-persistence\<close>), on the data types of \<open>crates/orchestrator-core\<close>. Workers
  register, claim the oldest execution that fits them (\<open>crates/orchestrator-scheduler\<close>, the
  reservation store), run it and report progress; a cleanup authority per execution records how
  far its resources have been built up or torn down, so that a crash at any point can be
  recovered. Controller and workers meet in the database only.

  \<^bold>\<open>Data and rules.\<close> \<open>Prelude\<close> holds machine integers, the standard-library string operations on
  UTF-8 bytes and SQL statements on tables as lists of rows, with the interfaces several
  components share (text codecs, state machines with terminal states, ranked machines).
  \<open>Lifecycle\<close> (\<open>execution.rs\<close>, \<open>event.rs\<close>, \<open>resilience_contracts.rs\<close>), \<open>Manifest\<close> (\<open>manifest.rs\<close>,
  \<open>environment.rs\<close>), \<open>Scheduler\<close> (\<open>worker.rs\<close>, the scheduler crate) and \<open>Execution\<close>
  (\<open>execution.rs\<close>, \<open>labels.rs\<close>, \<open>resource_record.rs\<close>) translate the core crate: the lemmas show
  which states are terminal, that completion is reached through running, what validation
  accepts, that the choice of a worker is the least loaded that fits, and that label selectors
  and resource projections name exactly what an execution owns.

  \<^bold>\<open>Stores.\<close> \<open>Store_Tables\<close> is the schema (\<open>migrations\<close>), one list of rows per table. A transaction
  is a function from the database to an error or a result and a new database; clocks, generated
  identifiers and the collation of the database are parameters. \<open>Event_Log\<close>, \<open>Worker_Store\<close>,
  \<open>Cleanup_Store\<close>, \<open>Execution_Store\<close>, \<open>Control_Store\<close> and \<open>Reservation_Store\<close> translate
  \<open>event_log.rs\<close>, \<open>workers.rs\<close>, \<open>cleanup.rs\<close>, \<open>lib.rs\<close> and \<open>reservations.rs\<close>, one definition per
  operation with every branch. \<open>Store_Invariants\<close> and \<open>Reservation_Invariants\<close> state the invariant of
  the database and that each operation keeps it; \<open>Store_Machine\<close> makes them one machine, with one
  rule per operation, and \<open>Control_Authority\<close> adds what never changes of an accepted control.
  \<open>Store_Properties\<close> holds the properties of all runs of the machine (capacity, lifecycle,
  idempotency, cancellation, cleanup order, histories) and \<open>Demo_Run\<close> the concrete databases their
  witnesses use.

  \<^bold>\<open>Interface.\<close> \<open>Api_Auth\<close> (\<open>auth.rs\<close>, \<open>error.rs\<close>, the configuration in \<open>lib.rs\<close>), \<open>Api_Executions\<close>
  (\<open>executions.rs\<close>, \<open>interactive.rs\<close>), \<open>Event_Stream\<close> (\<open>events.rs\<close>) and \<open>Api_Workers\<close>
  (\<open>workers.rs\<close>, \<open>operations.rs\<close>, the router) are the handlers. A handler makes several store
  calls; what other clients commit before each of them is a parameter, constrained only to be a
  run of the stores. \<open>Api_Properties\<close> shows that the interface is such a run itself, that
  unauthorised requests touch nothing, and what the event stream delivers.

  \<^bold>\<open>Artifacts.\<close> \<open>Sha256\<close> is the digest routine on 32-bit words against the definitions of the
  standard; \<open>Artifact_Store\<close> (\<open>artifacts.rs\<close>) runs on a file system with hard links in which any
  call may fail and other processes act between calls.

  \<^bold>\<open>Worker.\<close> \<open>Health_Monitor\<close> (\<open>health.rs\<close>, the throttle in \<open>run.rs\<close>) is the watchdog on
  monotonic nanoseconds. \<open>Storage_Model\<close> (\<open>execution-storage/src/model.rs\<close>) has the layouts, backend
  identities, receipts and journal records of volumes with their validation; \<open>Worker_Handles\<close>
  (\<open>cleanup_handles\<close> in \<open>run.rs\<close>, its decoding in \<open>system.rs\<close>) what a task holds and its durable form,
  with the round trip through JSON. \<open>Worker_Base\<close> (\<open>lib.rs\<close>, \<open>cleanup_guard.rs\<close>) is the ground of the
  rest: a procedure of the worker is a function of the world (the database, the outside world only
  the lifecycle trait touches, the tracked execution, the guard and the tasks), and returns, fails,
  unwinds or is still running. The lifecycle trait is a parameter; other processes' commits, broken
  connections, lost replies, clocks, the cancellation flag and the choices of \<open>tokio::select!\<close> are
  functions of the number of the call. \<open>Worker_Recovery\<close> (\<open>lib.rs\<close>, \<open>recovery.rs\<close>) is start-up
  reconciliation, the daemon's tick and the recovery of authorities, and \<open>Recovery_Progress\<close> shows
  that recovery ends. \<open>Worker_Run\<close> (\<open>run.rs\<close>) runs one execution: the attempt, controls, the drive
  loop, adoption and cleanup. \<open>Worker_Results\<close> carries the identity of the execution and the record of
  its review through these procedures, and \<open>Worker_Properties\<close> shows that a worker is a run of the
  stores, what a task leaves behind, and two places where the code falls short of its intent.
  \<open>Worker_Demo\<close> is the concrete worker of the witnesses.

  \<^bold>\<open>Bounds.\<close> The loop over identifiers of new executions has the source's bound of
  \<open>MAX_ID_ATTEMPTS\<close> passes; the event stream is a function of the finite list of rounds it has
  made, and its liveness property says how many rounds are enough. Two loops of the worker take
  fuel and are still running where it is spent: the loop over the phases of a cleanup, for which
  four passes are proved to be enough, and the drive loop, which runs as long as the agent does and
  of which only properties of its end are stated. Every other loop is total.

  \<^bold>\<open>Not modelled.\<close> The text of database
  errors, HTTP framing, TLS, and serde's decoding of request bodies are outside: a body that does
  not decode is a parameter of the handler. The sha2 crate's digest of tokens is a parameter. Of the
  worker, the implementation of the lifecycle trait is outside (\<open>system.rs\<close> and the crates for Docker,
  git, the agent and volumes below it): it drives other programs through processes, sockets and
  system calls. Observers of control checkpoints do nothing in the program and are left out; so is
  logging. A store call is atomic, as its transaction is.
\<close>

end
